theory Spec2Isabelle
  imports Main "HOL-Library.Word" "HOL-Library.List_Lexorder"
begin

unbundle bit_operations_syntax

section \<open>Machine types\<close>

type_synonym u8 = "8 word"
type_synonym u32 = "32 word"
type_synonym addr = "32 word"

section \<open>PKCS7 padding (secboot\_aes.c)\<close>

text \<open>
  Buffers are byte lists; a \<open>size_t\<close> length is a \<open>nat\<close>.  The target's
  \<open>size_t\<close> has 32 bits, and the padded buffer of \<open>len + pad_len\<close> bytes has to
  exist in its address space, so \<open>len + pad_len\<close> does not wrap for any buffer the
  functions can be handed.
\<close>

datatype PKCS7_Status = PKCS7_PAD_OK | PKCS7_PAD_NOK | PKCS7_UNPAD_OK | PKCS7_UNPAD_NOK

definition AES_BLOCK_SIZE :: nat where
  "AES_BLOCK_SIZE = 16"

text \<open>The loop \<^verbatim>\<open>for (uint8_t i = 0; i < pad_len; i++) output[len + i] = pad_len;\<close>
  run on an output buffer that already holds the \<open>len\<close> copied bytes.\<close>

function pad_loop :: "nat \<Rightarrow> u8 \<Rightarrow> u8 list \<Rightarrow> u8 list" where
  "pad_loop i pad_len output =
     (if i < unat pad_len then pad_loop (Suc i) pad_len (output @ [pad_len]) else output)"
  by pat_completeness auto
termination
  by (relation "measure (\<lambda>(i, pad_len, output). unat pad_len - i)") auto

declare pad_loop.simps [simp del]

text \<open>\<open>PKCS7_Pad input len\<close> returns the status, the bytes written to \<open>output\<close>
  and \<open>*out_len\<close>.\<close>

definition PKCS7_Pad :: "u8 list \<Rightarrow> PKCS7_Status \<times> u8 list \<times> nat" where
  "PKCS7_Pad input =
     (let len = length input;
          pad_len = (of_nat (AES_BLOCK_SIZE - (len mod AES_BLOCK_SIZE)) :: u8);
          output = pad_loop 0 pad_len (take len input)
      in (PKCS7_PAD_OK, output, len + unat pad_len))"

text \<open>The validation loop of \<open>PKCS7_Unpad\<close>: \<open>False\<close> is its early
  \<^verbatim>\<open>return PKCS7_UNPAD_NOK\<close>.\<close>

function unpad_loop :: "nat \<Rightarrow> u8 \<Rightarrow> u8 list \<Rightarrow> nat \<Rightarrow> bool" where
  "unpad_loop i pad input input_len =
     (if i < unat pad
      then (if input ! (input_len - 1 - i) \<noteq> pad then False
            else unpad_loop (Suc i) pad input input_len)
      else True)"
  by pat_completeness auto
termination
  by (relation "measure (\<lambda>(i, pad, input, input_len). unat pad - i)") auto

declare unpad_loop.simps [simp del]

text \<open>\<open>PKCS7_Unpad input input_len\<close> returns the status, the bytes written to
  \<open>output\<close> and \<open>*output_len\<close>; on a failure nothing is written.  The pointers are
  those of live buffers, so the null checks pass.\<close>

definition PKCS7_Unpad :: "u8 list \<Rightarrow> nat \<Rightarrow> PKCS7_Status \<times> u8 list \<times> nat" where
  "PKCS7_Unpad input input_len =
     (if input_len = 0 \<or> input_len mod AES_BLOCK_SIZE \<noteq> 0 then (PKCS7_UNPAD_NOK, [], 0)
      else let pad = input ! (input_len - 1) in
        if pad = 0 \<or> unat pad > AES_BLOCK_SIZE \<or> unat pad > input_len
        then (PKCS7_UNPAD_NOK, [], 0)
        else if \<not> unpad_loop 0 pad input input_len then (PKCS7_UNPAD_NOK, [], 0)
        else let output_len = input_len - unat pad
             in (PKCS7_UNPAD_OK, take output_len input, output_len))"

section \<open>Memory, the HAL and the observable state\<close>

text \<open>
  The bootloader addresses flash and RAM through absolute 32-bit addresses
  (secboot\_config.h), so memory is one byte store.  Multi-byte values are
  little-endian, as on the Cortex-M33 target.
\<close>

type_synonym memory = "addr \<Rightarrow> u8"

primrec read_bytes :: "memory \<Rightarrow> addr \<Rightarrow> nat \<Rightarrow> u8 list" where
  "read_bytes m a 0 = []"
| "read_bytes m a (Suc n) = m a # read_bytes m (a + 1) n"

primrec write_bytes :: "memory \<Rightarrow> addr \<Rightarrow> u8 list \<Rightarrow> memory" where
  "write_bytes m a [] = m"
| "write_bytes m a (b # bs) = write_bytes (m(a := b)) (a + 1) bs"

definition memset :: "memory \<Rightarrow> addr \<Rightarrow> u8 \<Rightarrow> nat \<Rightarrow> memory" where
  "memset m a c n = write_bytes m a (replicate n c)"

definition le32 :: "u8 list \<Rightarrow> u32" where
  "le32 bs = ucast (bs ! 0) + 2 ^ 8 * ucast (bs ! 1) + 2 ^ 16 * ucast (bs ! 2)
               + 2 ^ 24 * ucast (bs ! 3)"

definition bytes_of_u32 :: "u32 \<Rightarrow> u8 list" where
  "bytes_of_u32 x = [ucast x, ucast (drop_bit 8 x), ucast (drop_bit 16 x), ucast (drop_bit 24 x)]"

definition load32 :: "memory \<Rightarrow> addr \<Rightarrow> u32" where
  "load32 m a = le32 (read_bytes m a 4)"

datatype HAL_StatusTypeDef = HAL_OK | HAL_ERROR | HAL_BUSY | HAL_TIMEOUT

text \<open>
  The STM32 HAL and the peripherals behind it are not part of the repository:
  they are parameters of the model.  Each field stands for the HAL call named
  beside it; a buffer the HAL fills is returned with the status.
\<close>

record hal_env =
  tick_src :: "nat \<Rightarrow> u32"
    \<comment> \<open>\<open>HAL_GetTick()\<close> at its k-th call\<close>
  crc_calculate :: "u8 list \<Rightarrow> u32"
    \<comment> \<open>\<open>HAL_CRC_Calculate\<close> over a byte buffer\<close>
  flash_program :: "memory \<Rightarrow> addr \<Rightarrow> u8 list \<Rightarrow> HAL_StatusTypeDef \<times> memory"
    \<comment> \<open>\<open>HAL_FLASH_Program(FLASH_TYPEPROGRAM_DOUBLEWORD, addr, data)\<close>, the 64-bit
        datum as its 8 bytes\<close>
  sha256_start :: "u8 list \<Rightarrow> HAL_StatusTypeDef"
    \<comment> \<open>\<open>HAL_HASHEx_SHA256_Start\<close> on the input bytes\<close>
  sha256_finish :: "u8 list \<Rightarrow> HAL_StatusTypeDef \<times> u8 list"
    \<comment> \<open>\<open>HAL_HASHEx_SHA256_Finish\<close>: status and the 32-byte digest of the input\<close>
  pka_ready :: bool
    \<comment> \<open>\<open>HAL_PKA_GetState(&hpka) == HAL_PKA_STATE_READY\<close>\<close>
  pka_ecdsa_verif :: "u8 list \<Rightarrow> u8 list \<Rightarrow> u8 list \<Rightarrow> u8 list \<Rightarrow> u8 list
                        \<Rightarrow> HAL_StatusTypeDef \<times> bool"
    \<comment> \<open>\<open>HAL_PKA_ECDSAVerif\<close> on digest, R, S, Qx, Qy over prime256v1, with
        \<open>HAL_PKA_ECDSAVerif_IsValidSignature\<close>\<close>
  ns_reset_handler_returns :: bool
    \<comment> \<open>whether the non-secure reset handler called by \<open>JumpTo\<close> comes back\<close>
  entry_padding :: "u8 list"
    \<comment> \<open>the 3 padding bytes of the stack-allocated log entry\<close>
  stack_after_entry :: "u8 list"
    \<comment> \<open>the 44 stack bytes that follow the log entry\<close>

text \<open>
  The calls whose order and number the specification speaks about are recorded,
  in order, in a ghost trace.
\<close>

datatype call =
    LogEvent_call u32 u8 u32
  | VerifyAppSignature_call addr
  | SHA256_Compute_call addr u32
  | ECDSA_Verify_call
  | JumpTo_call addr
  | Lockdown

record world =
  mem :: memory
  log_index :: u32
    \<comment> \<open>\<^verbatim>\<open>static uint32_t log_index\<close> of \<open>SECBOOT_Diag_LogEvent\<close>\<close>
  ticks :: nat
    \<comment> \<open>number of \<open>HAL_GetTick\<close> calls made so far\<close>
  trace :: "call list"

definition HAL_GetTick :: "hal_env \<Rightarrow> world \<Rightarrow> u32 \<times> world" where
  "HAL_GetTick h w = (tick_src h (ticks w), w\<lparr>ticks := Suc (ticks w)\<rparr>)"

definition log_call :: "call \<Rightarrow> world \<Rightarrow> world" where
  "log_call e w = w\<lparr>trace := trace w @ [e]\<rparr>"

text \<open>A call either returns a value, never returns because control went to the
  non-secure image, or never returns because the processor idles in
  \<^verbatim>\<open>while(1);\<close>.\<close>

datatype 'a outcome =
    is_Returned: Returned 'a world
  | is_Transferred: Transferred world
  | is_Halted: Halted world

primrec final_world :: "'a outcome \<Rightarrow> world" where
  "final_world (Returned x w) = w"
| "final_world (Transferred w) = w"
| "final_world (Halted w) = w"

section \<open>Boot manager: image verification (secboot\_bootmanager.c)\<close>

definition BOOTLOADER_START_ADDR :: addr where "BOOTLOADER_START_ADDR = 0x0C000000"
definition ECC_PUBKEY_OFFSET :: addr where "ECC_PUBKEY_OFFSET = BOOTLOADER_START_ADDR + 0x8030"
definition FW_MAGIC_NUMBER :: u32 where "FW_MAGIC_NUMBER = 0xDEADBEEF"
definition FW_HASH_SIZE :: nat where "FW_HASH_SIZE = 32"
definition SECBOOT_BACKUP_IMAGE_ADDR :: addr where "SECBOOT_BACKUP_IMAGE_ADDR = 0x08073000"

datatype SECBOOT_BOOTMANAGER_StatusTypeDef =
    SECBOOT_BOOTMANAGER_OK
  | SECBOOT_BOOTMANAGER_ERROR
  | SECBOOT_BOOTMANAGER_INVALID_SIGNATURE
  | SECBOOT_BOOTMANAGER_INVALID_HASH
  | SECBOOT_BOOTMANAGER_INVALID_HEADER
  | SECBOOT_BOOTMANAGER_FLASH_ERROR
  | SECBOOT_BOOTMANAGER_INVALID_CRC
  | SECBOOT_BOOTMANAGER_DECRYPTION_ERROR
  | SECBOOT_BOOTMANAGER_VERSION_ROLLBACK
  | SECBOOT_BOOTMANAGER_SECURE_VIOLATION
  | SECBOOT_BOOTMANAGER_HW_SECURE_FAULT
  | SECBOOT_BOOTMANAGER_JUMP_FAILED

datatype SECBOOT_SHA_StatusTypeDef =
    SECBOOT_SHA256_OK
  | SECBOOT_SHA256_ERROR_INIT
  | SECBOOT_SHA256_ERROR_COMPUTE
  | SECBOOT_SHA256_ERROR_NULL_PTR
  | SECBOOT_SHA256_ERROR_INVALID_LENGTH
  | SECBOOT_SHA256_ERROR_TIMEOUT

datatype SECBOOT_ECDSA_StatusTypeDef =
    SECBOOT_ECDSA_OK
  | SECBOOT_ECDSA_ERROR
  | SECBOOT_ECDSA_INVALID_PARAM
  | SECBOOT_ECDSA_INVALID_STATE
  | SECBOOT_ECDSA_PKA_INIT_FAIL
  | SECBOOT_ECDSA_PKA_COMP_ERROR
  | SECBOOT_ECDSA_PKA_TIMEOUT
  | SECBOOT_ECDSA_VERIFICATION_SUCCESS
  | SECBOOT_ECDSA_VERIFICATION_FAIL
  | SECBOOT_ECDSA_INVALID_SIGNATURE
  | SECBOOT_ECDSA_INVALID_PUBKEY

text \<open>
  \<open>FirmwareHeader_TypeDef\<close> is a packed struct read in place at the image
  address: magicNumber at offset 0, imageSize at 4, version at 8, entryPoint at
  12, firmwareHash at 16 (32 bytes), signature at 48 (64 bytes), headerCRC at 112.
\<close>

definition hdr_magicNumber :: "memory \<Rightarrow> addr \<Rightarrow> u32" where
  "hdr_magicNumber m p = load32 m p"

definition hdr_imageSize :: "memory \<Rightarrow> addr \<Rightarrow> u32" where
  "hdr_imageSize m p = load32 m (p + 4)"

definition hdr_entryPoint :: "memory \<Rightarrow> addr \<Rightarrow> u32" where
  "hdr_entryPoint m p = load32 m (p + 12)"

definition hdr_firmwareHash :: "memory \<Rightarrow> addr \<Rightarrow> u8 list" where
  "hdr_firmwareHash m p = read_bytes m (p + 16) FW_HASH_SIZE"

definition hdr_signature :: "addr \<Rightarrow> addr" where
  "hdr_signature p = p + 48"

definition hdr_headerCRC :: "memory \<Rightarrow> addr \<Rightarrow> u32" where
  "hdr_headerCRC m p = load32 m (p + 112)"

text \<open>\<open>SECBOOT_SHA256_Compute\<close> (secboot\_sha256.c).  The output buffer is the
  caller's local array, so only the input pointer can be null.  The result is the
  status and the contents of the output buffer, which starts zeroed.\<close>

definition SECBOOT_SHA256_Compute ::
    "hal_env \<Rightarrow> memory \<Rightarrow> addr \<Rightarrow> u32 \<Rightarrow> SECBOOT_SHA_StatusTypeDef \<times> u8 list" where
  "SECBOOT_SHA256_Compute h m pInput inputLength =
     (if pInput = 0 then (SECBOOT_SHA256_ERROR_NULL_PTR, replicate FW_HASH_SIZE 0)
      else if inputLength = 0 then (SECBOOT_SHA256_ERROR_INVALID_LENGTH, replicate FW_HASH_SIZE 0)
      else let input = read_bytes m pInput (unat inputLength) in
        if sha256_start h input \<noteq> HAL_OK
        then (SECBOOT_SHA256_ERROR_COMPUTE, replicate FW_HASH_SIZE 0)
        else if fst (sha256_finish h input) \<noteq> HAL_OK
        then (SECBOOT_SHA256_ERROR_COMPUTE, snd (sha256_finish h input))
        else (SECBOOT_SHA256_OK, snd (sha256_finish h input)))"

text \<open>\<open>SECBOOT_ECDSA_Verify_Signature\<close> (secboot\_ecdsa.c).  The digest is a local
  array of the caller; the curve table of prime256v1 is static data, so
  \<open>get_prime256v1_curve\<close> is not null.\<close>

definition SECBOOT_ECDSA_SHA256_DIGEST_SIZE :: u32 where
  "SECBOOT_ECDSA_SHA256_DIGEST_SIZE = 32"

definition SECBOOT_ECDSA_Verify_Signature ::
    "hal_env \<Rightarrow> memory \<Rightarrow> u8 list \<Rightarrow> u32 \<Rightarrow> addr \<Rightarrow> addr \<Rightarrow> SECBOOT_ECDSA_StatusTypeDef" where
  "SECBOOT_ECDSA_Verify_Signature h m pDigest DigestLen pSignature pPubKey =
     (if pSignature = 0 \<or> pPubKey = 0 then SECBOOT_ECDSA_INVALID_PARAM
      else if DigestLen \<noteq> SECBOOT_ECDSA_SHA256_DIGEST_SIZE then SECBOOT_ECDSA_INVALID_PARAM
      else if \<not> pka_ready h then SECBOOT_ECDSA_INVALID_STATE
      else let hal_status =
                 pka_ecdsa_verif h pDigest
                   (read_bytes m pSignature 32) (read_bytes m (pSignature + 32) 32)
                   (read_bytes m pPubKey 32) (read_bytes m (pPubKey + 32) 32)
           in if fst hal_status \<noteq> HAL_OK
              then (if fst hal_status = HAL_TIMEOUT then SECBOOT_ECDSA_PKA_TIMEOUT
                    else SECBOOT_ECDSA_PKA_COMP_ERROR)
              else if snd hal_status then SECBOOT_ECDSA_VERIFICATION_SUCCESS
              else SECBOOT_ECDSA_VERIFICATION_FAIL)"

text \<open>\<open>SECBOOT_BootManager_VerifyAppSignature\<close>.  The three \<open>memset\<close> calls of
  its success path are made through \<open>pDigitApp\<close> (a local), \<open>public_key\<close>, which
  is \<open>ECC_PUBKEY_OFFSET\<close> itself, and \<open>signature\<close>, which points into the header.\<close>

definition SECBOOT_BootManager_VerifyAppSignature ::
    "hal_env \<Rightarrow> addr \<Rightarrow> world \<Rightarrow> SECBOOT_BOOTMANAGER_StatusTypeDef \<times> world" where
  "SECBOOT_BootManager_VerifyAppSignature h image_address w =
     (let w0 = log_call (VerifyAppSignature_call image_address) w;
          m = mem w0;
          pAppBinary = hdr_entryPoint m image_address
      in if hdr_magicNumber m image_address \<noteq> FW_MAGIC_NUMBER
         then (SECBOOT_BOOTMANAGER_INVALID_HEADER, w0)
         else
           let w1 = log_call (SHA256_Compute_call pAppBinary (hdr_imageSize m image_address)) w0;
               sha = SECBOOT_SHA256_Compute h m pAppBinary (hdr_imageSize m image_address);
               pDigitApp = snd sha
           in if fst sha \<noteq> SECBOOT_SHA256_OK then (SECBOOT_BOOTMANAGER_ERROR, w1)
              else if pDigitApp \<noteq> hdr_firmwareHash m image_address
              then (SECBOOT_BOOTMANAGER_INVALID_HASH, w1)
              else
                let public_key = ECC_PUBKEY_OFFSET;
                    signature = hdr_signature image_address;
                    w2 = log_call ECDSA_Verify_call w1
                in if SECBOOT_ECDSA_Verify_Signature h m pDigitApp (of_nat FW_HASH_SIZE)
                        signature public_key = SECBOOT_ECDSA_VERIFICATION_SUCCESS
                   then (SECBOOT_BOOTMANAGER_OK,
                         w2\<lparr>mem := memset (memset m public_key 0 64) signature 0 64\<rparr>)
                   else (SECBOOT_BOOTMANAGER_INVALID_SIGNATURE, w2))"

text \<open>\<open>SECBOOT_BootManager_JumpTo\<close>: the vector table and stack pointer
  registers are outside the state; what matters to the callers is whether the
  call of the non-secure reset handler comes back.\<close>

definition SECBOOT_BootManager_JumpTo ::
    "hal_env \<Rightarrow> addr \<Rightarrow> world \<Rightarrow> SECBOOT_BOOTMANAGER_StatusTypeDef outcome" where
  "SECBOOT_BootManager_JumpTo h jump_to_address w =
     (let w0 = log_call (JumpTo_call jump_to_address) w
      in if ns_reset_handler_returns h then Returned SECBOOT_BOOTMANAGER_JUMP_FAILED w0
         else Transferred w0)"

section \<open>Diagnostics: the event log and the responses (secboot\_diag.c)\<close>

definition SECBOOT_DIAG_LOG_BASE :: addr where "SECBOOT_DIAG_LOG_BASE = 0x0C00A000"
definition SECBOOT_DIAG_LOG_SIZE :: nat where "SECBOOT_DIAG_LOG_SIZE = 64"
definition SECBOOT_DIAG_MAX_LOGS :: u32 where "SECBOOT_DIAG_MAX_LOGS = 16"

datatype SECBOOT_Diag_TypeDef =
    SECBOOT_DIAG_OK
  | SECBOOT_DIAG_ERROR
  | SECBOOT_DIAG_INVALID_PARAM
  | SECBOOT_DIAG_FLASH_FAIL
  | SECBOOT_DIAG_TAMPERED

text \<open>\<open>SECBOOT_Diag_EventType\<close> and the failure codes are C enumerations whose
  numeric values are compared and stored: they are kept as numbers.\<close>

definition SECBOOT_DIAG_CRC_FAIL :: u32 where "SECBOOT_DIAG_CRC_FAIL = 0x10"
definition SECBOOT_DIAG_SIG_FAIL :: u32 where "SECBOOT_DIAG_SIG_FAIL = 0x20"
definition SECBOOT_DIAG_SECURE_VIOLATION :: u32 where "SECBOOT_DIAG_SECURE_VIOLATION = 0x30"
definition SECBOOT_DIAG_ROLLBACK_ATTEMPT :: u32 where "SECBOOT_DIAG_ROLLBACK_ATTEMPT = 0x40"

definition SIG_FAIL_MAIN_IMAGE :: u8 where "SIG_FAIL_MAIN_IMAGE = 0x20"
definition SIG_FAIL_BACKUP_IMAGE :: u8 where "SIG_FAIL_BACKUP_IMAGE = 0x21"
definition SIG_FAIL_CONFIG_SIGNATURE :: u8 where "SIG_FAIL_CONFIG_SIGNATURE = 0x22"
definition SIG_FAIL_KEY_EXPIRED :: u8 where "SIG_FAIL_KEY_EXPIRED = 0x23"
definition SIG_FAIL_HW_CRYPTO_ERROR :: u8 where "SIG_FAIL_HW_CRYPTO_ERROR = 0x24"
definition ROLLBACK_NORMAL_RECOVERY :: u8 where "ROLLBACK_NORMAL_RECOVERY = 0x40"
definition ROOLBACK_JUMP_FAILED :: u8 where "ROOLBACK_JUMP_FAILED = 0x45"

datatype SECBOOT_Diag_ResponseLevel =
    SECBOOT_DIAG_RESP_NONE
  | SECBOOT_DIAG_RESP_WARN
  | SECBOOT_DIAG_RESP_RECOVER
  | SECBOOT_DIAG_RESP_LOCKDOWN

datatype SECBOOT_CRC_StatusTypeDef =
    SECBOOT_CRC_OK
  | SECBOOT_CRC_ERROR
  | SECBOOT_CRC_INVALID_PARAM
  | SECBOOT_CRC_INIT_FAILED
  | SECBOOT_CRC_MISMATCH

text \<open>The casts \<^verbatim>\<open>(uint8_t)status\<close> and \<^verbatim>\<open>(uint32_t)status\<close> of the handlers.\<close>

primrec crc_status_code :: "SECBOOT_CRC_StatusTypeDef \<Rightarrow> u8" where
  "crc_status_code SECBOOT_CRC_OK = 0"
| "crc_status_code SECBOOT_CRC_ERROR = 1"
| "crc_status_code SECBOOT_CRC_INVALID_PARAM = 2"
| "crc_status_code SECBOOT_CRC_INIT_FAILED = 3"
| "crc_status_code SECBOOT_CRC_MISMATCH = 4"

primrec ecdsa_status_code :: "SECBOOT_ECDSA_StatusTypeDef \<Rightarrow> u32" where
  "ecdsa_status_code SECBOOT_ECDSA_OK = 0"
| "ecdsa_status_code SECBOOT_ECDSA_ERROR = 1"
| "ecdsa_status_code SECBOOT_ECDSA_INVALID_PARAM = 2"
| "ecdsa_status_code SECBOOT_ECDSA_INVALID_STATE = 3"
| "ecdsa_status_code SECBOOT_ECDSA_PKA_INIT_FAIL = 4"
| "ecdsa_status_code SECBOOT_ECDSA_PKA_COMP_ERROR = 5"
| "ecdsa_status_code SECBOOT_ECDSA_PKA_TIMEOUT = 6"
| "ecdsa_status_code SECBOOT_ECDSA_VERIFICATION_SUCCESS = 7"
| "ecdsa_status_code SECBOOT_ECDSA_VERIFICATION_FAIL = 8"
| "ecdsa_status_code SECBOOT_ECDSA_INVALID_SIGNATURE = 9"
| "ecdsa_status_code SECBOOT_ECDSA_INVALID_PUBKEY = 10"

text \<open>\<open>SECBOOT_CRC_Calculate\<close> (secboot\_crc.c): both pointers are those of local
  objects of the caller, so the parameter check passes.\<close>

definition SECBOOT_CRC_Calculate :: "hal_env \<Rightarrow> u8 list \<Rightarrow> SECBOOT_CRC_StatusTypeDef \<times> u32" where
  "SECBOOT_CRC_Calculate h pData = (SECBOOT_CRC_OK, crc_calculate h pData)"

text \<open>
  \<open>SECBOOT_Diag_LogEntry\<close>, with the layout of the wire format: timestamp at
  offset 0, event at 4 (a 32-bit enumeration), error\_code at 8, three padding
  bytes, context\_data at 12, crc at 16; \<open>sizeof\<close> is 20.
\<close>

record SECBOOT_Diag_LogEntry =
  timestamp :: u32
  event :: u32
  error_code :: u8
  context_data :: u32
  crc :: u32

text \<open>A C array of \<open>n\<close> elements whose contents the environment supplies.\<close>

definition array_of :: "nat \<Rightarrow> 'a::zero list \<Rightarrow> 'a list" where
  "array_of n xs = take n (xs @ replicate n 0)"

definition entry_bytes :: "hal_env \<Rightarrow> SECBOOT_Diag_LogEntry \<Rightarrow> u8 list" where
  "entry_bytes h e =
     bytes_of_u32 (timestamp e) @ bytes_of_u32 (event e) @ [error_code e]
       @ array_of 3 (entry_padding h) @ bytes_of_u32 (context_data e) @ bytes_of_u32 (crc e)"

definition sizeof_entry :: nat where "sizeof_entry = 20"
definition sizeof_crc :: nat where "sizeof_crc = 4"

definition entry_of_bytes :: "u8 list \<Rightarrow> SECBOOT_Diag_LogEntry" where
  "entry_of_bytes bs =
     \<lparr>timestamp = le32 (take 4 bs), event = le32 (take 4 (drop 4 bs)), error_code = bs ! 8,
      context_data = le32 (take 4 (drop 12 bs)), crc = le32 (take 4 (drop 16 bs))\<rparr>"

text \<open>The programming loop reads \<open>SECBOOT_DIAG_LOG_SIZE\<close> bytes through
  \<open>pData\<close>: the 20 bytes of the entry and the 44 bytes of stack behind it.\<close>

definition pData_bytes :: "hal_env \<Rightarrow> SECBOOT_Diag_LogEntry \<Rightarrow> u8 list" where
  "pData_bytes h e = entry_bytes h e @ array_of 44 (stack_after_entry h)"

function program_entry :: "hal_env \<Rightarrow> addr \<Rightarrow> u8 list \<Rightarrow> nat \<Rightarrow> memory \<Rightarrow> bool \<times> memory" where
  "program_entry h log_addr pData i m =
     (if i < SECBOOT_DIAG_LOG_SIZE div 8
      then let r = flash_program h m (log_addr + of_nat (i * 8)) (take 8 (drop (i * 8) pData))
           in if fst r \<noteq> HAL_OK then (False, snd r)
              else program_entry h log_addr pData (Suc i) (snd r)
      else (True, m))"
  by pat_completeness auto
termination
  by (relation "measure (\<lambda>(h, log_addr, pData, i, m). SECBOOT_DIAG_LOG_SIZE div 8 - i)") auto

declare program_entry.simps [simp del]

definition log_slot_addr :: "u32 \<Rightarrow> addr" where
  "log_slot_addr idx = SECBOOT_DIAG_LOG_BASE + idx * of_nat SECBOOT_DIAG_LOG_SIZE"

definition SECBOOT_Diag_LogEvent ::
    "hal_env \<Rightarrow> u32 \<Rightarrow> u8 \<Rightarrow> u32 \<Rightarrow> world \<Rightarrow> SECBOOT_Diag_TypeDef \<times> world" where
  "SECBOOT_Diag_LogEvent h ev code data w =
     (let w0 = log_call (LogEvent_call ev code data) w
      in if ev > SECBOOT_DIAG_ROLLBACK_ATTEMPT then (SECBOOT_DIAG_INVALID_PARAM, w0)
         else
           let tk = HAL_GetTick h w0;
               w1 = snd tk;
               entry = \<lparr>timestamp = fst tk, event = ev, error_code = code,
                        context_data = data, crc = 0\<rparr>;
               temp_crc = SECBOOT_CRC_Calculate h
                            (take (sizeof_entry - sizeof_crc) (entry_bytes h entry))
           in if fst temp_crc \<noteq> SECBOOT_CRC_OK then (SECBOOT_DIAG_ERROR, w1)
              else
                let log_addr = log_slot_addr (log_index w1)
                in if load32 (mem w1) log_addr \<noteq> 0xFFFFFFFF then (SECBOOT_DIAG_TAMPERED, w1)
                   else
                     let r = program_entry h log_addr (pData_bytes h entry) 0 (mem w1)
                     in if \<not> fst r then (SECBOOT_DIAG_ERROR, w1\<lparr>mem := snd r\<rparr>)
                        else
                          let w2 = w1\<lparr>mem := snd r,
                                     log_index := (log_index w1 + 1) mod SECBOOT_DIAG_MAX_LOGS\<rparr>;
                              written = read_bytes (mem w2) log_addr sizeof_entry;
                              written_entry = entry_of_bytes written;
                              verify_crc = SECBOOT_CRC_Calculate h
                                             (take (sizeof_entry - sizeof_crc) written)
                          in if fst verify_crc \<noteq> SECBOOT_CRC_OK then (SECBOOT_DIAG_ERROR, w2)
                             else if crc written_entry \<noteq> snd verify_crc
                             then (SECBOOT_DIAG_TAMPERED, w2)
                             else (SECBOOT_DIAG_OK, w2))"

text \<open>\<open>system_lockdown\<close> is \<^verbatim>\<open>while(1);\<close>.\<close>

definition system_lockdown :: "world \<Rightarrow> unit outcome" where
  "system_lockdown w = Halted (log_call Lockdown w)"

text \<open>\<open>SECBOOT_Diag_ExecuteResponse\<close> and \<open>try_recovery_from_backup\<close> call each
  other; the equations of the first follow the \<open>switch\<close>.\<close>

function SECBOOT_Diag_ExecuteResponse ::
    "hal_env \<Rightarrow> SECBOOT_Diag_ResponseLevel \<Rightarrow> world \<Rightarrow> unit outcome"
  and try_recovery_from_backup :: "hal_env \<Rightarrow> world \<Rightarrow> unit outcome" where
  "SECBOOT_Diag_ExecuteResponse h SECBOOT_DIAG_RESP_WARN w = Returned () w"
| "SECBOOT_Diag_ExecuteResponse h SECBOOT_DIAG_RESP_RECOVER w = try_recovery_from_backup h w"
| "SECBOOT_Diag_ExecuteResponse h SECBOOT_DIAG_RESP_LOCKDOWN w = system_lockdown w"
| "SECBOOT_Diag_ExecuteResponse h SECBOOT_DIAG_RESP_NONE w = Returned () w"
| "try_recovery_from_backup h w =
     (let tk = HAL_GetTick h w;
          w1 = snd (SECBOOT_Diag_LogEvent h SECBOOT_DIAG_ROLLBACK_ATTEMPT
                      ROLLBACK_NORMAL_RECOVERY (fst tk) (snd tk));
          v = SECBOOT_BootManager_VerifyAppSignature h SECBOOT_BACKUP_IMAGE_ADDR w1
      in if fst v \<noteq> SECBOOT_BOOTMANAGER_OK
         then
           let w2 = snd (SECBOOT_Diag_LogEvent h SECBOOT_DIAG_ROLLBACK_ATTEMPT
                           SIG_FAIL_BACKUP_IMAGE 0 (snd v))
           in SECBOOT_Diag_ExecuteResponse h SECBOOT_DIAG_RESP_LOCKDOWN w2
         else
           (case SECBOOT_BootManager_JumpTo h SECBOOT_BACKUP_IMAGE_ADDR (snd v) of
              Transferred w3 \<Rightarrow> Transferred w3
            | Halted w3 \<Rightarrow> Halted w3
            | Returned j w3 \<Rightarrow>
                let w4 = (if j \<noteq> SECBOOT_BOOTMANAGER_OK
                          then let tk2 = HAL_GetTick h w3
                               in snd (SECBOOT_Diag_LogEvent h SECBOOT_DIAG_ROLLBACK_ATTEMPT
                                         ROOLBACK_JUMP_FAILED (fst tk2) (snd tk2))
                          else w3)
                in (case SECBOOT_Diag_ExecuteResponse h SECBOOT_DIAG_RESP_LOCKDOWN w4 of
                      Returned u w5 \<Rightarrow> Halted w5
                    | Transferred w5 \<Rightarrow> Transferred w5
                    | Halted w5 \<Rightarrow> Halted w5)))"
  by pat_completeness auto
termination
  by (relation "measure (\<lambda>x. case x of
                   Inl (h, level, w) \<Rightarrow> (if level = SECBOOT_DIAG_RESP_RECOVER then 2 else 0)
                 | Inr (h, w) \<Rightarrow> 1)") auto

declare try_recovery_from_backup.simps [simp del]

definition response_for_crc :: "SECBOOT_CRC_StatusTypeDef \<Rightarrow> SECBOOT_Diag_ResponseLevel" where
  "response_for_crc status =
     (if status = SECBOOT_CRC_MISMATCH then SECBOOT_DIAG_RESP_RECOVER
      else if status = SECBOOT_CRC_INVALID_PARAM then SECBOOT_DIAG_RESP_WARN
      else SECBOOT_DIAG_RESP_LOCKDOWN)"

definition SECBOOT_Diag_HandleCrcFail ::
    "hal_env \<Rightarrow> SECBOOT_CRC_StatusTypeDef \<Rightarrow> world \<Rightarrow> SECBOOT_Diag_ResponseLevel outcome" where
  "SECBOOT_Diag_HandleCrcFail h status w =
     (let tk = HAL_GetTick h w;
          w1 = snd (SECBOOT_Diag_LogEvent h SECBOOT_DIAG_CRC_FAIL (crc_status_code status)
                      (fst tk) (snd tk));
          response = response_for_crc status
      in case SECBOOT_Diag_ExecuteResponse h response w1 of
           Returned u w2 \<Rightarrow> Returned response w2
         | Transferred w2 \<Rightarrow> Transferred w2
         | Halted w2 \<Rightarrow> Halted w2)"

text \<open>\<open>SECBOOT_Diag_HandleSigFail\<close>: the pair is \<open>(error_code, response)\<close> of the
  \<open>switch\<close>.\<close>

definition sig_fail_policy :: "SECBOOT_ECDSA_StatusTypeDef \<Rightarrow> u8 \<times> SECBOOT_Diag_ResponseLevel" where
  "sig_fail_policy status =
     (case status of
        SECBOOT_ECDSA_VERIFICATION_FAIL \<Rightarrow> (SIG_FAIL_MAIN_IMAGE, SECBOOT_DIAG_RESP_LOCKDOWN)
      | SECBOOT_ECDSA_INVALID_SIGNATURE \<Rightarrow> (SIG_FAIL_CONFIG_SIGNATURE, SECBOOT_DIAG_RESP_LOCKDOWN)
      | SECBOOT_ECDSA_INVALID_PUBKEY \<Rightarrow> (SIG_FAIL_KEY_EXPIRED, SECBOOT_DIAG_RESP_LOCKDOWN)
      | SECBOOT_ECDSA_PKA_TIMEOUT \<Rightarrow> (SIG_FAIL_HW_CRYPTO_ERROR, SECBOOT_DIAG_RESP_RECOVER)
      | SECBOOT_ECDSA_PKA_COMP_ERROR \<Rightarrow> (SIG_FAIL_HW_CRYPTO_ERROR, SECBOOT_DIAG_RESP_RECOVER)
      | _ \<Rightarrow> (0x2F, SECBOOT_DIAG_RESP_LOCKDOWN))"

definition SECBOOT_Diag_HandleSigFail ::
    "hal_env \<Rightarrow> SECBOOT_ECDSA_StatusTypeDef \<Rightarrow> world \<Rightarrow> SECBOOT_Diag_ResponseLevel outcome" where
  "SECBOOT_Diag_HandleSigFail h status w =
     (let w1 = snd (SECBOOT_Diag_LogEvent h SECBOOT_DIAG_SIG_FAIL (fst (sig_fail_policy status))
                      (ecdsa_status_code status) w);
          response = snd (sig_fail_policy status)
      in case SECBOOT_Diag_ExecuteResponse h response w1 of
           Returned u w2 \<Rightarrow> Returned response w2
         | Transferred w2 \<Rightarrow> Transferred w2
         | Halted w2 \<Rightarrow> Halted w2)"

section \<open>Key unwrap: \<open>get_AES_key\<close> (secboot\_bootmanager.c, secboot\_aes.c)\<close>

definition AES_KEY_OFFSET :: addr where "AES_KEY_OFFSET = BOOTLOADER_START_ADDR + 0x8000"
definition AES_KEY_SIZE :: nat where "AES_KEY_SIZE = 32"
definition AES_IV_OFFSET :: addr where "AES_IV_OFFSET = BOOTLOADER_START_ADDR + 0x8020"
definition AES_IV_SIZE :: nat where "AES_IV_SIZE = 16"
definition KEY_WORD_SIZE :: nat where "KEY_WORD_SIZE = 4"
definition IV_WORD_SIZE :: nat where "IV_WORD_SIZE = 4"
definition sizeof_uint32 :: nat where "sizeof_uint32 = 4"

datatype SECBOOT_AES_StatusTypeDef =
    SECBOOT_AES_OK
  | SECBOOT_AES_ERROR
  | SECBOOT_AES_INVALID_PARAM
  | SECBOOT_AES_PADDING_ERROR

text \<open>The device identity, the CRYP peripheral and the stack words that lie
  behind the local array \<open>Aes_key\<close> are supplied by the environment.\<close>

record cryp_env =
  uid_w0 :: u32
  uid_w1 :: u32
  uid_w2 :: u32
  cryp_init :: HAL_StatusTypeDef
    \<comment> \<open>\<open>HAL_CRYP_Init\<close>\<close>
  cryp_decrypt :: "u32 list \<Rightarrow> u32 list \<Rightarrow> u32 list \<Rightarrow> HAL_StatusTypeDef \<times> u32 list"
    \<comment> \<open>\<open>HAL_CRYP_Decrypt\<close> with the context's key and IV on the ciphertext words\<close>
  cryp_deinit :: HAL_StatusTypeDef
    \<comment> \<open>\<open>HAL_CRYP_DeInit\<close>\<close>
  stack_after_Aes_key :: "u32 list"
    \<comment> \<open>the 4 words that follow \<open>Aes_key[KEY_WORD_SIZE]\<close> on the stack\<close>

record SECBOOT_AES_Context =
  ctx_key :: "u32 list"
  ctx_iv :: "u32 list"

record AES_Secrets_TypeDef =
  AES_key :: "u32 list"
  AES_iv :: "u32 list"

primrec read_words :: "memory \<Rightarrow> addr \<Rightarrow> nat \<Rightarrow> u32 list" where
  "read_words m a 0 = []"
| "read_words m a (Suc n) = load32 m a # read_words m (a + 4) n"

text \<open>\<open>uint32_to_bytes_be\<close> and \<open>bytes_to_uint32_be\<close>.\<close>

primrec uint32_to_bytes_be :: "u32 list \<Rightarrow> u8 list" where
  "uint32_to_bytes_be [] = []"
| "uint32_to_bytes_be (x # xs) =
     [ucast (drop_bit 24 x), ucast (drop_bit 16 x), ucast (drop_bit 8 x), ucast x]
       @ uint32_to_bytes_be xs"

definition be32 :: "u8 list \<Rightarrow> nat \<Rightarrow> u32" where
  "be32 input i = push_bit 24 (ucast (input ! (4 * i + 0))) OR push_bit 16 (ucast (input ! (4 * i + 1)))
                    OR push_bit 8 (ucast (input ! (4 * i + 2))) OR ucast (input ! (4 * i + 3))"

function bytes_to_uint32_be :: "u8 list \<Rightarrow> nat \<Rightarrow> nat \<Rightarrow> u32 list \<Rightarrow> u32 list" where
  "bytes_to_uint32_be input input_len i output =
     (if i < input_len div 4
      then bytes_to_uint32_be input input_len (Suc i) (output[i := be32 input i])
      else output)"
  by pat_completeness auto
termination
  by (relation "measure (\<lambda>(input, input_len, i, output). input_len div 4 - i)") auto

declare bytes_to_uint32_be.simps [simp del]

definition SECBOOT_AES_Init ::
    "cryp_env \<Rightarrow> SECBOOT_AES_Context \<Rightarrow> u32 list \<Rightarrow> u32 list
       \<Rightarrow> SECBOOT_AES_StatusTypeDef \<times> SECBOOT_AES_Context" where
  "SECBOOT_AES_Init c ctx key iv =
     (let ctx1 = ctx\<lparr>ctx_iv := take IV_WORD_SIZE iv\<rparr>;
          ctx2 = ctx1\<lparr>ctx_key := take KEY_WORD_SIZE key\<rparr>
      in if cryp_init c \<noteq> HAL_OK then (SECBOOT_AES_ERROR, ctx2) else (SECBOOT_AES_OK, ctx2))"

definition SECBOOT_AES_DeInit ::
    "cryp_env \<Rightarrow> SECBOOT_AES_Context \<Rightarrow> SECBOOT_AES_StatusTypeDef \<times> SECBOOT_AES_Context" where
  "SECBOOT_AES_DeInit c ctx =
     (if cryp_deinit c \<noteq> HAL_OK then (SECBOOT_AES_ERROR, ctx)
      else (SECBOOT_AES_OK,
            \<lparr>ctx_key = replicate KEY_WORD_SIZE 0, ctx_iv = replicate IV_WORD_SIZE 0\<rparr>))"

text \<open>\<open>SECBOOT_AES_Decrypt\<close>: status, the bytes copied to \<open>plaintext\<close> and
  \<open>*plaintext_len\<close>; nothing is copied on a failure.\<close>

definition SECBOOT_AES_Decrypt ::
    "cryp_env \<Rightarrow> memory \<Rightarrow> SECBOOT_AES_Context \<Rightarrow> addr \<Rightarrow> nat
       \<Rightarrow> SECBOOT_AES_StatusTypeDef \<times> u8 list \<times> nat" where
  "SECBOOT_AES_Decrypt c m ctx ciphertext ciphertext_len =
     (let r = cryp_decrypt c (ctx_key ctx) (ctx_iv ctx) (read_words m ciphertext ciphertext_len)
      in if fst r \<noteq> HAL_OK then (SECBOOT_AES_ERROR, [], 0)
         else
           let plaintextPadded_bytes = uint32_to_bytes_be (array_of ciphertext_len (snd r));
               u = PKCS7_Unpad plaintextPadded_bytes (ciphertext_len * 4)
           in if fst u \<noteq> PKCS7_UNPAD_OK then (SECBOOT_AES_PADDING_ERROR, [], 0)
              else (SECBOOT_AES_OK, fst (snd u), snd (snd u)))"

text \<open>
  The locals of \<open>get_AES_key\<close>.  \<open>Aes_key\<close> is declared with \<open>KEY_WORD_SIZE = 4\<close>
  words, but the conversion writes up to 7 words through it and the validity
  loop reads \<open>AES_KEY_SIZE / sizeof(uint32_t) = 8\<close> words: the field \<open>Aes_key\<close>
  holds the 8 words at that address, the array and the 4 stack words behind it.
\<close>

record key_locals =
  AES_ctx :: SECBOOT_AES_Context
  Aes_key :: "u32 list"
  Aes_iv :: "u32 list"
  temp_key :: "u32 list"
  temp_iv :: "u32 list"
  decrypted_key :: "u8 list"

text \<open>The validity loop: \<open>True\<close> is \<^verbatim>\<open>valid_key = true; break;\<close>.\<close>

function key_valid_loop :: "u32 list \<Rightarrow> nat \<Rightarrow> bool" where
  "key_valid_loop key i =
     (if i < AES_KEY_SIZE div sizeof_uint32
      then (if key ! i \<noteq> 0x00000000 \<and> key ! i \<noteq> 0xFFFFFFFF then True
            else key_valid_loop key (Suc i))
      else False)"
  by pat_completeness auto
termination
  by (relation "measure (\<lambda>(key, i). AES_KEY_SIZE div sizeof_uint32 - i)") auto

declare key_valid_loop.simps [simp del]

text \<open>The cleanup loops \<^verbatim>\<open>for (i = 0; i < n; i++) buf[i] = 0;\<close>.\<close>

function zero_loop :: "'a::zero list \<Rightarrow> nat \<Rightarrow> nat \<Rightarrow> 'a list" where
  "zero_loop buf i n = (if i < n then zero_loop (buf[i := 0]) (Suc i) n else buf)"
  by pat_completeness auto
termination
  by (relation "measure (\<lambda>(buf, i, n). n - i)") auto

declare zero_loop.simps [simp del]

text \<open>Steps 3 to 5: the nested \<open>if\<close>s that set \<open>status\<close>.\<close>

definition unwrap_steps ::
    "cryp_env \<Rightarrow> memory \<Rightarrow> key_locals \<Rightarrow> SECBOOT_AES_StatusTypeDef \<times> key_locals" where
  "unwrap_steps c m l =
     (let i = SECBOOT_AES_Init c (AES_ctx l) (temp_key l) (temp_iv l);
          l1 = l\<lparr>AES_ctx := snd i\<rparr>
      in if fst i = SECBOOT_AES_OK
         then
           let d = SECBOOT_AES_Decrypt c m (AES_ctx l1) AES_KEY_OFFSET (AES_KEY_SIZE div sizeof_uint32);
               decrypted_key_len = snd (snd d)
           in if fst d = SECBOOT_AES_OK
              then
                let l2 = l1\<lparr>decrypted_key :=
                               fst (snd d) @ drop decrypted_key_len (decrypted_key l1)\<rparr>;
                    l3 = l2\<lparr>Aes_key :=
                               bytes_to_uint32_be (decrypted_key l2) decrypted_key_len 0 (Aes_key l2)\<rparr>;
                    valid_key = key_valid_loop (Aes_key l3) 0
                in (if valid_key then SECBOOT_AES_OK else SECBOOT_AES_ERROR, l3)
              else (SECBOOT_AES_ERROR, l1)
         else (SECBOOT_AES_ERROR, l1))"

text \<open>\<open>get_AES_key\<close>: the status, the locals as they are when the function
  returns, and what it stored through \<open>AES_secret\<close>.\<close>

definition get_AES_key ::
    "cryp_env \<Rightarrow> memory \<Rightarrow> SECBOOT_AES_StatusTypeDef \<times> key_locals \<times> AES_Secrets_TypeDef" where
  "get_AES_key c m =
     (let l0 = \<lparr>AES_ctx = \<lparr>ctx_key = replicate KEY_WORD_SIZE 0, ctx_iv = replicate IV_WORD_SIZE 0\<rparr>,
                Aes_key = replicate KEY_WORD_SIZE 0 @ array_of 4 (stack_after_Aes_key c),
                Aes_iv = replicate AES_IV_SIZE 0,
                temp_key = replicate 4 0,
                temp_iv = replicate (AES_IV_SIZE div sizeof_uint32) 0,
                decrypted_key = replicate AES_KEY_SIZE 0\<rparr>;
          l1 = l0\<lparr>temp_key := (temp_key l0)[0 := uid_w0 c, 1 := uid_w1 c, 2 := uid_w2 c,
                                               3 := FW_MAGIC_NUMBER]\<rparr>;
          l2 = l1\<lparr>temp_iv := read_words m AES_IV_OFFSET (AES_IV_SIZE div 4)\<rparr>;
          l3 = l2\<lparr>Aes_iv := read_words m AES_IV_OFFSET (AES_IV_SIZE div 4)
                               @ drop (AES_IV_SIZE div 4) (Aes_iv l2)\<rparr>;
          s = unwrap_steps c m l3;
          l4 = snd s;
          l5 = l4\<lparr>temp_key := zero_loop (temp_key l4) 0 4\<rparr>;
          l6 = l5\<lparr>temp_iv := zero_loop (temp_iv l5) 0 (AES_IV_SIZE div sizeof_uint32)\<rparr>;
          l7 = l6\<lparr>decrypted_key := zero_loop (decrypted_key l6) 0 AES_KEY_SIZE\<rparr>;
          secret = \<lparr>AES_key = take (AES_IV_SIZE div 4) (Aes_key l7),
                    AES_iv = take (AES_IV_SIZE div 4) (Aes_iv l7)\<rparr>;
          d = SECBOOT_AES_DeInit c (AES_ctx l7);
          l8 = l7\<lparr>AES_ctx := snd d\<rparr>
      in (if fst d \<noteq> SECBOOT_AES_OK then SECBOOT_AES_ERROR else fst s, l8, secret))"

section \<open>Rollback protection\<close>

text \<open>
  Modelled from the spec: the lexicographic comparison of two 4-byte versions,
  major byte first.  \<open>version_compare\<close> walks the four bytes and stops at the
  first that differs.  (No source file defines the rollback check; see below.)
\<close>

datatype ordering = Lower | Equal | Higher

function version_compare :: "u8 list \<Rightarrow> u8 list \<Rightarrow> nat \<Rightarrow> ordering" where
  "version_compare candidate current i =
     (if i < 4
      then (if candidate ! i < current ! i then Lower
            else if candidate ! i > current ! i then Higher
            else version_compare candidate current (Suc i))
      else Equal)"
  by pat_completeness auto
termination
  by (relation "measure (\<lambda>(candidate, current, i). 4 - i)") auto

declare version_compare.simps [simp del]

text \<open>
  Modelled from the spec: \<open>SECBOOT_BootManager_CheckRollbackProtection\<close> is
  declared in secboot\_bootmanager.h, and no source file defines it.  The
  specification gives it as the lexicographic comparison of the two versions: a
  candidate that is lower than or equal to the current version is answered with
  \<open>VERSION_ROLLBACK\<close>, any other with \<open>OK\<close>.
\<close>

definition SECBOOT_BootManager_CheckRollbackProtection ::
    "u8 \<times> u8 \<times> u8 \<times> u8 \<Rightarrow> u8 \<times> u8 \<times> u8 \<times> u8 \<Rightarrow> SECBOOT_BOOTMANAGER_StatusTypeDef" where
  "SECBOOT_BootManager_CheckRollbackProtection currentVersion newVersion =
     (case currentVersion of (a, b, c, d) \<Rightarrow>
      case newVersion of (a', b', c', d') \<Rightarrow>
        if version_compare [a', b', c', d'] [a, b, c, d] 0 = Higher
        then SECBOOT_BOOTMANAGER_OK
        else SECBOOT_BOOTMANAGER_VERSION_ROLLBACK)"

section \<open>Observations used in the statements\<close>

text \<open>The calls made between two states.\<close>

definition new_calls :: "world \<Rightarrow> world \<Rightarrow> call list" where
  "new_calls w w' = drop (length (trace w)) (trace w')"

text \<open>The payload an image header designates, and the addresses of the four
  bytes of its headerCRC field.\<close>

definition payload :: "memory \<Rightarrow> addr \<Rightarrow> u8 list" where
  "payload m p = read_bytes m (hdr_entryPoint m p) (unat (hdr_imageSize m p))"

definition headerCRC_bytes :: "addr \<Rightarrow> addr set" where
  "headerCRC_bytes p = {p + 112, p + 113, p + 114, p + 115}"

text \<open>The entry that \<open>SECBOOT_Diag_LogEvent\<close> prepares in its step 2 when called
  in state \<open>w\<close>, and the slot it then addresses.\<close>

definition prepared_entry :: "hal_env \<Rightarrow> u32 \<Rightarrow> u8 \<Rightarrow> u32 \<Rightarrow> world \<Rightarrow> SECBOOT_Diag_LogEntry" where
  "prepared_entry h ev code data w =
     \<lparr>timestamp = tick_src h (ticks w), event = ev, error_code = code,
      context_data = data, crc = 0\<rparr>"

definition next_slot :: "world \<Rightarrow> addr" where
  "next_slot w = log_slot_addr (log_index w)"

text \<open>The entry stored in a slot, and the CRC recomputed over the fields that
  precede its \<open>crc\<close> field.\<close>

definition stored_entry :: "memory \<Rightarrow> addr \<Rightarrow> SECBOOT_Diag_LogEntry" where
  "stored_entry m slot = entry_of_bytes (read_bytes m slot sizeof_entry)"

definition recomputed_crc :: "hal_env \<Rightarrow> memory \<Rightarrow> addr \<Rightarrow> u32" where
  "recomputed_crc h m slot = crc_calculate h (read_bytes m slot (sizeof_entry - sizeof_crc))"

text \<open>The state after the call has been recorded and \<open>HAL_GetTick\<close> has been read.\<close>

definition after_tick :: "u32 \<Rightarrow> u8 \<Rightarrow> u32 \<Rightarrow> world \<Rightarrow> world" where
  "after_tick ev code data w =
     w\<lparr>ticks := Suc (ticks w), trace := trace w @ [LogEvent_call ev code data]\<rparr>"

text \<open>Calls of \<open>SECBOOT_BootManager_VerifyAppSignature\<close>, and the calls it makes
  itself; \<open>top_level\<close> drops the latter from a list of calls.\<close>

primrec is_verify_call :: "call \<Rightarrow> bool" where
  "is_verify_call (LogEvent_call ev code data) = False"
| "is_verify_call (VerifyAppSignature_call a) = True"
| "is_verify_call (SHA256_Compute_call a n) = False"
| "is_verify_call ECDSA_Verify_call = False"
| "is_verify_call (JumpTo_call a) = False"
| "is_verify_call Lockdown = False"

primrec is_inner_call :: "call \<Rightarrow> bool" where
  "is_inner_call (LogEvent_call ev code data) = False"
| "is_inner_call (VerifyAppSignature_call a) = False"
| "is_inner_call (SHA256_Compute_call a n) = True"
| "is_inner_call ECDSA_Verify_call = True"
| "is_inner_call (JumpTo_call a) = False"
| "is_inner_call Lockdown = False"

definition top_level :: "call list \<Rightarrow> call list" where
  "top_level cs = filter (\<lambda>c. \<not> is_inner_call c) cs"

text \<open>The state in which \<open>try_recovery_from_backup\<close> calls the verification of
  the backup slot, when \<open>SECBOOT_Diag_HandleCrcFail\<close> was entered in state \<open>w\<close>:
  the failure and the recovery attempt have been logged.\<close>

definition recovery_state :: "hal_env \<Rightarrow> SECBOOT_CRC_StatusTypeDef \<Rightarrow> world \<Rightarrow> world" where
  "recovery_state h status w =
     (let tk = HAL_GetTick h w;
          w1 = snd (SECBOOT_Diag_LogEvent h SECBOOT_DIAG_CRC_FAIL (crc_status_code status)
                      (fst tk) (snd tk));
          tk2 = HAL_GetTick h w1
      in snd (SECBOOT_Diag_LogEvent h SECBOOT_DIAG_ROLLBACK_ATTEMPT ROLLBACK_NORMAL_RECOVERY
                (fst tk2) (snd tk2)))"

text \<open>The verification of the backup slot made in the episode, and the entry
  that the failure branch of \<open>try_recovery_from_backup\<close> then hands to
  \<open>SECBOOT_Diag_LogEvent\<close>.\<close>

definition backup_verification ::
    "hal_env \<Rightarrow> world \<Rightarrow> SECBOOT_BOOTMANAGER_StatusTypeDef \<times> world" where
  "backup_verification h w =
     SECBOOT_BootManager_VerifyAppSignature h SECBOOT_BACKUP_IMAGE_ADDR
       (recovery_state h SECBOOT_CRC_MISMATCH w)"

definition backup_failure_entry :: "hal_env \<Rightarrow> world \<Rightarrow> SECBOOT_Diag_LogEntry" where
  "backup_failure_entry h w =
     prepared_entry h SECBOOT_DIAG_ROLLBACK_ATTEMPT SIG_FAIL_BACKUP_IMAGE 0
       (snd (backup_verification h w))"

text \<open>The flash takes entry \<open>e\<close> in state \<open>w\<close>: the first word of the next slot
  reads erased, the eight programming calls succeed, and the entry reads back
  as it was written.\<close>

definition flash_takes_entry :: "hal_env \<Rightarrow> SECBOOT_Diag_LogEntry \<Rightarrow> world \<Rightarrow> bool" where
  "flash_takes_entry h e w =
     (load32 (mem w) (next_slot w) = 0xFFFFFFFF \<and>
      fst (program_entry h (next_slot w) (pData_bytes h e) 0 (mem w)) \<and>
      read_bytes (snd (program_entry h (next_slot w) (pData_bytes h e) 0 (mem w)))
        (next_slot w) sizeof_entry = entry_bytes h e)"

text \<open>The entry that \<open>SECBOOT_Diag_HandleCrcFail\<close>, entered in state \<open>w\<close> with
  \<open>MISMATCH\<close>, hands to \<open>SECBOOT_Diag_LogEvent\<close> first.\<close>

definition crc_failure_entry :: "hal_env \<Rightarrow> world \<Rightarrow> SECBOOT_Diag_LogEntry" where
  "crc_failure_entry h w =
     prepared_entry h SECBOOT_DIAG_CRC_FAIL (crc_status_code SECBOOT_CRC_MISMATCH)
       (fst (HAL_GetTick h w)) (snd (HAL_GetTick h w))"
section \<open>Concrete environments and states\<close>

text \<open>
  Inputs on which the functions are run.  In \<open>zero_key_env\<close> the CRYP
  peripheral decrypts the wrapped key to 16 zero bytes followed by a full block
  of PKCS7 padding, and the four stack words behind \<open>Aes_key\<close> hold other data.
\<close>

definition zero_key_env :: cryp_env where
  "zero_key_env =
     \<lparr>uid_w0 = 0x11111111, uid_w1 = 0x22222222, uid_w2 = 0x33333333,
      cryp_init = HAL_OK,
      cryp_decrypt = (\<lambda>key iv ciphertext.
         (HAL_OK, [0, 0, 0, 0, 0x10101010, 0x10101010, 0x10101010, 0x10101010])),
      cryp_deinit = HAL_OK,
      stack_after_Aes_key = [0x01020304, 0x05060708, 0x090A0B0C, 0x0D0E0F10]\<rparr>"

definition erased_memory :: memory where
  "erased_memory = (\<lambda>a. 0xFF)"

text \<open>
  \<open>sim_hal\<close> stands in for the peripherals: the tick counts up from 100; the CRC
  unit answers with a non-zero value; a double word of flash can be programmed
  when it reads erased, and is rejected with \<open>HAL_ERROR\<close> otherwise; the hash
  unit's digest is 32 copies of the bitwise AND of the input bytes; the PKA
  accepts a signature whose R equals the digest and whose S equals Qx; the
  non-secure reset handler does not return.
\<close>

definition sim_flash_program :: "memory \<Rightarrow> addr \<Rightarrow> u8 list \<Rightarrow> HAL_StatusTypeDef \<times> memory" where
  "sim_flash_program m a bs =
     (if read_bytes m a 8 = replicate 8 0xFF then (HAL_OK, write_bytes m a bs)
      else (HAL_ERROR, m))"

definition sim_digest :: "u8 list \<Rightarrow> u8 list" where
  "sim_digest input = replicate 32 (foldr (AND) input 0xFF)"

definition sim_hal :: hal_env where
  "sim_hal =
     \<lparr>tick_src = (\<lambda>k. 100 + of_nat k),
      crc_calculate = (\<lambda>bs. 0xC0FFEE00 + of_nat (length bs)),
      flash_program = sim_flash_program,
      sha256_start = (\<lambda>input. HAL_OK),
      sha256_finish = (\<lambda>input. (HAL_OK, sim_digest input)),
      pka_ready = True,
      pka_ecdsa_verif = (\<lambda>digest r s qx qy. (HAL_OK, r = digest \<and> s = qx)),
      ns_reset_handler_returns = False,
      entry_padding = [0, 0, 0],
      stack_after_entry = replicate 44 0\<rparr>"

definition world_of :: "memory \<Rightarrow> world" where
  "world_of m = \<lparr>mem = m, log_index = 0, ticks = 0, trace = []\<rparr>"

text \<open>An image in the backup slot of otherwise erased flash: the magic number,
  \<open>imageSize = 4\<close> and \<open>entryPoint = 0x08073100\<close>; its hash, signature and
  headerCRC fields read erased, and so does the stored public key.\<close>

definition backup_image :: memory where
  "backup_image =
     write_bytes
       (write_bytes erased_memory SECBOOT_BACKUP_IMAGE_ADDR
          [0xEF, 0xBE, 0xAD, 0xDE, 0x04, 0x00, 0x00, 0x00])
       (SECBOOT_BACKUP_IMAGE_ADDR + 12) [0x00, 0x31, 0x07, 0x08]"

text \<open>The same image with another value in its headerCRC field.\<close>

definition backup_image_crc0 :: memory where
  "backup_image_crc0 =
     write_bytes backup_image (SECBOOT_BACKUP_IMAGE_ADDR + 112) [0x00, 0x00, 0x00, 0x00]"

text \<open>The same image with \<open>imageSize = 0\<close>.\<close>

definition backup_image_size0 :: memory where
  "backup_image_size0 =
     write_bytes backup_image (SECBOOT_BACKUP_IMAGE_ADDR + 4) [0x00, 0x00, 0x00, 0x00]"

text \<open>Erased flash in which one byte of the first log slot, at offset 8, has
  been written.\<close>

definition partly_written_slot :: memory where
  "partly_written_slot = erased_memory(SECBOOT_DIAG_LOG_BASE + 8 := 0x00)"

text \<open>Erased flash in which the first byte of the first log slot has been
  written.\<close>

definition used_slot :: memory where
  "used_slot = erased_memory(SECBOOT_DIAG_LOG_BASE := 0x64)"

text \<open>Flash that reads zero everywhere: no image in the backup slot, no erased
  log slot.\<close>

definition zero_memory :: memory where
  "zero_memory = (\<lambda>a. 0)"

text \<open>The backup image, with the first byte of the first log slot written.\<close>

definition backup_image_used_log :: memory where
  "backup_image_used_log = backup_image(SECBOOT_DIAG_LOG_BASE := 0x64)"

section \<open>PKCS7: padding then unpadding\<close>

lemma pad_loop_replicate:
  "i \<le> unat p \<Longrightarrow> pad_loop i p out = out @ replicate (unat p - i) p"
proof (induction i p out rule: pad_loop.induct)
  case (1 i p out)
  show ?case
  proof (cases "i < unat p")
    case True
    then have "pad_loop i p out = pad_loop (Suc i) p (out @ [p])"
      by (simp add: pad_loop.simps)
    also have "\<dots> = (out @ [p]) @ replicate (unat p - Suc i) p"
      using True 1 by simp
    also have "\<dots> = out @ replicate (unat p - i) p"
      using True by (simp add: Suc_diff_Suc replicate_append_same flip: replicate_Suc)
    finally show ?thesis .
  next
    case False
    then show ?thesis using 1 by (simp add: pad_loop.simps)
  qed
qed

lemma unpad_loop_True:
  "(\<forall>j. i \<le> j \<and> j < unat p \<longrightarrow> xs ! (n - 1 - j) = p) \<Longrightarrow> unpad_loop i p xs n"
proof (induction i p xs n rule: unpad_loop.induct)
  case (1 i p xs n)
  show ?case
  proof (cases "i < unat p")
    case True
    then have "xs ! (n - 1 - i) = p" using 1 by simp
    moreover have "unpad_loop (Suc i) p xs n" using 1 True by simp
    ultimately show ?thesis using True by (simp add: unpad_loop.simps)
  next
    case False
    then show ?thesis by (simp add: unpad_loop.simps)
  qed
qed

lemma unat_of_nat_u8: "m \<le> 16 \<Longrightarrow> unat (of_nat m :: u8) = m"
  by (simp add: unat_of_nat take_bit_nat_eq_self)

lemma PKCS7_Pad_eq:
  "PKCS7_Pad xs =
     (PKCS7_PAD_OK,
      xs @ replicate (16 - length xs mod 16) (of_nat (16 - length xs mod 16)),
      length xs + (16 - length xs mod 16))"
proof -
  define k where "k = 16 - length xs mod 16"
  have "k \<le> 16" by (simp add: k_def)
  then have "unat (of_nat k :: u8) = k" by (rule unat_of_nat_u8)
  then show ?thesis
    unfolding PKCS7_Pad_def Let_def AES_BLOCK_SIZE_def k_def [symmetric]
    by (simp add: pad_loop_replicate)
qed

text \<open>
  C10.  For every byte sequence \<open>xs\<close>, \<open>PKCS7_Pad\<close> returns \<open>PKCS7_PAD_OK\<close>, and
  \<open>PKCS7_Unpad\<close> applied to the padded buffer and the padded length returns
  \<open>PKCS7_UNPAD_OK\<close> together with exactly \<open>xs\<close> and its length.
\<close>

theorem pkcs7_pad_unpad_roundtrip:
  "fst (PKCS7_Pad xs) = PKCS7_PAD_OK \<and>
   PKCS7_Unpad (fst (snd (PKCS7_Pad xs))) (snd (snd (PKCS7_Pad xs)))
     = (PKCS7_UNPAD_OK, xs, length xs)"
proof -
  define k where "k = 16 - length xs mod 16"
  define p where "p = (of_nat k :: u8)"
  define ys where "ys = xs @ replicate k p"
  define n where "n = length xs + k"
  have k: "0 < k" "k \<le> 16" by (simp_all add: k_def)
  have up: "unat p = k"
    using k by (simp add: p_def unat_of_nat take_bit_nat_eq_self)
  have pad: "PKCS7_Pad xs = (PKCS7_PAD_OK, ys, n)"
    by (simp add: PKCS7_Pad_eq ys_def n_def p_def k_def)
  have n16: "n mod 16 = 0"
    unfolding n_def k_def by presburger
  have n0: "n \<noteq> 0" using k by (simp add: n_def)
  have nth: "ys ! (n - 1 - j) = p" if "j < k" for j
  proof -
    have "n - 1 - j \<ge> length xs" "n - 1 - j - length xs < k"
      using that k by (simp_all add: n_def)
    then show ?thesis by (simp add: ys_def nth_append)
  qed
  have last: "ys ! (n - 1) = p" using nth [of 0] k by simp
  have p0: "p \<noteq> 0" using up k by (metis less_numeral_extra(3) unat_0)
  have loop: "unpad_loop 0 p ys n"
  proof (rule unpad_loop_True, intro allI impI)
    fix j assume "0 \<le> j \<and> j < unat p"
    then show "ys ! (n - 1 - j) = p" using nth [of j] up by simp
  qed
  have tk: "take (n - k) ys = xs" by (simp add: ys_def n_def)
  have "PKCS7_Unpad ys n = (PKCS7_UNPAD_OK, xs, length xs)"
    using n16 n0 last p0 loop up k tk
    by (simp add: PKCS7_Unpad_def AES_BLOCK_SIZE_def Let_def n_def)
  then show ?thesis by (simp add: pad)
qed

section \<open>Rollback protection is the lexicographic order\<close>

lemma version_compare_end: "version_compare x y (Suc (Suc (Suc (Suc 0)))) = Equal"
  by (subst version_compare.simps) simp

lemma version_compare_step:
  "i < 4 \<Longrightarrow> version_compare x y i =
     (if x ! i < y ! i then Lower else if y ! i < x ! i then Higher
      else version_compare x y (Suc i))"
  by (subst version_compare.simps) simp

lemma version_compare_4:
  "version_compare [a', b', c', d'] [a, b, c, d] 0 =
     (if a' < a then Lower else if a < a' then Higher
      else if b' < b then Lower else if b < b' then Higher
      else if c' < c then Lower else if c < c' then Higher
      else if d' < d then Lower else if d < d' then Higher else Equal)"
proof -
  let ?x = "[a', b', c', d']" and ?y = "[a, b, c, d]"
  have v3: "version_compare ?x ?y (Suc (Suc (Suc 0))) =
              (if d' < d then Lower else if d < d' then Higher else Equal)"
    by (simp add: version_compare_step [of "Suc (Suc (Suc 0))"] version_compare_end)
  have v2: "version_compare ?x ?y (Suc (Suc 0)) =
              (if c' < c then Lower else if c < c' then Higher
               else version_compare ?x ?y (Suc (Suc (Suc 0))))"
    using version_compare_step [of "Suc (Suc 0)" ?x ?y] by simp
  have v1: "version_compare ?x ?y (Suc 0) =
              (if b' < b then Lower else if b < b' then Higher
               else version_compare ?x ?y (Suc (Suc 0)))"
    using version_compare_step [of "Suc 0" ?x ?y] by simp
  have v0: "version_compare ?x ?y 0 =
              (if a' < a then Lower else if a < a' then Higher
               else version_compare ?x ?y (Suc 0))"
    using version_compare_step [of 0 ?x ?y] by simp
  show ?thesis
    by (simp only: v0 v1 v2 v3)
qed

text \<open>
  C7.  The rollback check compares the two 4-byte versions lexicographically:
  it answers \<open>VERSION_ROLLBACK\<close> exactly when the candidate is lower than or
  equal to the current version, and \<open>OK\<close> exactly when it is higher; equal
  versions are rejected, \<open>1.0.0.1\<close> over \<open>1.0.0.0\<close> is accepted, \<open>1.1.9.9\<close> over
  \<open>1.2.0.0\<close> is rejected.  The order on byte lists is the lexicographic one.
\<close>

theorem check_rollback_lexicographic:
  "(SECBOOT_BootManager_CheckRollbackProtection (a, b, c, d) (a', b', c', d')
      = SECBOOT_BOOTMANAGER_VERSION_ROLLBACK) = ([a', b', c', d'] \<le> [a, b, c, d]) \<and>
   (SECBOOT_BootManager_CheckRollbackProtection (a, b, c, d) (a', b', c', d')
      = SECBOOT_BOOTMANAGER_OK) = ([a, b, c, d] < [a', b', c', d']) \<and>
   SECBOOT_BootManager_CheckRollbackProtection (1, 0, 0, 0) (1, 0, 0, 0)
      = SECBOOT_BOOTMANAGER_VERSION_ROLLBACK \<and>
   SECBOOT_BootManager_CheckRollbackProtection (1, 0, 0, 0) (1, 0, 0, 1)
      = SECBOOT_BOOTMANAGER_OK \<and>
   SECBOOT_BootManager_CheckRollbackProtection (1, 2, 0, 0) (1, 1, 9, 9)
      = SECBOOT_BOOTMANAGER_VERSION_ROLLBACK"
  by (auto simp add: SECBOOT_BootManager_CheckRollbackProtection_def version_compare_4)

section \<open>Key unwrap: the temporaries are zero at the return\<close>

lemma zero_loop_eq:
  "i \<le> n \<Longrightarrow> length buf = n \<Longrightarrow> zero_loop buf i n = take i buf @ replicate (n - i) 0"
proof (induction buf i n rule: zero_loop.induct)
  case (1 buf i n)
  show ?case
  proof (cases "i < n")
    case True
    have "zero_loop buf i n = zero_loop (buf[i := 0]) (Suc i) n"
      using True by (subst zero_loop.simps) simp
    also have "\<dots> = take (Suc i) (buf[i := 0]) @ replicate (n - Suc i) 0"
      using True 1 by simp
    also have "take (Suc i) (buf[i := 0]) = take i buf @ [0]"
      using True 1(3) by (simp add: take_Suc_conv_app_nth)
    also have "(take i buf @ [0]) @ replicate (n - Suc i) 0 = take i buf @ replicate (n - i) 0"
      using True by (simp add: Suc_diff_Suc replicate_append_same flip: replicate_Suc)
    finally show ?thesis .
  next
    case False
    then show ?thesis using 1(2,3) by (subst zero_loop.simps) simp
  qed
qed

lemma zero_loop_all: "length buf = n \<Longrightarrow> zero_loop buf 0 n = replicate n 0"
  by (simp add: zero_loop_eq)

lemma length_uint32_to_bytes_be: "length (uint32_to_bytes_be xs) = 4 * length xs"
  by (induction xs) simp_all

lemma length_array_of: "length (array_of n xs) = n"
  by (simp add: array_of_def)

lemma PKCS7_Unpad_length:
  "length input = input_len \<Longrightarrow> PKCS7_Unpad input input_len = (st, out, len)
     \<Longrightarrow> length out = len \<and> len \<le> input_len"
  by (auto simp: PKCS7_Unpad_def Let_def split: if_splits)

lemma SECBOOT_AES_Decrypt_length:
  "SECBOOT_AES_Decrypt c m ctx a n = (st, out, len) \<Longrightarrow> length out = len \<and> len \<le> n * 4"
proof -
  assume d: "SECBOOT_AES_Decrypt c m ctx a n = (st, out, len)"
  define r where "r = cryp_decrypt c (ctx_key ctx) (ctx_iv ctx) (read_words m a n)"
  define bs where "bs = uint32_to_bytes_be (array_of n (snd r))"
  have lb: "length bs = n * 4"
    by (simp add: bs_def length_uint32_to_bytes_be length_array_of)
  obtain s' o' l' where u: "PKCS7_Unpad bs (n * 4) = (s', o', l')"
    by (cases "PKCS7_Unpad bs (n * 4)") auto
  from PKCS7_Unpad_length [OF lb u] have "length o' = l' \<and> l' \<le> n * 4" .
  with d u show ?thesis
    by (auto simp: SECBOOT_AES_Decrypt_def Let_def r_def [symmetric] bs_def [symmetric]
             split: if_splits)
qed

lemma unwrap_steps_temp:
  "temp_key (snd (unwrap_steps c m l)) = temp_key l"
  "temp_iv (snd (unwrap_steps c m l)) = temp_iv l"
  by (simp_all add: unwrap_steps_def Let_def)

lemma unwrap_steps_decrypted_key_length:
  assumes "length (decrypted_key l) = AES_KEY_SIZE"
  shows "length (decrypted_key (snd (unwrap_steps c m l))) = AES_KEY_SIZE"
proof -
  define ctx where "ctx = snd (SECBOOT_AES_Init c (AES_ctx l) (temp_key l) (temp_iv l))"
  obtain st out len where
    d: "SECBOOT_AES_Decrypt c m ctx AES_KEY_OFFSET (AES_KEY_SIZE div sizeof_uint32) = (st, out, len)"
    by (cases "SECBOOT_AES_Decrypt c m ctx AES_KEY_OFFSET (AES_KEY_SIZE div sizeof_uint32)") auto
  from SECBOOT_AES_Decrypt_length [OF d]
  have "length out = len" "len \<le> AES_KEY_SIZE"
    by (simp_all add: AES_KEY_SIZE_def sizeof_uint32_def)
  with assms d show ?thesis
    by (simp add: unwrap_steps_def Let_def ctx_def [symmetric])
qed

text \<open>
  C8.  Whatever the device identity, the flash contents and the behaviour of
  the CRYP peripheral, and so whatever status \<open>get_AES_key\<close> returns, when it
  returns every word of \<open>temp_key\<close> and of \<open>temp_iv\<close> and every byte of
  \<open>decrypted_key\<close> is zero.
\<close>

theorem get_AES_key_scrubs_temporaries:
  "temp_key (fst (snd (get_AES_key c m))) = replicate 4 0 \<and>
   temp_iv (fst (snd (get_AES_key c m))) = replicate 4 0 \<and>
   decrypted_key (fst (snd (get_AES_key c m))) = replicate 32 0"
proof -
  define l3 where "l3 =
     \<lparr>AES_ctx = \<lparr>ctx_key = replicate KEY_WORD_SIZE 0, ctx_iv = replicate IV_WORD_SIZE 0\<rparr>,
      Aes_key = replicate KEY_WORD_SIZE 0 @ array_of 4 (stack_after_Aes_key c),
      Aes_iv = read_words m AES_IV_OFFSET (AES_IV_SIZE div 4)
                 @ drop (AES_IV_SIZE div 4) (replicate AES_IV_SIZE 0),
      temp_key = (replicate 4 0)[0 := uid_w0 c, 1 := uid_w1 c, 2 := uid_w2 c, 3 := FW_MAGIC_NUMBER],
      temp_iv = read_words m AES_IV_OFFSET (AES_IV_SIZE div 4),
      decrypted_key = replicate AES_KEY_SIZE 0\<rparr>"
  define l4 where "l4 = snd (unwrap_steps c m l3)"
  have len_rw: "length (read_words m a n) = n" for a n
    by (induction n arbitrary: a) simp_all
  have k: "length (temp_key l4) = 4"
    by (simp add: l4_def unwrap_steps_temp l3_def)
  have i: "length (temp_iv l4) = AES_IV_SIZE div sizeof_uint32"
    by (simp add: l4_def unwrap_steps_temp l3_def len_rw sizeof_uint32_def)
  have d: "length (decrypted_key l4) = AES_KEY_SIZE"
    unfolding l4_def by (rule unwrap_steps_decrypted_key_length) (simp add: l3_def)
  have zk: "zero_loop (temp_key l4) 0 4 = replicate 4 0"
    using k by (rule zero_loop_all)
  have zi: "zero_loop (temp_iv l4) 0 (AES_IV_SIZE div sizeof_uint32) = replicate 4 0"
    using zero_loop_all [OF i] by (simp add: AES_IV_SIZE_def sizeof_uint32_def)
  have zd: "zero_loop (decrypted_key l4) 0 AES_KEY_SIZE = replicate 32 0"
    using zero_loop_all [OF d] by (simp add: AES_KEY_SIZE_def)
  have "fst (snd (get_AES_key c m)) =
          l4\<lparr>temp_key := zero_loop (temp_key l4) 0 4,
             temp_iv := zero_loop (temp_iv l4) 0 (AES_IV_SIZE div sizeof_uint32),
             decrypted_key := zero_loop (decrypted_key l4) 0 AES_KEY_SIZE,
             AES_ctx := snd (SECBOOT_AES_DeInit c (AES_ctx l4))\<rparr>"
    by (simp add: get_AES_key_def Let_def l4_def l3_def)
  then show ?thesis
    by (simp add: zk zi zd)
qed

lemma key_valid_loop_iff:
  "i \<le> 8 \<Longrightarrow> key_valid_loop key i = (\<exists>j. i \<le> j \<and> j < 8 \<and> key ! j \<noteq> 0 \<and> key ! j \<noteq> 0xFFFFFFFF)"
proof (induction key i rule: key_valid_loop.induct)
  case (1 key i)
  show ?case
  proof (cases "i < 8")
    case True
    show ?thesis
    proof (cases "key ! i \<noteq> 0 \<and> key ! i \<noteq> 0xFFFFFFFF")
      case True
      with \<open>i < 8\<close> show ?thesis
        by (subst key_valid_loop.simps) (auto simp: AES_KEY_SIZE_def sizeof_uint32_def)
    next
      case False
      have "key_valid_loop key i = key_valid_loop key (Suc i)"
        using False \<open>i < 8\<close>
        by (subst key_valid_loop.simps) (auto simp: AES_KEY_SIZE_def sizeof_uint32_def)
      also have "\<dots> = (\<exists>j. Suc i \<le> j \<and> j < 8 \<and> key ! j \<noteq> 0 \<and> key ! j \<noteq> 0xFFFFFFFF)"
        using 1 False \<open>i < 8\<close> by (simp add: AES_KEY_SIZE_def sizeof_uint32_def)
      also have "\<dots> = (\<exists>j. i \<le> j \<and> j < 8 \<and> key ! j \<noteq> 0 \<and> key ! j \<noteq> 0xFFFFFFFF)"
        using False by (metis Suc_leD Suc_leI le_neq_implies_less)
      finally show ?thesis .
    qed
  next
    case False
    then show ?thesis
      by (subst key_valid_loop.simps) (auto simp: AES_KEY_SIZE_def sizeof_uint32_def)
  qed
qed

text \<open>
  C9.  The code on a wrapped key that decrypts to 16 zero bytes: the validity
  loop runs over 8 words, the 4 words of \<open>Aes_key\<close> and the 4 stack words behind
  the array; one of those is neither \<open>0\<close> nor \<open>0xFFFFFFFF\<close>, so \<open>get_AES_key\<close>
  returns \<open>SECBOOT_AES_OK\<close> and hands out the all-zero key.
\<close>

theorem get_AES_key_accepts_zero_key:
  "fst (get_AES_key zero_key_env erased_memory) = SECBOOT_AES_OK \<and>
   AES_key (snd (snd (get_AES_key zero_key_env erased_memory))) = [0, 0, 0, 0]"
  by code_simp

section \<open>Image verification\<close>

lemma read_bytes_cong:
  "(\<And>i. i < n \<Longrightarrow> m' (a + of_nat i) = m (a + of_nat i)) \<Longrightarrow> read_bytes m' a n = read_bytes m a n"
proof (induction n arbitrary: a)
  case 0
  then show ?case by simp
next
  case (Suc n)
  have "m' a = m a" using Suc.prems [of 0] by simp
  moreover have "read_bytes m' (a + 1) n = read_bytes m (a + 1) n"
  proof (rule Suc.IH)
    fix i assume "i < n"
    then show "m' (a + 1 + of_nat i) = m (a + 1 + of_nat i)"
      using Suc.prems [of "Suc i"] by (simp add: add.assoc)
  qed
  ultimately show ?case by simp
qed

lemma length_read_bytes [simp]: "length (read_bytes m a n) = n"
  by (induction n arbitrary: a) simp_all

lemma nth_read_bytes: "i < n \<Longrightarrow> read_bytes m a n ! i = m (a + of_nat i)"
proof (induction n arbitrary: a i)
  case 0
  then show ?case by simp
next
  case (Suc n)
  show ?case
  proof (cases i)
    case 0
    then show ?thesis by simp
  next
    case (Suc j)
    then show ?thesis using Suc.prems Suc.IH [of j "a + 1"] by (simp add: add.assoc)
  qed
qed

lemma load32_cong:
  "(\<And>i. i < 4 \<Longrightarrow> m' (a + of_nat i) = m (a + of_nat i)) \<Longrightarrow> load32 m' a = load32 m a"
  unfolding load32_def by (rule arg_cong [where f = le32], rule read_bytes_cong)

lemma verify_status:
  "fst (SECBOOT_BootManager_VerifyAppSignature h a w) =
     (if hdr_magicNumber (mem w) a \<noteq> FW_MAGIC_NUMBER then SECBOOT_BOOTMANAGER_INVALID_HEADER
      else if fst (SECBOOT_SHA256_Compute h (mem w) (hdr_entryPoint (mem w) a)
                     (hdr_imageSize (mem w) a)) \<noteq> SECBOOT_SHA256_OK
      then SECBOOT_BOOTMANAGER_ERROR
      else if snd (SECBOOT_SHA256_Compute h (mem w) (hdr_entryPoint (mem w) a)
                     (hdr_imageSize (mem w) a)) \<noteq> hdr_firmwareHash (mem w) a
      then SECBOOT_BOOTMANAGER_INVALID_HASH
      else if SECBOOT_ECDSA_Verify_Signature h (mem w)
                (snd (SECBOOT_SHA256_Compute h (mem w) (hdr_entryPoint (mem w) a)
                        (hdr_imageSize (mem w) a)))
                (of_nat FW_HASH_SIZE) (hdr_signature a) ECC_PUBKEY_OFFSET
              \<noteq> SECBOOT_ECDSA_VERIFICATION_SUCCESS
      then SECBOOT_BOOTMANAGER_INVALID_SIGNATURE
      else SECBOOT_BOOTMANAGER_OK)"
  by (simp add: SECBOOT_BootManager_VerifyAppSignature_def Let_def log_call_def)

lemma verify_trace:
  "trace (snd (SECBOOT_BootManager_VerifyAppSignature h a w)) =
     trace w @ VerifyAppSignature_call a #
       (if hdr_magicNumber (mem w) a \<noteq> FW_MAGIC_NUMBER then []
        else SHA256_Compute_call (hdr_entryPoint (mem w) a) (hdr_imageSize (mem w) a) #
          (if fst (SECBOOT_SHA256_Compute h (mem w) (hdr_entryPoint (mem w) a)
                     (hdr_imageSize (mem w) a)) = SECBOOT_SHA256_OK \<and>
              snd (SECBOOT_SHA256_Compute h (mem w) (hdr_entryPoint (mem w) a)
                     (hdr_imageSize (mem w) a)) = hdr_firmwareHash (mem w) a
           then [ECDSA_Verify_call] else []))"
  by (simp add: SECBOOT_BootManager_VerifyAppSignature_def Let_def log_call_def)

lemma verify_mem:
  "mem (snd (SECBOOT_BootManager_VerifyAppSignature h a w)) =
     (if fst (SECBOOT_BootManager_VerifyAppSignature h a w) = SECBOOT_BOOTMANAGER_OK
      then memset (memset (mem w) ECC_PUBKEY_OFFSET 0 64) (hdr_signature a) 0 64
      else mem w)"
  by (simp add: SECBOOT_BootManager_VerifyAppSignature_def Let_def log_call_def)

lemma verify_other:
  "log_index (snd (SECBOOT_BootManager_VerifyAppSignature h a w)) = log_index w"
  "ticks (snd (SECBOOT_BootManager_VerifyAppSignature h a w)) = ticks w"
  by (simp_all add: SECBOOT_BootManager_VerifyAppSignature_def Let_def log_call_def)

lemma sha256_compute_ok:
  "(fst (SECBOOT_SHA256_Compute h m p n) = SECBOOT_SHA256_OK) =
     (p \<noteq> 0 \<and> n \<noteq> 0 \<and> sha256_start h (read_bytes m p (unat n)) = HAL_OK \<and>
      fst (sha256_finish h (read_bytes m p (unat n))) = HAL_OK)"
  by (simp add: SECBOOT_SHA256_Compute_def Let_def)

lemma sha256_compute_digest:
  "fst (SECBOOT_SHA256_Compute h m p n) = SECBOOT_SHA256_OK \<Longrightarrow>
   snd (SECBOOT_SHA256_Compute h m p n) = snd (sha256_finish h (read_bytes m p (unat n)))"
  by (simp add: SECBOOT_SHA256_Compute_def Let_def split: if_splits)


lemma memset_Suc: "memset m a c (Suc n) = memset (m(a := c)) (a + 1) c n"
  by (simp add: memset_def)

lemma memset_apply: "memset m a c n x = (if unat (x - a) < n then c else m x)"
proof (induction n arbitrary: m a)
  case 0
  then show ?case by (simp add: memset_def)
next
  case (Suc n)
  show ?case
  proof (cases "x = a")
    case True
    have "memset (m(a := c)) (a + 1) c n x =
            (if unat (x - (a + 1)) < n then c else (m(a := c)) x)"
      by (rule Suc.IH)
    then show ?thesis using True by (simp add: memset_Suc)
  next
    case False
    then have nz: "x - a \<noteq> 0" by simp
    have "x - (a + 1) = x - a - 1"
      by (simp only: diff_diff_eq)
    then have "unat (x - (a + 1)) = unat (x - a) - 1"
      using unat_minus_one [OF nz] by (simp only:)
    moreover have "0 < unat (x - a)"
      using nz by (simp add: unat_gt_0)
    ultimately have "(unat (x - (a + 1)) < n) = (unat (x - a) < Suc n)"
      by arith
    then show ?thesis using False by (simp add: memset_Suc Suc.IH)
  qed
qed

lemma hdr_addr_notin:
  assumes "k < 112"
  shows "a + of_nat k \<notin> headerCRC_bytes a"
proof -
  have ne: "(of_nat k :: 32 word) \<noteq> of_nat j" if "112 \<le> j" "j < 116" for j
  proof
    assume "(of_nat k :: 32 word) = of_nat j"
    then have "unat (of_nat k :: 32 word) = unat (of_nat j :: 32 word)" by simp
    then have "k = j" using assms that by (simp add: unat_of_nat)
    then show False using assms that by simp
  qed
  have "(of_nat k :: 32 word) \<noteq> 112" "(of_nat k :: 32 word) \<noteq> 113"
       "(of_nat k :: 32 word) \<noteq> 114" "(of_nat k :: 32 word) \<noteq> 115"
    using ne [of 112] ne [of 113] ne [of 114] ne [of 115] by simp_all
  then show ?thesis
    by (simp add: headerCRC_bytes_def)
qed

lemma read_bytes_outside:
  assumes agree: "\<forall>x. x \<notin> S \<longrightarrow> m' x = m x"
      and out: "\<And>i. i < n \<Longrightarrow> a + of_nat i \<notin> S"
  shows "read_bytes m' a n = read_bytes m a n"
  by (rule read_bytes_cong) (use agree out in blast)

lemma hdr_read_outside:
  assumes agree: "\<forall>x. x \<notin> headerCRC_bytes a \<longrightarrow> m' x = m x"
      and fit: "off + n \<le> 112"
  shows "read_bytes m' (a + of_nat off) n = read_bytes m (a + of_nat off) n"
proof (rule read_bytes_outside [OF agree])
  fix i assume "i < n"
  then have "off + i < 112" using fit by simp
  from hdr_addr_notin [OF this, of a]
  show "a + of_nat off + of_nat i \<notin> headerCRC_bytes a" by (simp add: add.assoc)
qed

lemma hdr_fields_outside:
  assumes agree: "\<forall>x. x \<notin> headerCRC_bytes a \<longrightarrow> m' x = m x"
  shows "hdr_magicNumber m' a = hdr_magicNumber m a"
    and "hdr_imageSize m' a = hdr_imageSize m a"
    and "hdr_entryPoint m' a = hdr_entryPoint m a"
    and "hdr_firmwareHash m' a = hdr_firmwareHash m a"
    and "read_bytes m' (hdr_signature a) 32 = read_bytes m (hdr_signature a) 32"
    and "read_bytes m' (hdr_signature a + 32) 32 = read_bytes m (hdr_signature a + 32) 32"
  using hdr_read_outside [OF agree, of 0 4] hdr_read_outside [OF agree, of 4 4]
        hdr_read_outside [OF agree, of 12 4] hdr_read_outside [OF agree, of 16 32]
        hdr_read_outside [OF agree, of 48 32] hdr_read_outside [OF agree, of 80 32]
  by (simp_all add: hdr_magicNumber_def hdr_imageSize_def hdr_entryPoint_def
        hdr_firmwareHash_def hdr_signature_def load32_def FW_HASH_SIZE_def add.assoc)


text \<open>
  C5 (as amended).  \<open>SECBOOT_BootManager_VerifyAppSignature\<close> checks in order
  and stops at the first failure.  A magic number other than the constant gives
  \<open>INVALID_HEADER\<close> and \<open>SECBOOT_SHA256_Compute\<close> is not called.  Otherwise the
  hash of the payload is requested; when it cannot be computed (a null
  \<open>entryPoint\<close>, \<open>imageSize = 0\<close>, or a fault of the hash unit) the status is
  \<open>ERROR\<close>, and when the digest differs from the stored hash it is
  \<open>INVALID_HASH\<close>; in both cases the signature verification is not called.
  Otherwise a signature that does not verify against the stored public key gives
  \<open>INVALID_SIGNATURE\<close>, and one that verifies gives \<open>OK\<close>.
\<close>

theorem verify_app_signature_stages:
  "fst (SECBOOT_BootManager_VerifyAppSignature h a w) =
     (if hdr_magicNumber (mem w) a \<noteq> FW_MAGIC_NUMBER then SECBOOT_BOOTMANAGER_INVALID_HEADER
      else if hdr_entryPoint (mem w) a \<noteq> 0 \<and> hdr_imageSize (mem w) a \<noteq> 0 \<and>
              sha256_start h (payload (mem w) a) = HAL_OK \<and>
              fst (sha256_finish h (payload (mem w) a)) = HAL_OK
      then (if snd (sha256_finish h (payload (mem w) a)) \<noteq> hdr_firmwareHash (mem w) a
            then SECBOOT_BOOTMANAGER_INVALID_HASH
            else if SECBOOT_ECDSA_Verify_Signature h (mem w)
                      (snd (sha256_finish h (payload (mem w) a))) 32 (hdr_signature a)
                      ECC_PUBKEY_OFFSET \<noteq> SECBOOT_ECDSA_VERIFICATION_SUCCESS
            then SECBOOT_BOOTMANAGER_INVALID_SIGNATURE
            else SECBOOT_BOOTMANAGER_OK)
      else SECBOOT_BOOTMANAGER_ERROR) \<and>
   new_calls w (snd (SECBOOT_BootManager_VerifyAppSignature h a w)) =
     VerifyAppSignature_call a #
       (if hdr_magicNumber (mem w) a \<noteq> FW_MAGIC_NUMBER then []
        else SHA256_Compute_call (hdr_entryPoint (mem w) a) (hdr_imageSize (mem w) a) #
          (if hdr_entryPoint (mem w) a \<noteq> 0 \<and> hdr_imageSize (mem w) a \<noteq> 0 \<and>
              sha256_start h (payload (mem w) a) = HAL_OK \<and>
              fst (sha256_finish h (payload (mem w) a)) = HAL_OK \<and>
              snd (sha256_finish h (payload (mem w) a)) = hdr_firmwareHash (mem w) a
           then [ECDSA_Verify_call] else []))"
proof -
  let ?sha = "SECBOOT_SHA256_Compute h (mem w) (hdr_entryPoint (mem w) a) (hdr_imageSize (mem w) a)"
  have ok: "(fst ?sha = SECBOOT_SHA256_OK) =
              (hdr_entryPoint (mem w) a \<noteq> 0 \<and> hdr_imageSize (mem w) a \<noteq> 0 \<and>
               sha256_start h (payload (mem w) a) = HAL_OK \<and>
               fst (sha256_finish h (payload (mem w) a)) = HAL_OK)"
    by (simp add: sha256_compute_ok payload_def)
  have dg: "fst ?sha = SECBOOT_SHA256_OK \<Longrightarrow> snd ?sha = snd (sha256_finish h (payload (mem w) a))"
    by (simp add: sha256_compute_digest payload_def)
  have st: "fst (SECBOOT_BootManager_VerifyAppSignature h a w) =
     (if hdr_magicNumber (mem w) a \<noteq> FW_MAGIC_NUMBER then SECBOOT_BOOTMANAGER_INVALID_HEADER
      else if fst ?sha = SECBOOT_SHA256_OK
      then (if snd (sha256_finish h (payload (mem w) a)) \<noteq> hdr_firmwareHash (mem w) a
            then SECBOOT_BOOTMANAGER_INVALID_HASH
            else if SECBOOT_ECDSA_Verify_Signature h (mem w)
                      (snd (sha256_finish h (payload (mem w) a))) 32 (hdr_signature a)
                      ECC_PUBKEY_OFFSET \<noteq> SECBOOT_ECDSA_VERIFICATION_SUCCESS
            then SECBOOT_BOOTMANAGER_INVALID_SIGNATURE
            else SECBOOT_BOOTMANAGER_OK)
      else SECBOOT_BOOTMANAGER_ERROR)"
    using dg by (simp add: verify_status FW_HASH_SIZE_def)
  have tr: "new_calls w (snd (SECBOOT_BootManager_VerifyAppSignature h a w)) =
     VerifyAppSignature_call a #
       (if hdr_magicNumber (mem w) a \<noteq> FW_MAGIC_NUMBER then []
        else SHA256_Compute_call (hdr_entryPoint (mem w) a) (hdr_imageSize (mem w) a) #
          (if fst ?sha = SECBOOT_SHA256_OK \<and>
              snd (sha256_finish h (payload (mem w) a)) = hdr_firmwareHash (mem w) a
           then [ECDSA_Verify_call] else []))"
    using dg by (auto simp add: new_calls_def verify_trace)
  show ?thesis
    unfolding st tr ok by simp
qed

text \<open>
  Besides the four statuses of the three checks there is a fifth: an image with the
  right magic number and \<open>imageSize = 0\<close> is answered with \<open>ERROR\<close>.
\<close>

theorem verify_zero_size_image_is_error:
  "hdr_magicNumber backup_image_size0 SECBOOT_BACKUP_IMAGE_ADDR = FW_MAGIC_NUMBER \<and>
   hdr_imageSize backup_image_size0 SECBOOT_BACKUP_IMAGE_ADDR = 0 \<and>
   fst (SECBOOT_BootManager_VerifyAppSignature sim_hal SECBOOT_BACKUP_IMAGE_ADDR
          (world_of backup_image_size0)) = SECBOOT_BOOTMANAGER_ERROR"
  by code_simp

lemma sha256_compute_cong:
  "read_bytes m' p (unat n) = read_bytes m p (unat n) \<Longrightarrow>
   SECBOOT_SHA256_Compute h m' p n = SECBOOT_SHA256_Compute h m p n"
  by (simp add: SECBOOT_SHA256_Compute_def)

lemma ecdsa_verify_cong:
  "read_bytes m' s 32 = read_bytes m s 32 \<Longrightarrow>
   read_bytes m' (s + 32) 32 = read_bytes m (s + 32) 32 \<Longrightarrow>
   read_bytes m' k 32 = read_bytes m k 32 \<Longrightarrow>
   read_bytes m' (k + 32) 32 = read_bytes m (k + 32) 32 \<Longrightarrow>
   SECBOOT_ECDSA_Verify_Signature h m' d n s k = SECBOOT_ECDSA_Verify_Signature h m d n s k"
  by (simp add: SECBOOT_ECDSA_Verify_Signature_def)

text \<open>
  C2 (as amended).  \<open>SECBOOT_BootManager_VerifyAppSignature\<close> does not consult
  \<open>headerCRC\<close>: two memories that differ only in the four bytes of that field
  (which lie outside the payload and the stored public key) give the same status
  and the same calls; the only check made before \<open>entryPoint\<close> and \<open>imageSize\<close> are
  used to hash the payload is the magic number.
\<close>

theorem verify_never_reads_headerCRC:
  assumes agree: "\<forall>x. x \<notin> headerCRC_bytes a \<longrightarrow> m' x = mem w x"
      and pay: "\<forall>i < unat (hdr_imageSize (mem w) a).
                  hdr_entryPoint (mem w) a + of_nat i \<notin> headerCRC_bytes a"
      and key: "\<forall>i < 64. ECC_PUBKEY_OFFSET + of_nat i \<notin> headerCRC_bytes a"
  shows "fst (SECBOOT_BootManager_VerifyAppSignature h a (w\<lparr>mem := m'\<rparr>)) =
           fst (SECBOOT_BootManager_VerifyAppSignature h a w) \<and>
         trace (snd (SECBOOT_BootManager_VerifyAppSignature h a (w\<lparr>mem := m'\<rparr>))) =
           trace (snd (SECBOOT_BootManager_VerifyAppSignature h a w)) \<and>
         (hdr_magicNumber (mem w) a = FW_MAGIC_NUMBER \<longrightarrow>
            SHA256_Compute_call (hdr_entryPoint (mem w) a) (hdr_imageSize (mem w) a)
              \<in> set (new_calls w (snd (SECBOOT_BootManager_VerifyAppSignature h a w))))"
proof -
  let ?m = "mem w"
  note f = hdr_fields_outside [OF agree]
  have p: "read_bytes m' (hdr_entryPoint ?m a) (unat (hdr_imageSize ?m a)) =
           read_bytes ?m (hdr_entryPoint ?m a) (unat (hdr_imageSize ?m a))"
    by (rule read_bytes_outside [OF agree]) (use pay in blast)
  have k1: "read_bytes m' ECC_PUBKEY_OFFSET 32 = read_bytes ?m ECC_PUBKEY_OFFSET 32"
  proof (rule read_bytes_outside [OF agree])
    fix i :: nat assume "i < 32"
    then show "ECC_PUBKEY_OFFSET + of_nat i \<notin> headerCRC_bytes a" using key by simp
  qed
  have k2: "read_bytes m' (ECC_PUBKEY_OFFSET + 32) 32 = read_bytes ?m (ECC_PUBKEY_OFFSET + 32) 32"
  proof (rule read_bytes_outside [OF agree])
    fix i :: nat assume "i < 32"
    then have "32 + i < 64" by simp
    with key have "ECC_PUBKEY_OFFSET + of_nat (32 + i) \<notin> headerCRC_bytes a" by blast
    then show "ECC_PUBKEY_OFFSET + 32 + of_nat i \<notin> headerCRC_bytes a"
      by (simp add: add.assoc)
  qed
  have sha: "SECBOOT_SHA256_Compute h m' (hdr_entryPoint ?m a) (hdr_imageSize ?m a) =
             SECBOOT_SHA256_Compute h ?m (hdr_entryPoint ?m a) (hdr_imageSize ?m a)"
    by (rule sha256_compute_cong [OF p])
  have ec: "SECBOOT_ECDSA_Verify_Signature h m' d n (hdr_signature a) ECC_PUBKEY_OFFSET =
            SECBOOT_ECDSA_Verify_Signature h ?m d n (hdr_signature a) ECC_PUBKEY_OFFSET" for d n
    by (rule ecdsa_verify_cong [OF f(5) f(6) k1 k2])
  have 1: "fst (SECBOOT_BootManager_VerifyAppSignature h a (w\<lparr>mem := m'\<rparr>)) =
           fst (SECBOOT_BootManager_VerifyAppSignature h a w)"
    by (simp add: verify_status f sha ec)
  have 2: "trace (snd (SECBOOT_BootManager_VerifyAppSignature h a (w\<lparr>mem := m'\<rparr>))) =
           trace (snd (SECBOOT_BootManager_VerifyAppSignature h a w))"
    by (simp add: verify_trace f sha)
  have 3: "hdr_magicNumber ?m a = FW_MAGIC_NUMBER \<longrightarrow>
            SHA256_Compute_call (hdr_entryPoint ?m a) (hdr_imageSize ?m a)
              \<in> set (new_calls w (snd (SECBOOT_BootManager_VerifyAppSignature h a w)))"
    by (simp add: new_calls_def verify_trace)
  from 1 2 3 show ?thesis by blast
qed

text \<open>
  C3.  What \<open>SECBOOT_BootManager_VerifyAppSignature\<close> does to memory: on every
  failing return memory is unchanged; on the successful return the 64 bytes of
  the public key stored at \<open>ECC_PUBKEY_OFFSET\<close> and the 64 bytes of the signature
  field of the header in the slot are zero, since the two \<open>memset\<close> calls go
  through pointers to the stored data, not to copies.
\<close>

theorem verify_memory_effect:
  "(fst (SECBOOT_BootManager_VerifyAppSignature h a w) \<noteq> SECBOOT_BOOTMANAGER_OK \<longrightarrow>
      mem (snd (SECBOOT_BootManager_VerifyAppSignature h a w)) = mem w) \<and>
   (fst (SECBOOT_BootManager_VerifyAppSignature h a w) = SECBOOT_BOOTMANAGER_OK \<longrightarrow>
      (\<forall>i < 64.
         mem (snd (SECBOOT_BootManager_VerifyAppSignature h a w)) (ECC_PUBKEY_OFFSET + of_nat i) = 0 \<and>
         mem (snd (SECBOOT_BootManager_VerifyAppSignature h a w)) (hdr_signature a + of_nat i) = 0))"
proof -
  have u: "unat (of_nat i :: 32 word) < 64" if "i < 64" for i
    using that by (simp add: unat_of_nat)
  show ?thesis
    by (simp add: verify_mem memset_apply u)
qed


text \<open>
  Two headers with the same first 112 bytes and different \<open>headerCRC\<close> fields
  are both accepted, and \<open>entryPoint\<close> and \<open>imageSize\<close> are used for the hash:
  whatever the CRC of those 112 bytes is, one of the two stored values is not it.
\<close>

theorem verify_accepts_two_headerCRC_values:
  "hdr_headerCRC backup_image SECBOOT_BACKUP_IMAGE_ADDR
     \<noteq> hdr_headerCRC backup_image_crc0 SECBOOT_BACKUP_IMAGE_ADDR \<and>
   read_bytes backup_image SECBOOT_BACKUP_IMAGE_ADDR 112
     = read_bytes backup_image_crc0 SECBOOT_BACKUP_IMAGE_ADDR 112 \<and>
   fst (SECBOOT_BootManager_VerifyAppSignature sim_hal SECBOOT_BACKUP_IMAGE_ADDR
          (world_of backup_image)) = SECBOOT_BOOTMANAGER_OK \<and>
   fst (SECBOOT_BootManager_VerifyAppSignature sim_hal SECBOOT_BACKUP_IMAGE_ADDR
          (world_of backup_image_crc0)) = SECBOOT_BOOTMANAGER_OK \<and>
   new_calls (world_of backup_image_crc0)
       (snd (SECBOOT_BootManager_VerifyAppSignature sim_hal SECBOOT_BACKUP_IMAGE_ADDR
               (world_of backup_image_crc0)))
     = [VerifyAppSignature_call SECBOOT_BACKUP_IMAGE_ADDR,
        SHA256_Compute_call 0x08073100 4, ECDSA_Verify_call]"
proof -
  have 1: "hdr_headerCRC backup_image SECBOOT_BACKUP_IMAGE_ADDR
             \<noteq> hdr_headerCRC backup_image_crc0 SECBOOT_BACKUP_IMAGE_ADDR"
    by code_simp
  have 2: "read_bytes backup_image SECBOOT_BACKUP_IMAGE_ADDR 112
             = read_bytes backup_image_crc0 SECBOOT_BACKUP_IMAGE_ADDR 112"
    by code_simp
  have 3: "fst (SECBOOT_BootManager_VerifyAppSignature sim_hal SECBOOT_BACKUP_IMAGE_ADDR
                  (world_of backup_image)) = SECBOOT_BOOTMANAGER_OK"
    by code_simp
  have 4: "fst (SECBOOT_BootManager_VerifyAppSignature sim_hal SECBOOT_BACKUP_IMAGE_ADDR
                  (world_of backup_image_crc0)) = SECBOOT_BOOTMANAGER_OK"
    by code_simp
  have 5: "new_calls (world_of backup_image_crc0)
       (snd (SECBOOT_BootManager_VerifyAppSignature sim_hal SECBOOT_BACKUP_IMAGE_ADDR
               (world_of backup_image_crc0)))
     = [VerifyAppSignature_call SECBOOT_BACKUP_IMAGE_ADDR,
        SHA256_Compute_call 0x08073100 4, ECDSA_Verify_call]"
    by code_simp
  from 1 2 3 4 5 show ?thesis by blast
qed

lemma backup_image_fields:
  "hdr_imageSize backup_image SECBOOT_BACKUP_IMAGE_ADDR = 4"
  "hdr_entryPoint backup_image SECBOOT_BACKUP_IMAGE_ADDR = 0x08073100"
  "hdr_magicNumber backup_image SECBOOT_BACKUP_IMAGE_ADDR = FW_MAGIC_NUMBER"
  by code_simp+

lemma range_disjoint_headerCRC:
  assumes "n \<le> 4096" and "unat b + n \<le> unat a + 112 \<or> unat a + 116 \<le> unat b"
      and "unat a + 116 < 2 ^ 32" and "unat b + n < 2 ^ 32" and "i < n"
  shows "b + of_nat i \<notin> headerCRC_bytes a"
proof -
  have ui: "unat (of_nat i :: 32 word) = i"
    using assms by (simp add: unat_of_nat)
  have ub: "unat (b + of_nat i) = unat b + i"
    using assms ui by (simp add: unat_word_ariths)
  have ua: "unat (a + k) = unat a + unat k" if "unat k < 116" for k :: "32 word"
    using assms that by (simp add: unat_word_ariths)
  have "b + of_nat i \<noteq> a + k" if "112 \<le> unat k" "unat k < 116" for k :: "32 word"
  proof
    assume "b + of_nat i = a + k"
    then have "unat (b + of_nat i) = unat (a + k)" by simp
    then have "unat b + i = unat a + unat k" using ub ua [OF that(2)] by simp
    then show False using assms that by arith
  qed
  from this [of 112] this [of 113] this [of 114] this [of 115]
  show ?thesis by (simp add: headerCRC_bytes_def)
qed

text \<open>
  The hypotheses hold for the backup image and the same image with a zeroed
  \<open>headerCRC\<close>.
\<close>

theorem verify_never_reads_headerCRC_witness:
  "fst (SECBOOT_BootManager_VerifyAppSignature sim_hal SECBOOT_BACKUP_IMAGE_ADDR
          ((world_of backup_image)\<lparr>mem := backup_image_crc0\<rparr>)) =
     fst (SECBOOT_BootManager_VerifyAppSignature sim_hal SECBOOT_BACKUP_IMAGE_ADDR
            (world_of backup_image)) \<and>
   trace (snd (SECBOOT_BootManager_VerifyAppSignature sim_hal SECBOOT_BACKUP_IMAGE_ADDR
                 ((world_of backup_image)\<lparr>mem := backup_image_crc0\<rparr>))) =
     trace (snd (SECBOOT_BootManager_VerifyAppSignature sim_hal SECBOOT_BACKUP_IMAGE_ADDR
                   (world_of backup_image))) \<and>
   SHA256_Compute_call 0x08073100 4
     \<in> set (new_calls (world_of backup_image)
               (snd (SECBOOT_BootManager_VerifyAppSignature sim_hal SECBOOT_BACKUP_IMAGE_ADDR
                       (world_of backup_image))))"
proof -
  have m: "mem (world_of backup_image) = backup_image"
    by (simp add: world_of_def)
  have agree: "\<forall>x. x \<notin> headerCRC_bytes SECBOOT_BACKUP_IMAGE_ADDR \<longrightarrow>
                 backup_image_crc0 x = mem (world_of backup_image) x"
    by (simp add: m backup_image_crc0_def headerCRC_bytes_def)
  have ua: "unat SECBOOT_BACKUP_IMAGE_ADDR = 0x08073000"
    by (simp add: SECBOOT_BACKUP_IMAGE_ADDR_def)
  have pay: "\<forall>i < unat (hdr_imageSize (mem (world_of backup_image)) SECBOOT_BACKUP_IMAGE_ADDR).
               hdr_entryPoint (mem (world_of backup_image)) SECBOOT_BACKUP_IMAGE_ADDR + of_nat i
                 \<notin> headerCRC_bytes SECBOOT_BACKUP_IMAGE_ADDR"
    unfolding m backup_image_fields
    by (intro allI impI, rule range_disjoint_headerCRC [where n = 4]) (simp_all add: ua)
  have key: "\<forall>i < 64. ECC_PUBKEY_OFFSET + of_nat i \<notin> headerCRC_bytes SECBOOT_BACKUP_IMAGE_ADDR"
    by (intro allI impI, rule range_disjoint_headerCRC [where n = 64])
       (simp_all add: ua ECC_PUBKEY_OFFSET_def BOOTLOADER_START_ADDR_def)
  from verify_never_reads_headerCRC [OF agree pay key, of sim_hal]
  show ?thesis
    by (simp add: m backup_image_fields)
qed

text \<open>
  On the backup image, which is accepted, the first byte of the stored key and
  the first byte of the header's signature are \<open>0xFF\<close> before the call and \<open>0\<close>
  after it.
\<close>

theorem verify_memory_effect_witness:
  "fst (SECBOOT_BootManager_VerifyAppSignature sim_hal SECBOOT_BACKUP_IMAGE_ADDR
          (world_of backup_image)) = SECBOOT_BOOTMANAGER_OK \<and>
   mem (world_of backup_image) ECC_PUBKEY_OFFSET = 0xFF \<and>
   mem (snd (SECBOOT_BootManager_VerifyAppSignature sim_hal SECBOOT_BACKUP_IMAGE_ADDR
               (world_of backup_image))) ECC_PUBKEY_OFFSET = 0 \<and>
   mem (world_of backup_image) (hdr_signature SECBOOT_BACKUP_IMAGE_ADDR) = 0xFF \<and>
   mem (snd (SECBOOT_BootManager_VerifyAppSignature sim_hal SECBOOT_BACKUP_IMAGE_ADDR
               (world_of backup_image))) (hdr_signature SECBOOT_BACKUP_IMAGE_ADDR) = 0"
proof -
  have ok: "fst (SECBOOT_BootManager_VerifyAppSignature sim_hal SECBOOT_BACKUP_IMAGE_ADDR
                   (world_of backup_image)) = SECBOOT_BOOTMANAGER_OK"
    by code_simp
  have before: "mem (world_of backup_image) ECC_PUBKEY_OFFSET = 0xFF"
               "mem (world_of backup_image) (hdr_signature SECBOOT_BACKUP_IMAGE_ADDR) = 0xFF"
    by code_simp+
  from verify_memory_effect [of sim_hal SECBOOT_BACKUP_IMAGE_ADDR "world_of backup_image"] ok
  have "\<forall>i < 64.
         mem (snd (SECBOOT_BootManager_VerifyAppSignature sim_hal SECBOOT_BACKUP_IMAGE_ADDR
                     (world_of backup_image))) (ECC_PUBKEY_OFFSET + of_nat i) = 0 \<and>
         mem (snd (SECBOOT_BootManager_VerifyAppSignature sim_hal SECBOOT_BACKUP_IMAGE_ADDR
                     (world_of backup_image))) (hdr_signature SECBOOT_BACKUP_IMAGE_ADDR + of_nat i) = 0"
    by blast
  from this [rule_format, of 0] ok before show ?thesis by simp
qed

section \<open>The event log\<close>

lemma log_event_invalid:
  "ev > SECBOOT_DIAG_ROLLBACK_ATTEMPT \<Longrightarrow>
   SECBOOT_Diag_LogEvent h ev code data w =
     (SECBOOT_DIAG_INVALID_PARAM, log_call (LogEvent_call ev code data) w)"
  by (simp add: SECBOOT_Diag_LogEvent_def Let_def)

lemma log_event_guard:
  assumes "ev \<le> SECBOOT_DIAG_ROLLBACK_ATTEMPT"
      and "load32 (mem w) (next_slot w) \<noteq> 0xFFFFFFFF"
  shows "SECBOOT_Diag_LogEvent h ev code data w =
           (SECBOOT_DIAG_TAMPERED, after_tick ev code data w)"
  using assms
  by (simp add: SECBOOT_Diag_LogEvent_def Let_def HAL_GetTick_def log_call_def
        SECBOOT_CRC_Calculate_def next_slot_def after_tick_def not_less [symmetric])

lemma log_event_programs:
  assumes "ev \<le> SECBOOT_DIAG_ROLLBACK_ATTEMPT"
      and "load32 (mem w) (next_slot w) = 0xFFFFFFFF"
  shows "SECBOOT_Diag_LogEvent h ev code data w =
     (let r = program_entry h (next_slot w) (pData_bytes h (prepared_entry h ev code data w)) 0 (mem w);
          w1 = after_tick ev code data w
      in if \<not> fst r then (SECBOOT_DIAG_ERROR, w1\<lparr>mem := snd r\<rparr>)
         else (if crc (stored_entry (snd r) (next_slot w)) \<noteq> recomputed_crc h (snd r) (next_slot w)
               then SECBOOT_DIAG_TAMPERED else SECBOOT_DIAG_OK,
               w1\<lparr>mem := snd r, log_index := (log_index w + 1) mod SECBOOT_DIAG_MAX_LOGS\<rparr>))"
proof -
  have tk: "take (sizeof_entry - sizeof_crc) (read_bytes m a sizeof_entry) =
            read_bytes m a (sizeof_entry - sizeof_crc)" for m a
    by (simp add: sizeof_entry_def sizeof_crc_def eval_nat_numeral)
  show ?thesis
    using assms
    by (simp add: SECBOOT_Diag_LogEvent_def Let_def HAL_GetTick_def log_call_def
          SECBOOT_CRC_Calculate_def next_slot_def after_tick_def not_less [symmetric]
          prepared_entry_def stored_entry_def recomputed_crc_def tk)
qed


declare length_array_of [simp]

lemma length_bytes_of_u32 [simp]: "length (bytes_of_u32 x) = 4"
  by (simp add: bytes_of_u32_def)

lemma length_entry_bytes [simp]: "length (entry_bytes h e) = 20"
  by (simp add: entry_bytes_def)

lemma crc_of_entry_bytes: "crc (entry_of_bytes (entry_bytes h e)) = le32 (bytes_of_u32 (crc e))"
  by (simp add: entry_of_bytes_def entry_bytes_def)

lemma le32_zero: "le32 (bytes_of_u32 0) = 0"
  by (simp add: le32_def bytes_of_u32_def)

text \<open>The answer \<open>OK\<close> is given only after the read-back check has passed.\<close>

lemma log_event_ok_only_if_crc_matches:
  assumes "fst (SECBOOT_Diag_LogEvent h ev code data w) = SECBOOT_DIAG_OK"
  shows "crc (stored_entry (mem (snd (SECBOOT_Diag_LogEvent h ev code data w))) (next_slot w))
           = recomputed_crc h (mem (snd (SECBOOT_Diag_LogEvent h ev code data w))) (next_slot w)"
proof (cases "ev \<le> SECBOOT_DIAG_ROLLBACK_ATTEMPT")
  case False
  then have "ev > SECBOOT_DIAG_ROLLBACK_ATTEMPT" by simp
  with assms show ?thesis by (simp add: log_event_invalid)
next
  case True
  show ?thesis
  proof (cases "load32 (mem w) (next_slot w) = 0xFFFFFFFF")
    case False
    with True assms show ?thesis by (simp add: log_event_guard)
  next
    case e: True
    from assms show ?thesis
      by (simp add: log_event_programs [OF True e] Let_def after_tick_def split: if_splits)
  qed
qed

text \<open>
  C1.  What \<open>SECBOOT_Diag_LogEvent\<close> stores.  The CRC is computed into
  \<open>temp_crc\<close> and never copied into \<open>entry.crc\<close>, which keeps its initial 0.
  So, when the event type is valid, the slot's first word reads erased, the
  eight programming calls succeed and the entry reads back as it was written:
  the stored \<open>crc\<close> field is 0, the index has advanced, and the status is \<open>OK\<close>
  only if the CRC recomputed over the preceding fields happens to be 0, and
  \<open>TAMPERED\<close> otherwise.
\<close>

theorem log_event_stores_zero_crc:
  assumes "ev \<le> SECBOOT_DIAG_ROLLBACK_ATTEMPT"
      and "load32 (mem w) (next_slot w) = 0xFFFFFFFF"
      and "fst (program_entry h (next_slot w)
                  (pData_bytes h (prepared_entry h ev code data w)) 0 (mem w))"
      and "read_bytes (snd (program_entry h (next_slot w)
                  (pData_bytes h (prepared_entry h ev code data w)) 0 (mem w)))
             (next_slot w) sizeof_entry = entry_bytes h (prepared_entry h ev code data w)"
  shows "crc (stored_entry (mem (snd (SECBOOT_Diag_LogEvent h ev code data w))) (next_slot w)) = 0 \<and>
         log_index (snd (SECBOOT_Diag_LogEvent h ev code data w))
           = (log_index w + 1) mod SECBOOT_DIAG_MAX_LOGS \<and>
         fst (SECBOOT_Diag_LogEvent h ev code data w)
           = (if recomputed_crc h (mem (snd (SECBOOT_Diag_LogEvent h ev code data w))) (next_slot w) = 0
              then SECBOOT_DIAG_OK else SECBOOT_DIAG_TAMPERED)"
proof -
  let ?e = "prepared_entry h ev code data w"
  let ?r = "program_entry h (next_slot w) (pData_bytes h ?e) 0 (mem w)"
  have "stored_entry (snd ?r) (next_slot w) = entry_of_bytes (entry_bytes h ?e)"
    unfolding stored_entry_def assms(4) ..
  moreover have "crc ?e = 0"
    by (simp add: prepared_entry_def)
  ultimately have c: "crc (stored_entry (snd ?r) (next_slot w)) = 0"
    by (simp only: crc_of_entry_bytes le32_zero)
  have L: "SECBOOT_Diag_LogEvent h ev code data w =
             (if 0 \<noteq> recomputed_crc h (snd ?r) (next_slot w)
              then SECBOOT_DIAG_TAMPERED else SECBOOT_DIAG_OK,
              (after_tick ev code data w)\<lparr>mem := snd ?r,
                 log_index := (log_index w + 1) mod SECBOOT_DIAG_MAX_LOGS\<rparr>)"
    using log_event_programs [OF assms(1,2), of h code data] assms(3) c
    by (simp add: Let_def)
  show ?thesis
    unfolding L using c by (simp add: after_tick_def)
qed

text \<open>
  C6.  Before programming, \<open>SECBOOT_Diag_LogEvent\<close> tests one word of the target
  slot, its first 32-bit word, under the comment \<open>Verify sector is erased\<close>.
  When that word is not \<open>0xFFFFFFFF\<close> the call (with a valid event type) returns
  \<open>TAMPERED\<close>, memory is unchanged and the index does not advance.  When it is
  \<open>0xFFFFFFFF\<close> the entry is programmed, whatever the other words of the slot
  hold: memory is what the programming loop leaves, and a \<open>TAMPERED\<close> answer can
  then only come from the read-back check, after the index has advanced.  So a
  slot that is not fully erased is rejected with \<open>TAMPERED\<close> and left as it was
  only when its first word is among the written ones.
\<close>

theorem log_event_erased_check:
  "(ev \<le> SECBOOT_DIAG_ROLLBACK_ATTEMPT \<and> load32 (mem w) (next_slot w) \<noteq> 0xFFFFFFFF \<longrightarrow>
      SECBOOT_Diag_LogEvent h ev code data w
        = (SECBOOT_DIAG_TAMPERED, after_tick ev code data w)) \<and>
   (ev \<le> SECBOOT_DIAG_ROLLBACK_ATTEMPT \<and> load32 (mem w) (next_slot w) = 0xFFFFFFFF \<longrightarrow>
      mem (snd (SECBOOT_Diag_LogEvent h ev code data w))
        = snd (program_entry h (next_slot w)
                 (pData_bytes h (prepared_entry h ev code data w)) 0 (mem w)) \<and>
      (fst (SECBOOT_Diag_LogEvent h ev code data w) = SECBOOT_DIAG_TAMPERED \<longrightarrow>
         log_index (snd (SECBOOT_Diag_LogEvent h ev code data w))
           = (log_index w + 1) mod SECBOOT_DIAG_MAX_LOGS))"
proof (intro conjI impI)
  assume "ev \<le> SECBOOT_DIAG_ROLLBACK_ATTEMPT \<and> load32 (mem w) (next_slot w) \<noteq> 0xFFFFFFFF"
  then show "SECBOOT_Diag_LogEvent h ev code data w
               = (SECBOOT_DIAG_TAMPERED, after_tick ev code data w)"
    by (simp add: log_event_guard)
next
  assume a: "ev \<le> SECBOOT_DIAG_ROLLBACK_ATTEMPT \<and> load32 (mem w) (next_slot w) = 0xFFFFFFFF"
  then show "mem (snd (SECBOOT_Diag_LogEvent h ev code data w))
        = snd (program_entry h (next_slot w)
                 (pData_bytes h (prepared_entry h ev code data w)) 0 (mem w))"
    by (simp add: log_event_programs Let_def)
next
  assume a: "ev \<le> SECBOOT_DIAG_ROLLBACK_ATTEMPT \<and> load32 (mem w) (next_slot w) = 0xFFFFFFFF"
     and t: "fst (SECBOOT_Diag_LogEvent h ev code data w) = SECBOOT_DIAG_TAMPERED"
  from a t show "log_index (snd (SECBOOT_Diag_LogEvent h ev code data w))
           = (log_index w + 1) mod SECBOOT_DIAG_MAX_LOGS"
    by (simp add: log_event_programs Let_def after_tick_def split: if_splits)
qed


text \<open>
  With the simulated peripherals on erased flash: the entry is programmed, its
  stored \<open>crc\<close> is 0 while the recomputed CRC is \<open>0xC0FFEE10\<close>, and the call
  answers \<open>TAMPERED\<close>.
\<close>

theorem log_event_stores_zero_crc_witness:
  "crc (stored_entry
          (mem (snd (SECBOOT_Diag_LogEvent sim_hal SECBOOT_DIAG_CRC_FAIL 0x10 0
                       (world_of erased_memory))))
          (next_slot (world_of erased_memory))) = 0 \<and>
   recomputed_crc sim_hal
       (mem (snd (SECBOOT_Diag_LogEvent sim_hal SECBOOT_DIAG_CRC_FAIL 0x10 0
                    (world_of erased_memory))))
       (next_slot (world_of erased_memory)) = 0xC0FFEE10 \<and>
   fst (SECBOOT_Diag_LogEvent sim_hal SECBOOT_DIAG_CRC_FAIL 0x10 0 (world_of erased_memory))
     = SECBOOT_DIAG_TAMPERED \<and>
   log_index (snd (SECBOOT_Diag_LogEvent sim_hal SECBOOT_DIAG_CRC_FAIL 0x10 0
                     (world_of erased_memory))) = 1"
proof -
  let ?W = "world_of erased_memory"
  have h1: "SECBOOT_DIAG_CRC_FAIL \<le> SECBOOT_DIAG_ROLLBACK_ATTEMPT"
    by (simp add: SECBOOT_DIAG_CRC_FAIL_def SECBOOT_DIAG_ROLLBACK_ATTEMPT_def)
  have h2: "load32 (mem ?W) (next_slot ?W) = 0xFFFFFFFF"
    by code_simp
  have h3: "fst (program_entry sim_hal (next_slot ?W)
                   (pData_bytes sim_hal (prepared_entry sim_hal SECBOOT_DIAG_CRC_FAIL 0x10 0 ?W))
                   0 (mem ?W))"
    by code_simp
  have h4: "read_bytes (snd (program_entry sim_hal (next_slot ?W)
                   (pData_bytes sim_hal (prepared_entry sim_hal SECBOOT_DIAG_CRC_FAIL 0x10 0 ?W))
                   0 (mem ?W)))
              (next_slot ?W) sizeof_entry
            = entry_bytes sim_hal (prepared_entry sim_hal SECBOOT_DIAG_CRC_FAIL 0x10 0 ?W)"
    by code_simp
  have r: "recomputed_crc sim_hal
             (mem (snd (SECBOOT_Diag_LogEvent sim_hal SECBOOT_DIAG_CRC_FAIL 0x10 0 ?W)))
             (next_slot ?W) = 0xC0FFEE10"
    by code_simp
  have i: "(log_index ?W + 1) mod SECBOOT_DIAG_MAX_LOGS = 1"
    by (simp add: world_of_def SECBOOT_DIAG_MAX_LOGS_def)
  from log_event_stores_zero_crc [OF h1 h2 h3 h4] r i show ?thesis
    by simp
qed

text \<open>
  A slot that does not read fully erased: its first word is erased, the word at
  offset 8 is not.  The call does not answer \<open>TAMPERED\<close>; it programs the first
  double word (the byte at the slot's address changes from \<open>0xFF\<close> to \<open>0x64\<close>),
  answers \<open>ERROR\<close> when the second double word is rejected, and leaves the index
  at 0, on the slot that now holds the first eight bytes of the entry.
\<close>

theorem log_event_programs_partly_written_slot:
  "load32 partly_written_slot (next_slot (world_of partly_written_slot) + 8) \<noteq> 0xFFFFFFFF \<and>
   fst (SECBOOT_Diag_LogEvent sim_hal SECBOOT_DIAG_CRC_FAIL 0x10 0 (world_of partly_written_slot))
     = SECBOOT_DIAG_ERROR \<and>
   partly_written_slot (next_slot (world_of partly_written_slot)) = 0xFF \<and>
   mem (snd (SECBOOT_Diag_LogEvent sim_hal SECBOOT_DIAG_CRC_FAIL 0x10 0
               (world_of partly_written_slot)))
       (next_slot (world_of partly_written_slot)) = 0x64 \<and>
   log_index (snd (SECBOOT_Diag_LogEvent sim_hal SECBOOT_DIAG_CRC_FAIL 0x10 0
                     (world_of partly_written_slot))) = 0"
proof -
  have 1: "load32 partly_written_slot (next_slot (world_of partly_written_slot) + 8) \<noteq> 0xFFFFFFFF"
    by code_simp
  have 2: "fst (SECBOOT_Diag_LogEvent sim_hal SECBOOT_DIAG_CRC_FAIL 0x10 0
                  (world_of partly_written_slot)) = SECBOOT_DIAG_ERROR"
    by code_simp
  have 3: "partly_written_slot (next_slot (world_of partly_written_slot)) = 0xFF"
    by code_simp
  have 4: "mem (snd (SECBOOT_Diag_LogEvent sim_hal SECBOOT_DIAG_CRC_FAIL 0x10 0
               (world_of partly_written_slot)))
       (next_slot (world_of partly_written_slot)) = 0x64"
    by code_simp
  have 5: "log_index (snd (SECBOOT_Diag_LogEvent sim_hal SECBOOT_DIAG_CRC_FAIL 0x10 0
                     (world_of partly_written_slot))) = 0"
    by code_simp
  from 1 2 3 4 5 show ?thesis by blast
qed

text \<open>
  The three hypotheses at concrete states: a slot whose first word is written,
  a slot whose first word alone is erased, and erased flash, where the answer
  is \<open>TAMPERED\<close> after the entry was programmed.
\<close>

theorem log_event_erased_check_witness:
  "SECBOOT_Diag_LogEvent sim_hal SECBOOT_DIAG_CRC_FAIL 0x10 0 (world_of used_slot)
     = (SECBOOT_DIAG_TAMPERED, after_tick SECBOOT_DIAG_CRC_FAIL 0x10 0 (world_of used_slot)) \<and>
   mem (snd (SECBOOT_Diag_LogEvent sim_hal SECBOOT_DIAG_CRC_FAIL 0x10 0
               (world_of partly_written_slot)))
     = snd (program_entry sim_hal (next_slot (world_of partly_written_slot))
              (pData_bytes sim_hal
                 (prepared_entry sim_hal SECBOOT_DIAG_CRC_FAIL 0x10 0 (world_of partly_written_slot)))
              0 (mem (world_of partly_written_slot))) \<and>
   log_index (snd (SECBOOT_Diag_LogEvent sim_hal SECBOOT_DIAG_CRC_FAIL 0x10 0
                     (world_of erased_memory))) = 1"
proof -
  have h1: "SECBOOT_DIAG_CRC_FAIL \<le> SECBOOT_DIAG_ROLLBACK_ATTEMPT"
    by (simp add: SECBOOT_DIAG_CRC_FAIL_def SECBOOT_DIAG_ROLLBACK_ATTEMPT_def)
  have a: "load32 (mem (world_of used_slot)) (next_slot (world_of used_slot)) \<noteq> 0xFFFFFFFF"
    by code_simp
  have b: "load32 (mem (world_of partly_written_slot)) (next_slot (world_of partly_written_slot))
             = 0xFFFFFFFF"
    by code_simp
  have c: "load32 (mem (world_of erased_memory)) (next_slot (world_of erased_memory)) = 0xFFFFFFFF"
    by code_simp
  have t: "fst (SECBOOT_Diag_LogEvent sim_hal SECBOOT_DIAG_CRC_FAIL 0x10 0 (world_of erased_memory))
             = SECBOOT_DIAG_TAMPERED"
    by code_simp
  have i: "(log_index (world_of erased_memory) + 1) mod SECBOOT_DIAG_MAX_LOGS = 1"
    by (simp add: world_of_def SECBOOT_DIAG_MAX_LOGS_def)
  from log_event_erased_check [where ev = SECBOOT_DIAG_CRC_FAIL and w = "world_of used_slot" and h = sim_hal and code = "0x10" and data = 0] h1 a
  have A: "SECBOOT_Diag_LogEvent sim_hal SECBOOT_DIAG_CRC_FAIL 0x10 0 (world_of used_slot)
     = (SECBOOT_DIAG_TAMPERED, after_tick SECBOOT_DIAG_CRC_FAIL 0x10 0 (world_of used_slot))"
    by blast
  from log_event_erased_check [where ev = SECBOOT_DIAG_CRC_FAIL and w = "world_of partly_written_slot" and h = sim_hal and code = "0x10" and data = 0]
       h1 b
  have B: "mem (snd (SECBOOT_Diag_LogEvent sim_hal SECBOOT_DIAG_CRC_FAIL 0x10 0
               (world_of partly_written_slot)))
     = snd (program_entry sim_hal (next_slot (world_of partly_written_slot))
              (pData_bytes sim_hal
                 (prepared_entry sim_hal SECBOOT_DIAG_CRC_FAIL 0x10 0 (world_of partly_written_slot)))
              0 (mem (world_of partly_written_slot)))"
    by blast
  from log_event_erased_check [where ev = SECBOOT_DIAG_CRC_FAIL and w = "world_of erased_memory" and h = sim_hal and code = "0x10" and data = 0]
       h1 c t i
  have C: "log_index (snd (SECBOOT_Diag_LogEvent sim_hal SECBOOT_DIAG_CRC_FAIL 0x10 0
                     (world_of erased_memory))) = 1"
    by simp
  from A B C show ?thesis by blast
qed

section \<open>The recovery episode\<close>

lemma log_event_trace:
  "trace (snd (SECBOOT_Diag_LogEvent h ev code data w)) = trace w @ [LogEvent_call ev code data]"
  by (simp add: SECBOOT_Diag_LogEvent_def Let_def HAL_GetTick_def log_call_def)

lemma log_event_ticks:
  "ticks (snd (SECBOOT_Diag_LogEvent h ev code data w)) =
     (if ev > SECBOOT_DIAG_ROLLBACK_ATTEMPT then ticks w else Suc (ticks w))"
  by (simp add: SECBOOT_Diag_LogEvent_def Let_def HAL_GetTick_def log_call_def)


lemma get_tick_simps [simp]:
  "fst (HAL_GetTick h w) = tick_src h (ticks w)"
  "trace (snd (HAL_GetTick h w)) = trace w"
  "ticks (snd (HAL_GetTick h w)) = Suc (ticks w)"
  by (simp_all add: HAL_GetTick_def)

lemma valid_events [simp]:
  "\<not> SECBOOT_DIAG_CRC_FAIL > SECBOOT_DIAG_ROLLBACK_ATTEMPT"
  "\<not> SECBOOT_DIAG_ROLLBACK_ATTEMPT > SECBOOT_DIAG_ROLLBACK_ATTEMPT"
  by (simp_all add: SECBOOT_DIAG_CRC_FAIL_def SECBOOT_DIAG_ROLLBACK_ATTEMPT_def)

lemma verify_inner_calls:
  "\<exists>inner. trace (snd (SECBOOT_BootManager_VerifyAppSignature h a w)) =
             trace w @ VerifyAppSignature_call a # inner \<and>
           (\<forall>c \<in> set inner. is_inner_call c)"
  by (simp add: verify_trace)

lemma jump_to_cases:
  "SECBOOT_BootManager_JumpTo h a w =
     (if ns_reset_handler_returns h
      then Returned SECBOOT_BOOTMANAGER_JUMP_FAILED (log_call (JumpTo_call a) w)
      else Transferred (log_call (JumpTo_call a) w))"
  by (simp add: SECBOOT_BootManager_JumpTo_def Let_def)

lemma log_call_simps [simp]:
  "trace (log_call c w) = trace w @ [c]"
  "ticks (log_call c w) = ticks w"
  by (simp_all add: log_call_def)

lemma filter_inner:
  "\<forall>c \<in> set inner. is_inner_call c \<Longrightarrow>
     filter is_verify_call inner = [] \<and> top_level inner = []"
proof (induction inner)
  case Nil
  then show ?case by (simp add: top_level_def)
next
  case (Cons c cs)
  then have "is_inner_call c" by simp
  then have "\<not> is_verify_call c" by (cases c) simp_all
  with Cons show ?case by (simp add: top_level_def)
qed

lemma top_level_append [simp]: "top_level (xs @ ys) = top_level xs @ top_level ys"
  by (simp add: top_level_def)

lemma top_level_Cons [simp]:
  "top_level (c # cs) = (if is_inner_call c then top_level cs else c # top_level cs)"
  by (simp add: top_level_def)

lemma top_level_Nil [simp]: "top_level [] = []"
  by (simp add: top_level_def)

lemma recovery_state_facts:
  "trace (recovery_state h status w) =
     trace w @ [LogEvent_call SECBOOT_DIAG_CRC_FAIL (crc_status_code status) (tick_src h (ticks w)),
                LogEvent_call SECBOOT_DIAG_ROLLBACK_ATTEMPT ROLLBACK_NORMAL_RECOVERY
                  (tick_src h (ticks w + 2))]"
  "ticks (recovery_state h status w) = ticks w + 4"
  by (simp_all add: recovery_state_def Let_def log_event_trace log_event_ticks)

lemma try_recovery_unfold:
  "try_recovery_from_backup h w =
     (let w1 = snd (SECBOOT_Diag_LogEvent h SECBOOT_DIAG_ROLLBACK_ATTEMPT
                      ROLLBACK_NORMAL_RECOVERY (fst (HAL_GetTick h w)) (snd (HAL_GetTick h w)));
          v = SECBOOT_BootManager_VerifyAppSignature h SECBOOT_BACKUP_IMAGE_ADDR w1
      in if fst v \<noteq> SECBOOT_BOOTMANAGER_OK
         then Halted (log_call Lockdown
                (snd (SECBOOT_Diag_LogEvent h SECBOOT_DIAG_ROLLBACK_ATTEMPT
                        SIG_FAIL_BACKUP_IMAGE 0 (snd v))))
         else if ns_reset_handler_returns h
         then Halted (log_call Lockdown
                (snd (SECBOOT_Diag_LogEvent h SECBOOT_DIAG_ROLLBACK_ATTEMPT ROOLBACK_JUMP_FAILED
                        (tick_src h (ticks (snd v)))
                        (snd (HAL_GetTick h (log_call (JumpTo_call SECBOOT_BACKUP_IMAGE_ADDR) (snd v)))))))
         else Transferred (log_call (JumpTo_call SECBOOT_BACKUP_IMAGE_ADDR) (snd v)))"
  by (subst try_recovery_from_backup.simps)
     (simp add: Let_def jump_to_cases system_lockdown_def)

lemma handle_crc_mismatch_unfold:
  "SECBOOT_Diag_HandleCrcFail h SECBOOT_CRC_MISMATCH w =
     (let v = SECBOOT_BootManager_VerifyAppSignature h SECBOOT_BACKUP_IMAGE_ADDR
                (recovery_state h SECBOOT_CRC_MISMATCH w)
      in if fst v \<noteq> SECBOOT_BOOTMANAGER_OK
         then Halted (log_call Lockdown
                (snd (SECBOOT_Diag_LogEvent h SECBOOT_DIAG_ROLLBACK_ATTEMPT
                        SIG_FAIL_BACKUP_IMAGE 0 (snd v))))
         else if ns_reset_handler_returns h
         then Halted (log_call Lockdown
                (snd (SECBOOT_Diag_LogEvent h SECBOOT_DIAG_ROLLBACK_ATTEMPT ROOLBACK_JUMP_FAILED
                        (tick_src h (ticks (snd v)))
                        (snd (HAL_GetTick h (log_call (JumpTo_call SECBOOT_BACKUP_IMAGE_ADDR) (snd v)))))))
         else Transferred (log_call (JumpTo_call SECBOOT_BACKUP_IMAGE_ADDR) (snd v)))"
  by (simp add: SECBOOT_Diag_HandleCrcFail_def response_for_crc_def try_recovery_unfold
        recovery_state_def Let_def)

section \<open>Log entries in flash\<close>

lemma unat_offset_diff:
  fixes b :: "32 word"
  assumes "j < 2 ^ 31" "k < 2 ^ 31"
  shows "unat ((b + of_nat j) - (b + of_nat k)) = (if k \<le> j then j - k else 2 ^ 32 + j - k)"
proof -
  have e: "(b + of_nat j) - (b + of_nat k) = (of_nat j :: 32 word) - of_nat k"
    by simp
  have uj: "unat (of_nat j :: 32 word) = j" and uk: "unat (of_nat k :: 32 word) = k"
    using assms by (simp_all add: unat_of_nat)
  show ?thesis
    unfolding e using uj uk assms
    by (auto simp add: unat_sub_if')
qed

lemma write_bytes_apply:
  "length bs < 2 ^ 32 \<Longrightarrow>
   write_bytes m a bs x = (if unat (x - a) < length bs then bs ! unat (x - a) else m x)"
proof (induction bs arbitrary: m a)
  case Nil
  then show ?case by simp
next
  case (Cons b bs)
  have IH: "write_bytes (m(a := b)) (a + 1) bs x =
              (if unat (x - (a + 1)) < length bs then bs ! unat (x - (a + 1)) else (m(a := b)) x)"
    using Cons.prems by (intro Cons.IH) simp
  show ?case
  proof (cases "x = a")
    case True
    have "a - (a + 1) = (- 1 :: 32 word)" by simp
    moreover have "(- 1 :: 32 word) = 4294967295" by simp
    moreover have "unat (4294967295 :: 32 word) = 2 ^ 32 - 1" by simp
    ultimately have "unat (a - (a + 1)) = 2 ^ 32 - 1"
      by (simp only:)
    then have "\<not> unat (a - (a + 1)) < length bs"
      using Cons.prems by simp
    then show ?thesis using True IH by simp
  next
    case False
    then have nz: "x - a \<noteq> 0" by simp
    have "x - (a + 1) = x - a - 1"
      by (simp only: diff_diff_eq)
    then have u: "unat (x - (a + 1)) = unat (x - a) - 1"
      using unat_minus_one [OF nz] by (simp only:)
    have p: "0 < unat (x - a)"
      using nz by (simp add: unat_gt_0)
    show ?thesis
      using False IH u p by (cases "unat (x - a)") auto
  qed
qed


lemma write_bytes_append:
  "write_bytes m a (xs @ ys) = write_bytes (write_bytes m a xs) (a + of_nat (length xs)) ys"
  by (induction xs arbitrary: m a) (simp_all add: add.assoc)

lemma read_write_same:
  assumes "length bs < 2 ^ 32" "n \<le> length bs"
  shows "read_bytes (write_bytes m a bs) a n = take n bs"
proof (rule nth_equalityI)
  show "length (read_bytes (write_bytes m a bs) a n) = length (take n bs)"
    using assms by simp
next
  fix i assume "i < length (read_bytes (write_bytes m a bs) a n)"
  then have i: "i < n" by simp
  then have u: "unat (of_nat i :: 32 word) = i"
    using assms by (simp add: unat_of_nat)
  have "read_bytes (write_bytes m a bs) a n ! i = write_bytes m a bs (a + of_nat i)"
    using i by (rule nth_read_bytes)
  also have "\<dots> = bs ! i"
    using assms i u by (simp add: write_bytes_apply)
  finally show "read_bytes (write_bytes m a bs) a n ! i = take n bs ! i"
    using i by simp
qed

lemma read_erased:
  "(\<And>j. j < n \<Longrightarrow> m (a + of_nat j) = 0xFF) \<Longrightarrow> read_bytes m a n = replicate n 0xFF"
  by (rule nth_equalityI) (simp_all add: nth_read_bytes)

lemma program_entry_sim_erased:
  assumes "length pData = 64"
  shows "i \<le> 8 \<Longrightarrow> (\<And>j. 8 * i \<le> j \<Longrightarrow> j < 64 \<Longrightarrow> m (a + of_nat j) = 0xFF) \<Longrightarrow>
         program_entry sim_hal a pData i m
           = (True, write_bytes m (a + of_nat (8 * i)) (drop (8 * i) pData))"
proof (induction "8 - i" arbitrary: i m)
  case 0
  then have "i = 8" by simp
  then show ?case
    using assms by (subst program_entry.simps) (simp add: SECBOOT_DIAG_LOG_SIZE_def)
next
  case (Suc d)
  then have i: "i < 8" by simp
  let ?chunk = "take 8 (drop (i * 8) pData)"
  let ?m' = "write_bytes m (a + of_nat (i * 8)) ?chunk"
  have lc: "length ?chunk = 8" using assms i by simp
  have er: "read_bytes m (a + of_nat (i * 8)) 8 = replicate 8 0xFF"
  proof (rule read_erased)
    fix j :: nat assume "j < 8"
    then have "m (a + of_nat (i * 8 + j)) = 0xFF"
      using i by (intro Suc.prems) simp_all
    then show "m (a + of_nat (i * 8) + of_nat j) = 0xFF"
      by (simp add: add.assoc)
  qed
  have "flash_program sim_hal = sim_flash_program"
    by (simp add: sim_hal_def)
  then have fp: "flash_program sim_hal m (a + of_nat (i * 8)) ?chunk = (HAL_OK, ?m')"
    by (simp add: sim_flash_program_def er del: of_nat_mult of_nat_add)
  have step: "program_entry sim_hal a pData i m = program_entry sim_hal a pData (Suc i) ?m'"
    using i by (subst program_entry.simps)
      (simp add: SECBOOT_DIAG_LOG_SIZE_def fp Let_def del: of_nat_mult of_nat_add)
  have rest: "program_entry sim_hal a pData (Suc i) ?m'
                = (True, write_bytes ?m' (a + of_nat (8 * Suc i)) (drop (8 * Suc i) pData))"
  proof (rule Suc.hyps(1))
    show "d = 8 - Suc i" using Suc.hyps(2) by simp
    show "Suc i \<le> 8" using i by simp
    fix j :: nat assume j: "8 * Suc i \<le> j" "j < 64"
    have u: "unat ((a + of_nat j) - (a + of_nat (i * 8))) = j - i * 8"
      using j i by (subst unat_offset_diff) simp_all
    have nlt: "\<not> j - i * 8 < 8" using j by simp
    have "?m' (a + of_nat j) =
            (if unat ((a + of_nat j) - (a + of_nat (i * 8))) < length ?chunk
             then ?chunk ! unat ((a + of_nat j) - (a + of_nat (i * 8)))
             else m (a + of_nat j))"
      by (rule write_bytes_apply) (simp only: lc, simp)
    then have "?m' (a + of_nat j) = m (a + of_nat j)"
      by (simp only: u lc nlt if_False)
    also have "\<dots> = 0xFF" using j by (intro Suc.prems) simp_all
    finally show "?m' (a + of_nat j) = 0xFF" .
  qed
  have c: "i * 8 = 8 * i" by simp
  have d: "drop (8 * Suc i) pData = drop 8 (drop (8 * i) pData)"
    by simp
  have sp: "drop (8 * i) pData = ?chunk @ drop (8 * Suc i) pData"
    by (simp only: c d append_take_drop_id)
  have "write_bytes m (a + of_nat (8 * i)) (drop (8 * i) pData)
          = write_bytes m (a + of_nat (8 * i)) (?chunk @ drop (8 * Suc i) pData)"
    by (rule arg_cong [OF sp])
  also have "\<dots> = write_bytes (write_bytes m (a + of_nat (8 * i)) ?chunk)
                       (a + of_nat (8 * i) + of_nat (length ?chunk)) (drop (8 * Suc i) pData)"
    by (rule write_bytes_append)
  also have "\<dots> = write_bytes ?m' (a + of_nat (8 * Suc i)) (drop (8 * Suc i) pData)"
    using assms i by (simp add: ac_simps)
  finally have "write_bytes ?m' (a + of_nat (8 * Suc i)) (drop (8 * Suc i) pData)
          = write_bytes m (a + of_nat (8 * i)) (drop (8 * i) pData)"
    by (rule sym)
  with step rest show ?case by simp
qed

lemma sim_flash_takes_entry:
  assumes "\<And>j. j < 64 \<Longrightarrow> mem w (next_slot w + of_nat j) = 0xFF"
  shows "flash_takes_entry sim_hal e w"
    and "program_entry sim_hal (next_slot w) (pData_bytes sim_hal e) 0 (mem w)
           = (True, write_bytes (mem w) (next_slot w) (pData_bytes sim_hal e))"
proof -
  have l: "length (pData_bytes sim_hal e) = 64"
    by (simp add: pData_bytes_def)
  show p: "program_entry sim_hal (next_slot w) (pData_bytes sim_hal e) 0 (mem w)
           = (True, write_bytes (mem w) (next_slot w) (pData_bytes sim_hal e))"
    using program_entry_sim_erased [OF l, of 0 "mem w" "next_slot w"] assms by simp
  have "read_bytes (mem w) (next_slot w) 4 =
          [mem w (next_slot w + of_nat 0), mem w (next_slot w + of_nat 1),
           mem w (next_slot w + of_nat 2), mem w (next_slot w + of_nat 3)]"
    by (simp add: numeral_eq_Suc add.assoc)
  also have "\<dots> = [0xFF, 0xFF, 0xFF, 0xFF]"
    by (simp only: assms [of 0] assms [of 1] assms [of 2] assms [of 3])
  finally have e: "load32 (mem w) (next_slot w) = 0xFFFFFFFF"
    by (simp add: load32_def le32_def)
  have rb: "read_bytes (write_bytes (mem w) (next_slot w) (pData_bytes sim_hal e))
              (next_slot w) sizeof_entry = entry_bytes sim_hal e"
    using l by (subst read_write_same) (simp_all add: sizeof_entry_def pData_bytes_def)
  show "flash_takes_entry sim_hal e w"
    by (simp add: flash_takes_entry_def e p rb)
qed


lemma next_slot_of_nat:
  "log_index w = of_nat k \<Longrightarrow> next_slot w = SECBOOT_DIAG_LOG_BASE + of_nat (64 * k)"
  by (simp add: next_slot_def log_slot_addr_def SECBOOT_DIAG_LOG_SIZE_def)

lemma index_mod_step:
  "k < 15 \<Longrightarrow> ((of_nat k :: 32 word) + 1) mod SECBOOT_DIAG_MAX_LOGS = of_nat (Suc k)"
proof -
  assume k: "k < 15"
  have u: "unat (of_nat (Suc k) :: 32 word) = Suc k"
    using k by (simp only: unat_of_nat) simp
  have "unat ((of_nat (Suc k) :: 32 word) mod 16) = unat (of_nat (Suc k) :: 32 word)"
    unfolding unat_mod u using k by simp
  then have "(of_nat (Suc k) :: 32 word) mod 16 = of_nat (Suc k)"
    by (simp only: word_unat_eq_iff)
  then show ?thesis
    by (simp add: SECBOOT_DIAG_MAX_LOGS_def add.commute)
qed

lemma sim_log_event_step:
  assumes ev: "ev \<le> SECBOOT_DIAG_ROLLBACK_ATTEMPT"
      and k: "k < 15"
      and ix: "log_index w = of_nat k"
      and er0: "\<forall>j. 64 * k \<le> j \<and> j < 1024 \<longrightarrow> mem w (SECBOOT_DIAG_LOG_BASE + of_nat j) = 0xFF"
  shows "log_index (snd (SECBOOT_Diag_LogEvent sim_hal ev code data w)) = of_nat (Suc k)"
    and "\<And>j. 64 * Suc k \<le> j \<Longrightarrow> j < 1024 \<Longrightarrow>
           mem (snd (SECBOOT_Diag_LogEvent sim_hal ev code data w))
             (SECBOOT_DIAG_LOG_BASE + of_nat j) = 0xFF"
    and "\<And>x. \<not> unat (x - SECBOOT_DIAG_LOG_BASE) < 1024 \<Longrightarrow>
           mem (snd (SECBOOT_Diag_LogEvent sim_hal ev code data w)) x = mem w x"
    and "\<And>x. \<not> unat (x - next_slot w) < 64 \<Longrightarrow>
           mem (snd (SECBOOT_Diag_LogEvent sim_hal ev code data w)) x = mem w x"
    and "flash_takes_entry sim_hal (prepared_entry sim_hal ev code data w) w"
proof -
  from er0 have er: "\<And>j. 64 * k \<le> j \<Longrightarrow> j < 1024 \<Longrightarrow> mem w (SECBOOT_DIAG_LOG_BASE + of_nat j) = 0xFF"
    by simp
  let ?e = "prepared_entry sim_hal ev code data w"
  let ?p = "pData_bytes sim_hal ?e"
  let ?L = "SECBOOT_Diag_LogEvent sim_hal ev code data w"
  note ns = next_slot_of_nat [OF ix]
  have lp: "length ?p = 64" by (simp add: pData_bytes_def)
  have slot: "mem w (next_slot w + of_nat j) = 0xFF" if "j < 64" for j
  proof -
    have "mem w (SECBOOT_DIAG_LOG_BASE + of_nat (64 * k + j)) = 0xFF"
      using that k by (intro er) simp_all
    then show ?thesis by (simp add: ns add.assoc)
  qed
  note t = sim_flash_takes_entry [of w ?e, OF slot]
  from t(1) have e: "load32 (mem w) (next_slot w) = 0xFFFFFFFF"
    by (simp add: flash_takes_entry_def)
  have m: "mem (snd ?L) = write_bytes (mem w) (next_slot w) ?p"
    by (simp add: log_event_programs [OF ev e] Let_def t(2))
  show "log_index (snd ?L) = of_nat (Suc k)"
    using index_mod_step [OF k]
    by (simp add: log_event_programs [OF ev e] Let_def t(2) after_tick_def ix)
  have wa: "mem (snd ?L) x =
              (if unat (x - next_slot w) < 64 then ?p ! unat (x - next_slot w) else mem w x)" for x
    unfolding m using lp by (subst write_bytes_apply) simp_all
  show "mem (snd ?L) (SECBOOT_DIAG_LOG_BASE + of_nat j) = 0xFF"
    if j: "64 * Suc k \<le> j" "j < 1024" for j
  proof -
    have u: "unat ((SECBOOT_DIAG_LOG_BASE + of_nat j) - (SECBOOT_DIAG_LOG_BASE + of_nat (64 * k)))
            = j - 64 * k"
      using j k by (subst unat_offset_diff) simp_all
    have n: "\<not> j - 64 * k < 64" using j by simp
    have "\<not> unat ((SECBOOT_DIAG_LOG_BASE + of_nat j) - next_slot w) < 64"
      unfolding ns u by (rule n)
    then have "mem (snd ?L) (SECBOOT_DIAG_LOG_BASE + of_nat j)
                 = mem w (SECBOOT_DIAG_LOG_BASE + of_nat j)"
      by (simp only: wa if_False)
    also have "\<dots> = 0xFF" using j by (intro er) simp_all
    finally show ?thesis .
  qed
  show "mem (snd ?L) x = mem w x" if x: "\<not> unat (x - SECBOOT_DIAG_LOG_BASE) < 1024" for x
  proof -
    have uk: "unat (of_nat (64 * k) :: 32 word) = 64 * k"
      using k by (simp only: unat_of_nat) simp
    have le: "(of_nat (64 * k) :: 32 word) \<le> x - SECBOOT_DIAG_LOG_BASE"
      using x k uk by (simp only: word_le_nat_alt)
    have "x - next_slot w = (x - SECBOOT_DIAG_LOG_BASE) - of_nat (64 * k)"
      by (simp only: ns diff_diff_eq)
    then have "unat (x - next_slot w) = unat (x - SECBOOT_DIAG_LOG_BASE) - 64 * k"
      using unat_sub [OF le] uk by (simp only:)
    then have "\<not> unat (x - next_slot w) < 64"
      using x k by simp
    then show ?thesis by (simp only: wa if_False)
  qed
  show "mem (snd ?L) x = mem w x" if "\<not> unat (x - next_slot w) < 64" for x
    using that by (simp only: wa if_False)
  show "flash_takes_entry sim_hal ?e w"
    by (rule t(1))
qed


lemma get_tick_keeps [simp]:
  "mem (snd (HAL_GetTick h w)) = mem w"
  "log_index (snd (HAL_GetTick h w)) = log_index w"
  by (simp_all add: HAL_GetTick_def)

lemma sim_recovery_state:
  assumes k: "k < 13"
      and ix: "log_index w = of_nat k"
      and er0: "\<forall>j. 64 * k \<le> j \<and> j < 1024 \<longrightarrow> mem w (SECBOOT_DIAG_LOG_BASE + of_nat j) = 0xFF"
  shows "log_index (recovery_state sim_hal status w) = of_nat (Suc (Suc k))"
    and "\<And>j. 64 * Suc (Suc k) \<le> j \<Longrightarrow> j < 1024 \<Longrightarrow>
           mem (recovery_state sim_hal status w) (SECBOOT_DIAG_LOG_BASE + of_nat j) = 0xFF"
    and "\<And>x. \<not> unat (x - SECBOOT_DIAG_LOG_BASE) < 1024 \<Longrightarrow>
           mem (recovery_state sim_hal status w) x = mem w x"
proof -
  from er0 have er: "\<And>j. 64 * k \<le> j \<Longrightarrow> j < 1024 \<Longrightarrow> mem w (SECBOOT_DIAG_LOG_BASE + of_nat j) = 0xFF"
    by simp
  let ?t = "snd (HAL_GetTick sim_hal w)"
  let ?w1 = "snd (SECBOOT_Diag_LogEvent sim_hal SECBOOT_DIAG_CRC_FAIL (crc_status_code status)
                    (fst (HAL_GetTick sim_hal w)) ?t)"
  let ?t1 = "snd (HAL_GetTick sim_hal ?w1)"
  have rs: "recovery_state sim_hal status w =
              snd (SECBOOT_Diag_LogEvent sim_hal SECBOOT_DIAG_ROLLBACK_ATTEMPT
                     ROLLBACK_NORMAL_RECOVERY (fst (HAL_GetTick sim_hal ?w1)) ?t1)"
    by (simp add: recovery_state_def Let_def)
  have v1: "SECBOOT_DIAG_CRC_FAIL \<le> SECBOOT_DIAG_ROLLBACK_ATTEMPT"
    by (simp add: SECBOOT_DIAG_CRC_FAIL_def SECBOOT_DIAG_ROLLBACK_ATTEMPT_def)
  have v2: "SECBOOT_DIAG_ROLLBACK_ATTEMPT \<le> SECBOOT_DIAG_ROLLBACK_ATTEMPT" by simp
  have k1: "k < 15" and k2: "Suc k < 15" using k by simp_all
  have ix0: "log_index ?t = of_nat k" using ix by simp
  have e0: "\<forall>j. 64 * k \<le> j \<and> j < 1024 \<longrightarrow> mem ?t (SECBOOT_DIAG_LOG_BASE + of_nat j) = 0xFF"
    using er0 by simp
  note s1 = sim_log_event_step [OF v1 k1 ix0 e0, where code = "crc_status_code status"
                                  and data = "fst (HAL_GetTick sim_hal w)"]
  have ix1: "log_index ?t1 = of_nat (Suc k)" using s1(1) by simp
  have e1: "\<forall>j. 64 * Suc k \<le> j \<and> j < 1024 \<longrightarrow>
               mem ?t1 (SECBOOT_DIAG_LOG_BASE + of_nat j) = 0xFF"
    using s1(2) by simp
  note s2 = sim_log_event_step [OF v2 k2 ix1 e1, where code = ROLLBACK_NORMAL_RECOVERY
                                  and data = "fst (HAL_GetTick sim_hal ?w1)"]
  show "log_index (recovery_state sim_hal status w) = of_nat (Suc (Suc k))"
    unfolding rs by (rule s2(1))
  show "mem (recovery_state sim_hal status w) (SECBOOT_DIAG_LOG_BASE + of_nat j) = 0xFF"
    if "64 * Suc (Suc k) \<le> j" "j < 1024" for j
    unfolding rs using that by (rule s2(2))
  show "mem (recovery_state sim_hal status w) x = mem w x"
    if x: "\<not> unat (x - SECBOOT_DIAG_LOG_BASE) < 1024" for x
  proof -
    have "mem (recovery_state sim_hal status w) x = mem ?t1 x"
      unfolding rs using x by (rule s2(3))
    also have "\<dots> = mem ?t x"
      using s1(3) [OF x] by simp
    finally show ?thesis by simp
  qed
qed

lemma backup_header_outside_log:
  "\<not> unat (SECBOOT_BACKUP_IMAGE_ADDR - SECBOOT_DIAG_LOG_BASE) < 1024"
  "\<not> unat (SECBOOT_BACKUP_IMAGE_ADDR + 1 - SECBOOT_DIAG_LOG_BASE) < 1024"
  "\<not> unat (SECBOOT_BACKUP_IMAGE_ADDR + 2 - SECBOOT_DIAG_LOG_BASE) < 1024"
  "\<not> unat (SECBOOT_BACKUP_IMAGE_ADDR + 3 - SECBOOT_DIAG_LOG_BASE) < 1024"
  by (simp_all add: SECBOOT_BACKUP_IMAGE_ADDR_def SECBOOT_DIAG_LOG_BASE_def)

lemma magic_bytes:
  "hdr_magicNumber m a = le32 [m a, m (a + 1), m (a + 2), m (a + 3)]"
  by (simp add: hdr_magicNumber_def load32_def numeral_eq_Suc add.assoc)

lemma sim_backup_failure_on_erased_log:
  assumes k: "k < 13"
      and ix: "log_index w = of_nat k"
      and er0: "\<forall>j. 64 * k \<le> j \<and> j < 1024 \<longrightarrow> mem w (SECBOOT_DIAG_LOG_BASE + of_nat j) = 0xFF"
      and mg: "hdr_magicNumber (mem w) SECBOOT_BACKUP_IMAGE_ADDR \<noteq> FW_MAGIC_NUMBER"
  shows "fst (backup_verification sim_hal w) \<noteq> SECBOOT_BOOTMANAGER_OK"
    and "flash_takes_entry sim_hal (backup_failure_entry sim_hal w)
           (snd (backup_verification sim_hal w))"
    and "log_index (snd (backup_verification sim_hal w)) = of_nat (Suc (Suc k))"
proof -
  from er0 have er: "\<And>j. 64 * k \<le> j \<Longrightarrow> j < 1024 \<Longrightarrow> mem w (SECBOOT_DIAG_LOG_BASE + of_nat j) = 0xFF"
    by simp
  let ?ws = "recovery_state sim_hal SECBOOT_CRC_MISMATCH w"
  note r = sim_recovery_state [OF k ix er0, where status = SECBOOT_CRC_MISMATCH]
  have "hdr_magicNumber (mem ?ws) SECBOOT_BACKUP_IMAGE_ADDR
          = hdr_magicNumber (mem w) SECBOOT_BACKUP_IMAGE_ADDR"
    by (simp only: magic_bytes r(3) [OF backup_header_outside_log(1)]
          r(3) [OF backup_header_outside_log(2)] r(3) [OF backup_header_outside_log(3)]
          r(3) [OF backup_header_outside_log(4)])
  with mg have m: "hdr_magicNumber (mem ?ws) SECBOOT_BACKUP_IMAGE_ADDR \<noteq> FW_MAGIC_NUMBER"
    by simp
  then have st: "fst (backup_verification sim_hal w) = SECBOOT_BOOTMANAGER_INVALID_HEADER"
    by (simp add: backup_verification_def verify_status)
  then show f: "fst (backup_verification sim_hal w) \<noteq> SECBOOT_BOOTMANAGER_OK"
    by simp
  have me: "mem (snd (backup_verification sim_hal w)) = mem ?ws"
    using f by (simp add: backup_verification_def verify_mem)
  show li: "log_index (snd (backup_verification sim_hal w)) = of_nat (Suc (Suc k))"
    by (simp add: backup_verification_def verify_other r(1))
  show "flash_takes_entry sim_hal (backup_failure_entry sim_hal w)
           (snd (backup_verification sim_hal w))"
  proof (rule sim_flash_takes_entry(1))
    fix j :: nat assume j: "j < 64"
    have "mem ?ws (SECBOOT_DIAG_LOG_BASE + of_nat (64 * Suc (Suc k) + j)) = 0xFF"
      using j k by (intro r(2)) simp_all
    then show "mem (snd (backup_verification sim_hal w))
                 (next_slot (snd (backup_verification sim_hal w)) + of_nat j) = 0xFF"
      unfolding me next_slot_of_nat [OF li] by (simp add: add.assoc)
  qed
qed

lemma fields_of_entry_bytes:
  "event (entry_of_bytes (entry_bytes h e)) = le32 (bytes_of_u32 (event e))"
  "error_code (entry_of_bytes (entry_bytes h e)) = error_code e"
  "context_data (entry_of_bytes (entry_bytes h e)) = le32 (bytes_of_u32 (context_data e))"
  by (simp_all add: entry_of_bytes_def entry_bytes_def bytes_of_u32_def nth_append)

lemma le32_rollback_attempt:
  "le32 (bytes_of_u32 SECBOOT_DIAG_ROLLBACK_ATTEMPT) = SECBOOT_DIAG_ROLLBACK_ATTEMPT"
  by (simp add: le32_def bytes_of_u32_def SECBOOT_DIAG_ROLLBACK_ATTEMPT_def)

lemma log_event_stored_fields:
  assumes v: "ev \<le> SECBOOT_DIAG_ROLLBACK_ATTEMPT"
      and t: "flash_takes_entry h (prepared_entry h ev code data w) w"
  shows "stored_entry (mem (snd (SECBOOT_Diag_LogEvent h ev code data w))) (next_slot w)
           = entry_of_bytes (entry_bytes h (prepared_entry h ev code data w))"
    and "log_index (snd (SECBOOT_Diag_LogEvent h ev code data w))
           = (log_index w + 1) mod SECBOOT_DIAG_MAX_LOGS"
proof -
  let ?e = "prepared_entry h ev code data w"
  let ?r = "program_entry h (next_slot w) (pData_bytes h ?e) 0 (mem w)"
  from t have e: "load32 (mem w) (next_slot w) = 0xFFFFFFFF" and p: "fst ?r"
      and rb: "read_bytes (snd ?r) (next_slot w) sizeof_entry = entry_bytes h ?e"
    by (simp_all add: flash_takes_entry_def)
  have m: "mem (snd (SECBOOT_Diag_LogEvent h ev code data w)) = snd ?r"
    using p by (simp add: log_event_programs [OF v e] Let_def)
  show "stored_entry (mem (snd (SECBOOT_Diag_LogEvent h ev code data w))) (next_slot w)
          = entry_of_bytes (entry_bytes h ?e)"
    unfolding m stored_entry_def rb ..
  show "log_index (snd (SECBOOT_Diag_LogEvent h ev code data w))
          = (log_index w + 1) mod SECBOOT_DIAG_MAX_LOGS"
    using p by (simp add: log_event_programs [OF v e] Let_def after_tick_def)
qed

lemma backup_failure_entry_stored:
  assumes f: "fst (backup_verification h w) \<noteq> SECBOOT_BOOTMANAGER_OK"
      and t: "flash_takes_entry h (backup_failure_entry h w) (snd (backup_verification h w))"
  shows "stored_entry (mem (final_world (SECBOOT_Diag_HandleCrcFail h SECBOOT_CRC_MISMATCH w)))
           (next_slot (snd (backup_verification h w)))
           = entry_of_bytes (entry_bytes h (backup_failure_entry h w))"
    and "log_index (final_world (SECBOOT_Diag_HandleCrcFail h SECBOOT_CRC_MISMATCH w))
           = (log_index (snd (backup_verification h w)) + 1) mod SECBOOT_DIAG_MAX_LOGS"
proof -
  let ?w3 = "snd (backup_verification h w)"
  let ?L = "SECBOOT_Diag_LogEvent h SECBOOT_DIAG_ROLLBACK_ATTEMPT SIG_FAIL_BACKUP_IMAGE 0 ?w3"
  have r: "SECBOOT_Diag_HandleCrcFail h SECBOOT_CRC_MISMATCH w = Halted (log_call Lockdown (snd ?L))"
    using f by (simp add: handle_crc_mismatch_unfold Let_def backup_verification_def)
  have fw: "mem (final_world (SECBOOT_Diag_HandleCrcFail h SECBOOT_CRC_MISMATCH w)) = mem (snd ?L)"
           "log_index (final_world (SECBOOT_Diag_HandleCrcFail h SECBOOT_CRC_MISMATCH w))
              = log_index (snd ?L)"
    unfolding r by (simp_all add: log_call_def)
  have v: "SECBOOT_DIAG_ROLLBACK_ATTEMPT \<le> SECBOOT_DIAG_ROLLBACK_ATTEMPT" by simp
  from t have t': "flash_takes_entry h
                     (prepared_entry h SECBOOT_DIAG_ROLLBACK_ATTEMPT SIG_FAIL_BACKUP_IMAGE 0 ?w3) ?w3"
    by (simp add: backup_failure_entry_def)
  note s = log_event_stored_fields [OF v t']
  show "stored_entry (mem (final_world (SECBOOT_Diag_HandleCrcFail h SECBOOT_CRC_MISMATCH w)))
           (next_slot ?w3) = entry_of_bytes (entry_bytes h (backup_failure_entry h w))"
    unfolding fw s backup_failure_entry_def ..
  show "log_index (final_world (SECBOOT_Diag_HandleCrcFail h SECBOOT_CRC_MISMATCH w))
           = (log_index ?w3 + 1) mod SECBOOT_DIAG_MAX_LOGS"
    unfolding fw s ..
qed

lemma backup_failure_entry_fields:
  "event (entry_of_bytes (entry_bytes h (backup_failure_entry h w))) = SECBOOT_DIAG_ROLLBACK_ATTEMPT"
  "error_code (entry_of_bytes (entry_bytes h (backup_failure_entry h w))) = SIG_FAIL_BACKUP_IMAGE"
  "context_data (entry_of_bytes (entry_bytes h (backup_failure_entry h w))) = 0"
  by (simp_all add: fields_of_entry_bytes le32_rollback_attempt le32_zero
        backup_failure_entry_def prepared_entry_def)

lemma log_index_cases:
  "log_index (snd (SECBOOT_Diag_LogEvent h ev code data w)) = log_index w \<or>
   log_index (snd (SECBOOT_Diag_LogEvent h ev code data w))
     = (log_index w + 1) mod SECBOOT_DIAG_MAX_LOGS"
proof (cases "ev \<le> SECBOOT_DIAG_ROLLBACK_ATTEMPT")
  case False
  then show ?thesis by (simp add: log_event_invalid log_call_def)
next
  case v: True
  show ?thesis
  proof (cases "load32 (mem w) (next_slot w) = 0xFFFFFFFF")
    case True
    show ?thesis by (simp add: log_event_programs [OF v True] Let_def after_tick_def)
  next
    case False
    show ?thesis by (simp add: log_event_guard [OF v False] after_tick_def)
  qed
qed

lemma unat_index_step:
  "unat ((i + 1) mod SECBOOT_DIAG_MAX_LOGS) = Suc (unat (i :: 32 word)) mod 16"
proof -
  have "unat (i + 1) = Suc (unat i) mod 2 ^ 32"
    by (simp add: unat_word_ariths)
  then have "unat ((i + 1) mod 16) = (Suc (unat i) mod 2 ^ 32) mod 16"
    by (simp add: unat_mod)
  also have "\<dots> = Suc (unat i) mod 16"
    by (rule mod_mod_cancel) simp
  finally show ?thesis by (simp add: SECBOOT_DIAG_MAX_LOGS_def)
qed

lemma slot_offset_mod:
  "unat (log_slot_addr i - SECBOOT_DIAG_LOG_BASE) mod 1024 = 64 * (unat i mod 16)"
proof -
  have "unat (log_slot_addr i - SECBOOT_DIAG_LOG_BASE) = (unat i * 64) mod 2 ^ 32"
    by (simp add: log_slot_addr_def SECBOOT_DIAG_LOG_SIZE_def unat_word_ariths)
  then have "unat (log_slot_addr i - SECBOOT_DIAG_LOG_BASE) mod 1024
               = ((unat i * 64) mod 2 ^ 32) mod 1024"
    by simp
  also have "\<dots> = (unat i * 64) mod 1024"
    by (rule mod_mod_cancel) simp
  also have "\<dots> = 64 * (unat i mod 16)"
    by (simp add: mult_mod_right mult.commute)
  finally show ?thesis .
qed

lemma slot_distinct:
  assumes "j = (i + 1) mod SECBOOT_DIAG_MAX_LOGS \<or>
           j = ((i + 1) mod SECBOOT_DIAG_MAX_LOGS + 1) mod SECBOOT_DIAG_MAX_LOGS"
  shows "log_slot_addr j \<noteq> log_slot_addr i"
proof
  assume "log_slot_addr j = log_slot_addr i"
  then have "64 * (unat j mod 16) = 64 * (unat i mod 16)"
    by (simp only: slot_offset_mod [symmetric])
  then have e: "unat j mod 16 = unat i mod 16" by simp
  define r where "r = unat i mod 16"
  have r: "r < 16" by (simp add: r_def)
  have s: "Suc (unat i) mod 16 = (if r = 15 then 0 else Suc r)"
    by (simp add: mod_Suc r_def)
  from assms have "unat j = Suc (unat i) mod 16 \<or> unat j = Suc (Suc (unat i) mod 16) mod 16"
    by (auto simp only: unat_index_step)
  then have "unat j = (if r = 15 then 0 else Suc r) \<or>
             unat j = Suc (if r = 15 then 0 else Suc r) mod 16"
    by (simp only: s)
  moreover from e have "unat j mod 16 = r" by (simp only: r_def)
  ultimately show False
    using r by (auto simp add: mod_Suc split: if_splits)
qed

lemma backup_failure_slot_distinct:
  assumes t: "flash_takes_entry h (crc_failure_entry h w) (snd (HAL_GetTick h w))"
  shows "next_slot (snd (backup_verification h w)) \<noteq> next_slot w"
proof -
  let ?t = "snd (HAL_GetTick h w)"
  let ?w1 = "snd (SECBOOT_Diag_LogEvent h SECBOOT_DIAG_CRC_FAIL (crc_status_code SECBOOT_CRC_MISMATCH)
                    (fst (HAL_GetTick h w)) ?t)"
  let ?t1 = "snd (HAL_GetTick h ?w1)"
  let ?w2 = "snd (SECBOOT_Diag_LogEvent h SECBOOT_DIAG_ROLLBACK_ATTEMPT ROLLBACK_NORMAL_RECOVERY
                    (fst (HAL_GetTick h ?w1)) ?t1)"
  have v1: "SECBOOT_DIAG_CRC_FAIL \<le> SECBOOT_DIAG_ROLLBACK_ATTEMPT"
    by (simp add: SECBOOT_DIAG_CRC_FAIL_def SECBOOT_DIAG_ROLLBACK_ATTEMPT_def)
  from t have t': "flash_takes_entry h
                     (prepared_entry h SECBOOT_DIAG_CRC_FAIL (crc_status_code SECBOOT_CRC_MISMATCH)
                        (fst (HAL_GetTick h w)) ?t) ?t"
    by (simp only: crc_failure_entry_def)
  have i1: "log_index ?t1 = (log_index w + 1) mod SECBOOT_DIAG_MAX_LOGS"
    unfolding get_tick_keeps log_event_stored_fields(2) [OF v1 t'] ..
  have "log_index ?w2 = log_index ?t1 \<or> log_index ?w2 = (log_index ?t1 + 1) mod SECBOOT_DIAG_MAX_LOGS"
    by (rule log_index_cases)
  then have i2: "log_index ?w2 = (log_index w + 1) mod SECBOOT_DIAG_MAX_LOGS \<or>
                 log_index ?w2 = ((log_index w + 1) mod SECBOOT_DIAG_MAX_LOGS + 1) mod SECBOOT_DIAG_MAX_LOGS"
    unfolding i1 .
  have "log_index (snd (backup_verification h w)) = log_index ?w2"
    by (simp add: backup_verification_def verify_other recovery_state_def Let_def)
  with i2 show ?thesis
    unfolding next_slot_def by (intro slot_distinct) simp
qed


lemma le32_crc_fail:
  "le32 (bytes_of_u32 SECBOOT_DIAG_CRC_FAIL) = SECBOOT_DIAG_CRC_FAIL"
  by (simp add: le32_def bytes_of_u32_def SECBOOT_DIAG_CRC_FAIL_def)

lemma crc_failure_entry_fields:
  "event (entry_of_bytes (entry_bytes h (crc_failure_entry h w))) = SECBOOT_DIAG_CRC_FAIL"
  "error_code (entry_of_bytes (entry_bytes h (crc_failure_entry h w))) = 4"
  by (simp_all add: fields_of_entry_bytes le32_crc_fail crc_failure_entry_def prepared_entry_def)

lemma sim_first_entry_kept:
  assumes k: "k < 13"
      and ix: "log_index w = of_nat k"
      and er0: "\<forall>j. 64 * k \<le> j \<and> j < 1024 \<longrightarrow> mem w (SECBOOT_DIAG_LOG_BASE + of_nat j) = 0xFF"
      and mg: "hdr_magicNumber (mem w) SECBOOT_BACKUP_IMAGE_ADDR \<noteq> FW_MAGIC_NUMBER"
  shows "stored_entry (mem (final_world (SECBOOT_Diag_HandleCrcFail sim_hal SECBOOT_CRC_MISMATCH w)))
           (next_slot w) = entry_of_bytes (entry_bytes sim_hal (crc_failure_entry sim_hal w))"
    and "flash_takes_entry sim_hal (crc_failure_entry sim_hal w) (snd (HAL_GetTick sim_hal w))"
proof -
  let ?t = "snd (HAL_GetTick sim_hal w)"
  let ?w1 = "snd (SECBOOT_Diag_LogEvent sim_hal SECBOOT_DIAG_CRC_FAIL
                    (crc_status_code SECBOOT_CRC_MISMATCH) (fst (HAL_GetTick sim_hal w)) ?t)"
  let ?t1 = "snd (HAL_GetTick sim_hal ?w1)"
  let ?w2 = "snd (SECBOOT_Diag_LogEvent sim_hal SECBOOT_DIAG_ROLLBACK_ATTEMPT
                    ROLLBACK_NORMAL_RECOVERY (fst (HAL_GetTick sim_hal ?w1)) ?t1)"
  let ?v = "backup_verification sim_hal w"
  let ?L = "SECBOOT_Diag_LogEvent sim_hal SECBOOT_DIAG_ROLLBACK_ATTEMPT SIG_FAIL_BACKUP_IMAGE 0
              (snd ?v)"
  have v1: "SECBOOT_DIAG_CRC_FAIL \<le> SECBOOT_DIAG_ROLLBACK_ATTEMPT"
    by (simp add: SECBOOT_DIAG_CRC_FAIL_def SECBOOT_DIAG_ROLLBACK_ATTEMPT_def)
  have v2: "SECBOOT_DIAG_ROLLBACK_ATTEMPT \<le> SECBOOT_DIAG_ROLLBACK_ATTEMPT" by simp
  have k1: "k < 15" and k2: "Suc k < 15" and k3: "Suc (Suc k) < 15" using k by simp_all
  have ix0: "log_index ?t = of_nat k" using ix by simp
  have e0: "\<forall>j. 64 * k \<le> j \<and> j < 1024 \<longrightarrow> mem ?t (SECBOOT_DIAG_LOG_BASE + of_nat j) = 0xFF"
    using er0 by simp
  note s1 = sim_log_event_step [OF v1 k1 ix0 e0, where code = "crc_status_code SECBOOT_CRC_MISMATCH"
                                  and data = "fst (HAL_GetTick sim_hal w)"]
  have ix1: "log_index ?t1 = of_nat (Suc k)" using s1(1) by simp
  have e1: "\<forall>j. 64 * Suc k \<le> j \<and> j < 1024 \<longrightarrow>
               mem ?t1 (SECBOOT_DIAG_LOG_BASE + of_nat j) = 0xFF"
    using s1(2) by simp
  note s2 = sim_log_event_step [OF v2 k2 ix1 e1, where code = ROLLBACK_NORMAL_RECOVERY
                                  and data = "fst (HAL_GetTick sim_hal ?w1)"]
  have ws: "recovery_state sim_hal SECBOOT_CRC_MISMATCH w = ?w2"
    by (simp add: recovery_state_def Let_def)
  note b = sim_backup_failure_on_erased_log [OF k ix er0 mg]
  have me: "mem (snd ?v) = mem ?w2"
    using b(1) by (simp add: backup_verification_def verify_mem ws)
  have e2: "\<forall>j. 64 * Suc (Suc k) \<le> j \<and> j < 1024 \<longrightarrow>
               mem (snd ?v) (SECBOOT_DIAG_LOG_BASE + of_nat j) = 0xFF"
    unfolding me using s2(2) by simp
  note s3 = sim_log_event_step [OF v2 k3 b(3) e2, where code = SIG_FAIL_BACKUP_IMAGE and data = 0]
  have r: "SECBOOT_Diag_HandleCrcFail sim_hal SECBOOT_CRC_MISMATCH w
             = Halted (log_call Lockdown (snd ?L))"
    using b(1) by (simp add: handle_crc_mismatch_unfold Let_def backup_verification_def)
  have fw: "mem (final_world (SECBOOT_Diag_HandleCrcFail sim_hal SECBOOT_CRC_MISMATCH w))
              = mem (snd ?L)"
    unfolding r by (simp add: log_call_def)
  have n0: "next_slot w = SECBOOT_DIAG_LOG_BASE + of_nat (64 * k)"
    by (rule next_slot_of_nat [OF ix])
  have n1: "next_slot ?t1 = SECBOOT_DIAG_LOG_BASE + of_nat (64 * Suc k)"
    by (rule next_slot_of_nat [OF ix1])
  have n2: "next_slot (snd ?v) = SECBOOT_DIAG_LOG_BASE + of_nat (64 * Suc (Suc k))"
    by (rule next_slot_of_nat [OF b(3)])
  have same: "mem (snd ?L) (next_slot w + of_nat i) = mem ?w1 (next_slot w + of_nat i)"
    if i: "i < sizeof_entry" for i
  proof -
    have i': "i < 20" using i by (simp add: sizeof_entry_def)
    have x: "next_slot w + of_nat i = SECBOOT_DIAG_LOG_BASE + of_nat (64 * k + i)"
      unfolding n0 by (simp add: add.assoc)
    have o1: "\<not> unat (next_slot w + of_nat i - next_slot ?t1) < 64"
      unfolding x n1 using i' k by (subst unat_offset_diff) simp_all
    have o2: "\<not> unat (next_slot w + of_nat i - next_slot (snd ?v)) < 64"
      unfolding x n2 using i' k by (subst unat_offset_diff) simp_all
    have "mem (snd ?L) (next_slot w + of_nat i) = mem (snd ?v) (next_slot w + of_nat i)"
      by (rule s3(4) [OF o2])
    also have "\<dots> = mem ?t1 (next_slot w + of_nat i)"
      unfolding me by (rule s2(4) [OF o1])
    finally show ?thesis by simp
  qed
  have t0: "flash_takes_entry sim_hal
              (prepared_entry sim_hal SECBOOT_DIAG_CRC_FAIL (crc_status_code SECBOOT_CRC_MISMATCH)
                 (fst (HAL_GetTick sim_hal w)) ?t) ?t"
    by (rule s1(5))
  then show "flash_takes_entry sim_hal (crc_failure_entry sim_hal w) ?t"
    by (simp only: crc_failure_entry_def)
  have nt: "next_slot ?t = next_slot w"
    by (simp add: next_slot_def)
  have "stored_entry (mem ?w1) (next_slot w)
          = entry_of_bytes (entry_bytes sim_hal (crc_failure_entry sim_hal w))"
    using log_event_stored_fields(1) [OF v1 t0] unfolding nt crc_failure_entry_def .
  moreover have "read_bytes (mem (snd ?L)) (next_slot w) sizeof_entry
                   = read_bytes (mem ?w1) (next_slot w) sizeof_entry"
    by (rule read_bytes_cong) (rule same)
  ultimately show "stored_entry (mem (final_world (SECBOOT_Diag_HandleCrcFail sim_hal
                                   SECBOOT_CRC_MISMATCH w))) (next_slot w)
                     = entry_of_bytes (entry_bytes sim_hal (crc_failure_entry sim_hal w))"
    unfolding fw stored_entry_def by simp
qed
text \<open>
  C4 (as amended).  \<open>SECBOOT_Diag_HandleCrcFail\<close> called with \<open>MISMATCH\<close> selects
  \<open>RECOVER\<close> and never returns to its caller: the episode ends halted in
  \<open>system_lockdown\<close> or with control transferred to the backup image.  In the
  whole episode \<open>SECBOOT_BootManager_VerifyAppSignature\<close> is called exactly once,
  on the backup slot.  When that verification fails, \<open>SECBOOT_Diag_LogEvent\<close> is
  called once more, with the code \<open>SIG_FAIL_BACKUP_IMAGE\<close> that no earlier call
  carried, and lockdown follows at once.  When it succeeds, the jump is made
  once; if the jump comes back, the failure is logged and lockdown follows.
  When the verification fails and the flash takes the entry (the first word of
  the next log slot reads erased, the eight double words are programmed, and
  the slot reads back as written), a second, distinct log entry is written: at
  the end of the episode that slot holds an entry with event
  \<open>ROLLBACK_ATTEMPT\<close>, code \<open>SIG_FAIL_BACKUP_IMAGE\<close> and data 0, and the log index
  has moved on to the slot after it.  It is not the slot of the episode's first
  entry: when the flash took the entry of the CRC failure, which goes to the slot
  of the index on entry, the backup failure entry goes to another slot.
\<close>

theorem handle_crc_mismatch_episode:
  "response_for_crc SECBOOT_CRC_MISMATCH = SECBOOT_DIAG_RESP_RECOVER \<and>
   \<not> is_Returned (SECBOOT_Diag_HandleCrcFail h SECBOOT_CRC_MISMATCH w) \<and>
   filter is_verify_call
       (new_calls w (final_world (SECBOOT_Diag_HandleCrcFail h SECBOOT_CRC_MISMATCH w)))
     = [VerifyAppSignature_call SECBOOT_BACKUP_IMAGE_ADDR] \<and>
   (fst (backup_verification h w) \<noteq> SECBOOT_BOOTMANAGER_OK \<longrightarrow>
      is_Halted (SECBOOT_Diag_HandleCrcFail h SECBOOT_CRC_MISMATCH w) \<and>
      top_level (new_calls w (final_world (SECBOOT_Diag_HandleCrcFail h SECBOOT_CRC_MISMATCH w)))
        = [LogEvent_call SECBOOT_DIAG_CRC_FAIL 4 (tick_src h (ticks w)),
           LogEvent_call SECBOOT_DIAG_ROLLBACK_ATTEMPT ROLLBACK_NORMAL_RECOVERY
             (tick_src h (ticks w + 2)),
           VerifyAppSignature_call SECBOOT_BACKUP_IMAGE_ADDR,
           LogEvent_call SECBOOT_DIAG_ROLLBACK_ATTEMPT SIG_FAIL_BACKUP_IMAGE 0,
           Lockdown]) \<and>
   (fst (backup_verification h w) = SECBOOT_BOOTMANAGER_OK \<longrightarrow>
      is_Transferred (SECBOOT_Diag_HandleCrcFail h SECBOOT_CRC_MISMATCH w)
        = (\<not> ns_reset_handler_returns h) \<and>
      top_level (new_calls w (final_world (SECBOOT_Diag_HandleCrcFail h SECBOOT_CRC_MISMATCH w)))
        = [LogEvent_call SECBOOT_DIAG_CRC_FAIL 4 (tick_src h (ticks w)),
           LogEvent_call SECBOOT_DIAG_ROLLBACK_ATTEMPT ROLLBACK_NORMAL_RECOVERY
             (tick_src h (ticks w + 2)),
           VerifyAppSignature_call SECBOOT_BACKUP_IMAGE_ADDR,
           JumpTo_call SECBOOT_BACKUP_IMAGE_ADDR]
          @ (if ns_reset_handler_returns h
             then [LogEvent_call SECBOOT_DIAG_ROLLBACK_ATTEMPT ROOLBACK_JUMP_FAILED
                     (tick_src h (ticks w + 4)),
                   Lockdown]
             else [])) \<and>
   (fst (backup_verification h w) \<noteq> SECBOOT_BOOTMANAGER_OK \<and>
    flash_takes_entry h (backup_failure_entry h w) (snd (backup_verification h w)) \<longrightarrow>
      event (stored_entry
               (mem (final_world (SECBOOT_Diag_HandleCrcFail h SECBOOT_CRC_MISMATCH w)))
               (next_slot (snd (backup_verification h w)))) = SECBOOT_DIAG_ROLLBACK_ATTEMPT \<and>
      error_code (stored_entry
               (mem (final_world (SECBOOT_Diag_HandleCrcFail h SECBOOT_CRC_MISMATCH w)))
               (next_slot (snd (backup_verification h w)))) = SIG_FAIL_BACKUP_IMAGE \<and>
      context_data (stored_entry
               (mem (final_world (SECBOOT_Diag_HandleCrcFail h SECBOOT_CRC_MISMATCH w)))
               (next_slot (snd (backup_verification h w)))) = 0 \<and>
      log_index (final_world (SECBOOT_Diag_HandleCrcFail h SECBOOT_CRC_MISMATCH w))
        = (log_index (snd (backup_verification h w)) + 1) mod SECBOOT_DIAG_MAX_LOGS) \<and>
   (flash_takes_entry h (crc_failure_entry h w) (snd (HAL_GetTick h w)) \<longrightarrow>
      next_slot (snd (backup_verification h w)) \<noteq> next_slot w)"
proof -
  define ws where "ws = recovery_state h SECBOOT_CRC_MISMATCH w"
  define v where "v = SECBOOT_BootManager_VerifyAppSignature h SECBOOT_BACKUP_IMAGE_ADDR ws"
  define r where "r = SECBOOT_Diag_HandleCrcFail h SECBOOT_CRC_MISMATCH w"
  define LE1 where "LE1 = LogEvent_call SECBOOT_DIAG_CRC_FAIL 4 (tick_src h (ticks w))"
  define LE2 where "LE2 = LogEvent_call SECBOOT_DIAG_ROLLBACK_ATTEMPT ROLLBACK_NORMAL_RECOVERY
                            (tick_src h (ticks w + 2))"
  define VC where "VC = VerifyAppSignature_call SECBOOT_BACKUP_IMAGE_ADDR"
  have tws: "trace ws = trace w @ [LE1, LE2]" and kws: "ticks ws = ticks w + 4"
    by (simp_all add: ws_def recovery_state_facts LE1_def LE2_def)
  obtain inner where tv: "trace (snd v) = trace ws @ VC # inner"
      and inn: "\<forall>c \<in> set inner. is_inner_call c"
    using verify_inner_calls [of h SECBOOT_BACKUP_IMAGE_ADDR ws]
    unfolding v_def VC_def by blast
  have kv: "ticks (snd v) = ticks w + 4"
    by (simp add: v_def verify_other kws)
  have fi: "filter is_verify_call inner = []" "top_level inner = []"
    using filter_inner [OF inn] by simp_all
  have r_eq: "r =
      (if fst v \<noteq> SECBOOT_BOOTMANAGER_OK
       then Halted (log_call Lockdown
              (snd (SECBOOT_Diag_LogEvent h SECBOOT_DIAG_ROLLBACK_ATTEMPT
                      SIG_FAIL_BACKUP_IMAGE 0 (snd v))))
       else if ns_reset_handler_returns h
       then Halted (log_call Lockdown
              (snd (SECBOOT_Diag_LogEvent h SECBOOT_DIAG_ROLLBACK_ATTEMPT ROOLBACK_JUMP_FAILED
                      (tick_src h (ticks (snd v)))
                      (snd (HAL_GetTick h (log_call (JumpTo_call SECBOOT_BACKUP_IMAGE_ADDR) (snd v)))))))
       else Transferred (log_call (JumpTo_call SECBOOT_BACKUP_IMAGE_ADDR) (snd v)))"
    unfolding r_def v_def ws_def by (simp add: handle_crc_mismatch_unfold Let_def)
  have tr: "new_calls w (final_world r) =
      [LE1, LE2, VC] @ inner @
      (if fst v \<noteq> SECBOOT_BOOTMANAGER_OK
       then [LogEvent_call SECBOOT_DIAG_ROLLBACK_ATTEMPT SIG_FAIL_BACKUP_IMAGE 0, Lockdown]
       else JumpTo_call SECBOOT_BACKUP_IMAGE_ADDR #
         (if ns_reset_handler_returns h
          then [LogEvent_call SECBOOT_DIAG_ROLLBACK_ATTEMPT ROOLBACK_JUMP_FAILED
                  (tick_src h (ticks w + 4)), Lockdown]
          else []))"
    unfolding r_eq by (simp add: new_calls_def log_event_trace tv tws kv)
  have nv: "\<not> is_verify_call LE1" "\<not> is_verify_call LE2" "is_verify_call VC"
           "\<not> is_inner_call LE1" "\<not> is_inner_call LE2" "\<not> is_inner_call VC"
    by (simp_all add: LE1_def LE2_def VC_def)
  have 1: "response_for_crc SECBOOT_CRC_MISMATCH = SECBOOT_DIAG_RESP_RECOVER"
    by (simp add: response_for_crc_def)
  have 2: "\<not> is_Returned r"
    unfolding r_eq by simp
  have 3: "filter is_verify_call (new_calls w (final_world r)) = [VC]"
    unfolding tr using nv fi by simp
  have 4: "fst v \<noteq> SECBOOT_BOOTMANAGER_OK \<longrightarrow>
             is_Halted r \<and>
             top_level (new_calls w (final_world r)) =
               [LE1, LE2, VC, LogEvent_call SECBOOT_DIAG_ROLLBACK_ATTEMPT SIG_FAIL_BACKUP_IMAGE 0,
                Lockdown]"
  proof
    assume f: "fst v \<noteq> SECBOOT_BOOTMANAGER_OK"
    have "is_Halted r" unfolding r_eq using f by simp
    moreover have "top_level (new_calls w (final_world r)) =
               [LE1, LE2, VC, LogEvent_call SECBOOT_DIAG_ROLLBACK_ATTEMPT SIG_FAIL_BACKUP_IMAGE 0,
                Lockdown]"
      unfolding tr using f nv fi by simp
    ultimately show "is_Halted r \<and>
             top_level (new_calls w (final_world r)) =
               [LE1, LE2, VC, LogEvent_call SECBOOT_DIAG_ROLLBACK_ATTEMPT SIG_FAIL_BACKUP_IMAGE 0,
                Lockdown]" ..
  qed
  have 5: "fst v = SECBOOT_BOOTMANAGER_OK \<longrightarrow>
             is_Transferred r = (\<not> ns_reset_handler_returns h) \<and>
             top_level (new_calls w (final_world r)) =
               [LE1, LE2, VC, JumpTo_call SECBOOT_BACKUP_IMAGE_ADDR]
               @ (if ns_reset_handler_returns h
                  then [LogEvent_call SECBOOT_DIAG_ROLLBACK_ATTEMPT ROOLBACK_JUMP_FAILED
                          (tick_src h (ticks w + 4)), Lockdown]
                  else [])"
  proof
    assume f: "fst v = SECBOOT_BOOTMANAGER_OK"
    have "is_Transferred r = (\<not> ns_reset_handler_returns h)"
      unfolding r_eq using f by simp
    moreover have "top_level (new_calls w (final_world r)) =
               [LE1, LE2, VC, JumpTo_call SECBOOT_BACKUP_IMAGE_ADDR]
               @ (if ns_reset_handler_returns h
                  then [LogEvent_call SECBOOT_DIAG_ROLLBACK_ATTEMPT ROOLBACK_JUMP_FAILED
                          (tick_src h (ticks w + 4)), Lockdown]
                  else [])"
      unfolding tr using f nv fi by simp
    ultimately show "is_Transferred r = (\<not> ns_reset_handler_returns h) \<and>
             top_level (new_calls w (final_world r)) =
               [LE1, LE2, VC, JumpTo_call SECBOOT_BACKUP_IMAGE_ADDR]
               @ (if ns_reset_handler_returns h
                  then [LogEvent_call SECBOOT_DIAG_ROLLBACK_ATTEMPT ROOLBACK_JUMP_FAILED
                          (tick_src h (ticks w + 4)), Lockdown]
                  else [])" ..
  qed
  have 6: "fst (backup_verification h w) \<noteq> SECBOOT_BOOTMANAGER_OK \<and>
           flash_takes_entry h (backup_failure_entry h w) (snd (backup_verification h w)) \<longrightarrow>
             event (stored_entry (mem (final_world r)) (next_slot (snd (backup_verification h w))))
               = SECBOOT_DIAG_ROLLBACK_ATTEMPT \<and>
             error_code (stored_entry (mem (final_world r)) (next_slot (snd (backup_verification h w))))
               = SIG_FAIL_BACKUP_IMAGE \<and>
             context_data (stored_entry (mem (final_world r)) (next_slot (snd (backup_verification h w))))
               = 0 \<and>
             log_index (final_world r)
               = (log_index (snd (backup_verification h w)) + 1) mod SECBOOT_DIAG_MAX_LOGS"
  proof
    assume a: "fst (backup_verification h w) \<noteq> SECBOOT_BOOTMANAGER_OK \<and>
               flash_takes_entry h (backup_failure_entry h w) (snd (backup_verification h w))"
    then have f: "fst (backup_verification h w) \<noteq> SECBOOT_BOOTMANAGER_OK"
        and t: "flash_takes_entry h (backup_failure_entry h w) (snd (backup_verification h w))"
      by simp_all
    note s = backup_failure_entry_stored [OF f t]
    show "event (stored_entry (mem (final_world r)) (next_slot (snd (backup_verification h w))))
               = SECBOOT_DIAG_ROLLBACK_ATTEMPT \<and>
             error_code (stored_entry (mem (final_world r)) (next_slot (snd (backup_verification h w))))
               = SIG_FAIL_BACKUP_IMAGE \<and>
             context_data (stored_entry (mem (final_world r)) (next_slot (snd (backup_verification h w))))
               = 0 \<and>
             log_index (final_world r)
               = (log_index (snd (backup_verification h w)) + 1) mod SECBOOT_DIAG_MAX_LOGS"
      unfolding r_def s(1) by (simp only: backup_failure_entry_fields s(2) simp_thms)
  qed
  have 7: "flash_takes_entry h (crc_failure_entry h w) (snd (HAL_GetTick h w)) \<longrightarrow>
             next_slot (snd (backup_verification h w)) \<noteq> next_slot w"
    by (rule impI) (rule backup_failure_slot_distinct)
  have bv: "backup_verification h w = v"
    by (simp add: backup_verification_def v_def ws_def)
  from 1 2 3 4 5 6 7 show ?thesis
    unfolding bv unfolding r_def LE1_def LE2_def VC_def by blast
qed


text \<open>
  Flash that reads zero everywhere: the call does not return \<open>RECOVER\<close>, nor
  anything else, it ends halted; and though the backup verification fails and
  \<open>SECBOOT_Diag_LogEvent\<close> is called with \<open>SIG_FAIL_BACKUP_IMAGE\<close>, no log entry is
  written: no slot reads erased, flash is unchanged at the end of the episode and
  the log index is still 0.
\<close>

theorem handle_crc_mismatch_does_not_return:
  "\<not> is_Returned (SECBOOT_Diag_HandleCrcFail sim_hal SECBOOT_CRC_MISMATCH (world_of zero_memory)) \<and>
   is_Halted (SECBOOT_Diag_HandleCrcFail sim_hal SECBOOT_CRC_MISMATCH (world_of zero_memory)) \<and>
   fst (backup_verification sim_hal (world_of zero_memory)) = SECBOOT_BOOTMANAGER_INVALID_HEADER \<and>
   mem (final_world (SECBOOT_Diag_HandleCrcFail sim_hal SECBOOT_CRC_MISMATCH (world_of zero_memory)))
     = zero_memory \<and>
   log_index (final_world (SECBOOT_Diag_HandleCrcFail sim_hal SECBOOT_CRC_MISMATCH
                             (world_of zero_memory))) = 0"
proof -
  let ?W = "world_of zero_memory"
  let ?ws = "recovery_state sim_hal SECBOOT_CRC_MISMATCH ?W"
  let ?v = "backup_verification sim_hal ?W"
  let ?L = "SECBOOT_Diag_LogEvent sim_hal SECBOOT_DIAG_ROLLBACK_ATTEMPT SIG_FAIL_BACKUP_IMAGE 0
              (snd ?v)"
  have rz: "read_bytes zero_memory a 4 = [0, 0, 0, 0]" for a
    by (simp add: zero_memory_def numeral_eq_Suc)
  have z: "mem w = zero_memory \<Longrightarrow> load32 (mem w) a \<noteq> 0xFFFFFFFF" for w :: world and a
    by (simp add: load32_def rz le32_def)
  have keep: "mem (snd (SECBOOT_Diag_LogEvent sim_hal ev code data w)) = zero_memory \<and>
              log_index (snd (SECBOOT_Diag_LogEvent sim_hal ev code data w)) = log_index w"
    if "ev \<le> SECBOOT_DIAG_ROLLBACK_ATTEMPT" "mem w = zero_memory" for ev code data and w :: world
    using that by (simp add: log_event_guard [OF that(1) z [OF that(2)]] after_tick_def)
  have v1: "SECBOOT_DIAG_CRC_FAIL \<le> SECBOOT_DIAG_ROLLBACK_ATTEMPT"
    by (simp add: SECBOOT_DIAG_CRC_FAIL_def SECBOOT_DIAG_ROLLBACK_ATTEMPT_def)
  have v2: "SECBOOT_DIAG_ROLLBACK_ATTEMPT \<le> SECBOOT_DIAG_ROLLBACK_ATTEMPT" by simp
  have ws: "mem ?ws = zero_memory" "log_index ?ws = 0"
    by (simp_all add: recovery_state_def Let_def keep [OF v1] keep [OF v2] world_of_def)
  have mg: "hdr_magicNumber (mem ?ws) SECBOOT_BACKUP_IMAGE_ADDR \<noteq> FW_MAGIC_NUMBER"
    unfolding ws by (simp add: magic_bytes zero_memory_def le32_def FW_MAGIC_NUMBER_def)
  have f: "fst ?v = SECBOOT_BOOTMANAGER_INVALID_HEADER"
    using mg by (simp add: backup_verification_def verify_status)
  have v: "mem (snd ?v) = zero_memory" "log_index (snd ?v) = 0"
    using f by (simp_all add: backup_verification_def verify_mem verify_other ws)
  have r: "SECBOOT_Diag_HandleCrcFail sim_hal SECBOOT_CRC_MISMATCH ?W
             = Halted (log_call Lockdown (snd ?L))"
    using f by (simp add: handle_crc_mismatch_unfold Let_def backup_verification_def)
  show ?thesis
    unfolding r using f keep [OF v2 v(1)] v(2) by (simp add: log_call_def)
qed

text \<open>
  The cases at concrete states: flash that reads zero, where the verification
  fails; flash with the backup image, where it succeeds and the reset handler
  does not return; and erased flash, where the verification fails and the flash
  takes every entry: the episode leaves the entry of the CRC failure in the first
  slot, the backup failure entry in the third, and the index at 3.
\<close>

theorem handle_crc_mismatch_episode_witness:
  "is_Halted (SECBOOT_Diag_HandleCrcFail sim_hal SECBOOT_CRC_MISMATCH (world_of zero_memory)) \<and>
   top_level (new_calls (world_of zero_memory)
                (final_world (SECBOOT_Diag_HandleCrcFail sim_hal SECBOOT_CRC_MISMATCH
                                (world_of zero_memory))))
     = [LogEvent_call SECBOOT_DIAG_CRC_FAIL 4 100,
        LogEvent_call SECBOOT_DIAG_ROLLBACK_ATTEMPT ROLLBACK_NORMAL_RECOVERY 102,
        VerifyAppSignature_call SECBOOT_BACKUP_IMAGE_ADDR,
        LogEvent_call SECBOOT_DIAG_ROLLBACK_ATTEMPT SIG_FAIL_BACKUP_IMAGE 0,
        Lockdown] \<and>
   is_Transferred (SECBOOT_Diag_HandleCrcFail sim_hal SECBOOT_CRC_MISMATCH
                     (world_of backup_image_used_log)) \<and>
   top_level (new_calls (world_of backup_image_used_log)
                (final_world (SECBOOT_Diag_HandleCrcFail sim_hal SECBOOT_CRC_MISMATCH
                                (world_of backup_image_used_log))))
     = [LogEvent_call SECBOOT_DIAG_CRC_FAIL 4 100,
        LogEvent_call SECBOOT_DIAG_ROLLBACK_ATTEMPT ROLLBACK_NORMAL_RECOVERY 102,
        VerifyAppSignature_call SECBOOT_BACKUP_IMAGE_ADDR,
        JumpTo_call SECBOOT_BACKUP_IMAGE_ADDR] \<and>
   event (stored_entry
            (mem (final_world (SECBOOT_Diag_HandleCrcFail sim_hal SECBOOT_CRC_MISMATCH
                                 (world_of erased_memory))))
            (SECBOOT_DIAG_LOG_BASE + 128)) = SECBOOT_DIAG_ROLLBACK_ATTEMPT \<and>
   error_code (stored_entry
            (mem (final_world (SECBOOT_Diag_HandleCrcFail sim_hal SECBOOT_CRC_MISMATCH
                                 (world_of erased_memory))))
            (SECBOOT_DIAG_LOG_BASE + 128)) = SIG_FAIL_BACKUP_IMAGE \<and>
   context_data (stored_entry
            (mem (final_world (SECBOOT_Diag_HandleCrcFail sim_hal SECBOOT_CRC_MISMATCH
                                 (world_of erased_memory))))
            (SECBOOT_DIAG_LOG_BASE + 128)) = 0 \<and>
   log_index (final_world (SECBOOT_Diag_HandleCrcFail sim_hal SECBOOT_CRC_MISMATCH
                             (world_of erased_memory))) = 3 \<and>
   next_slot (snd (backup_verification sim_hal (world_of erased_memory)))
     \<noteq> next_slot (world_of erased_memory) \<and>
   event (stored_entry
            (mem (final_world (SECBOOT_Diag_HandleCrcFail sim_hal SECBOOT_CRC_MISMATCH
                                 (world_of erased_memory))))
            SECBOOT_DIAG_LOG_BASE) = SECBOOT_DIAG_CRC_FAIL \<and>
   error_code (stored_entry
            (mem (final_world (SECBOOT_Diag_HandleCrcFail sim_hal SECBOOT_CRC_MISMATCH
                                 (world_of erased_memory))))
            SECBOOT_DIAG_LOG_BASE) = 4"
proof -
  let ?E = "world_of erased_memory"
  have f: "fst (backup_verification sim_hal (world_of zero_memory)) \<noteq> SECBOOT_BOOTMANAGER_OK"
    by code_simp
  have g: "fst (backup_verification sim_hal (world_of backup_image_used_log))
             = SECBOOT_BOOTMANAGER_OK"
    by code_simp
  have t: "tick_src sim_hal (ticks (world_of m)) = 100"
          "tick_src sim_hal (ticks (world_of m) + 2) = 102"
          "tick_src sim_hal (Suc (Suc (ticks (world_of m)))) = 102"
          "\<not> ns_reset_handler_returns sim_hal" for m
    by (simp_all add: sim_hal_def world_of_def)
  have ix: "log_index ?E = of_nat 0"
    by (simp add: world_of_def)
  have er: "\<forall>j. 64 * 0 \<le> j \<and> j < 1024 \<longrightarrow> mem ?E (SECBOOT_DIAG_LOG_BASE + of_nat j) = 0xFF"
    by (simp add: world_of_def erased_memory_def)
  have mg: "hdr_magicNumber (mem ?E) SECBOOT_BACKUP_IMAGE_ADDR \<noteq> FW_MAGIC_NUMBER"
    by (simp add: magic_bytes world_of_def erased_memory_def le32_def FW_MAGIC_NUMBER_def)
  have k13: "(0 :: nat) < 13" by simp
  note b = sim_backup_failure_on_erased_log [OF k13 ix er mg]
  note fe = sim_first_entry_kept [OF k13 ix er mg]
  have e: "fst (backup_verification sim_hal ?E) \<noteq> SECBOOT_BOOTMANAGER_OK"
    by (rule b(1))
  have k: "flash_takes_entry sim_hal (backup_failure_entry sim_hal ?E)
             (snd (backup_verification sim_hal ?E))"
    by (rule b(2))
  have k0: "flash_takes_entry sim_hal (crc_failure_entry sim_hal ?E) (snd (HAL_GetTick sim_hal ?E))"
    by (rule fe(2))
  have n0: "next_slot ?E = SECBOOT_DIAG_LOG_BASE"
    using next_slot_of_nat [OF ix] by simp
  have c: "event (stored_entry
              (mem (final_world (SECBOOT_Diag_HandleCrcFail sim_hal SECBOOT_CRC_MISMATCH ?E)))
              SECBOOT_DIAG_LOG_BASE) = SECBOOT_DIAG_CRC_FAIL"
          "error_code (stored_entry
              (mem (final_world (SECBOOT_Diag_HandleCrcFail sim_hal SECBOOT_CRC_MISMATCH ?E)))
              SECBOOT_DIAG_LOG_BASE) = 4"
    using fe(1) unfolding n0 by (simp_all only: crc_failure_entry_fields)
  have i: "log_index (snd (backup_verification sim_hal ?E)) = of_nat 2"
    using b(3) by (simp add: numeral_2_eq_2)
  have s: "next_slot (snd (backup_verification sim_hal ?E)) = SECBOOT_DIAG_LOG_BASE + 128"
    using next_slot_of_nat [OF i] by simp
  have n: "(log_index (snd (backup_verification sim_hal ?E)) + 1) mod SECBOOT_DIAG_MAX_LOGS = 3"
    unfolding i by (simp add: SECBOOT_DIAG_MAX_LOGS_def)
  from handle_crc_mismatch_episode [of sim_hal "world_of zero_memory"] f
       handle_crc_mismatch_episode [of sim_hal "world_of backup_image_used_log"] g
       handle_crc_mismatch_episode [of sim_hal ?E] e k k0 c
  show ?thesis
    unfolding s n by (simp add: t)
qed

end
